(* ===== verification/JsPrelude.thy ===== *)
theory JsPrelude
  imports Complex_Main "HOL-Library.AList" "HOL-Library.Sublist"
begin

text \<open>
  Prelude of the web UI development: the fragment of the ECMAScript string and number
  library the sources call, and the generic notion of a run of a labelled step relation
  with its invariant principle.

  Strings are lists of characters. A character stands for one UTF-16 code unit below 256,
  so case conversion, white space and percent encoding are those of the Latin-1 range.
\<close>

section \<open>Collections of hints\<close>

named_theorems js_simps \<open>equations of the string and number library\<close>
named_theorems obj_simps \<open>equations of objects, maps and sets\<close>
named_theorems app_defs \<open>definitions of the user interface handlers\<close>

section \<open>Characters\<close>

definition code_of :: "char \<Rightarrow> nat" where
  "code_of c = of_char c"

text \<open>White space as \<open>trim\<close> and the regular expression class \<open>s\<close> see it.\<close>

definition js_space :: "char \<Rightarrow> bool" where
  "js_space c \<longleftrightarrow> code_of c \<in> {9, 10, 11, 12, 13, 32, 160}"

definition js_digit :: "char \<Rightarrow> bool" where
  "js_digit c \<longleftrightarrow> 48 \<le> code_of c \<and> code_of c \<le> 57"

definition line_terminator :: "char \<Rightarrow> bool" where
  "line_terminator c \<longleftrightarrow> code_of c = 10 \<or> code_of c = 13"

definition lower_char :: "char \<Rightarrow> char" where
  "lower_char c =
     (let n = code_of c in
      if (65 \<le> n \<and> n \<le> 90) \<or> (192 \<le> n \<and> n \<le> 222 \<and> n \<noteq> 215)
      then char_of (n + 32) else c)"

lemma code_of_bound: "code_of c < 256"
  unfolding code_of_def by (metis of_char_mod_256 mod_less_divisor zero_less_numeral)

lemma char_of_code_of [simp]: "char_of (code_of c) = c"
  by (simp add: code_of_def)

lemma digit_not_space: "js_digit c \<Longrightarrow> \<not> js_space c"
  by (auto simp: js_digit_def js_space_def)

lemma line_terminator_space: "line_terminator c \<Longrightarrow> js_space c"
  by (auto simp: line_terminator_def js_space_def)

section \<open>String operations\<close>

definition js_trim :: "string \<Rightarrow> string" where
  "js_trim s = rev (dropWhile js_space (rev (dropWhile js_space s)))"

definition to_lower :: "string \<Rightarrow> string" where
  "to_lower s = map lower_char s"

definition js_includes :: "string \<Rightarrow> string \<Rightarrow> bool" where
  "js_includes hay needle \<longleftrightarrow> sublist needle hay"

text \<open>\<open>xs.join(sep)\<close> and \<open>s.split(c)\<close> for a one character separator.\<close>

fun js_join :: "string \<Rightarrow> string list \<Rightarrow> string" where
  "js_join sep [] = []"
| "js_join sep [x] = x"
| "js_join sep (x # y # ys) = x @ sep @ js_join sep (y # ys)"

fun js_split :: "char \<Rightarrow> string \<Rightarrow> string list" where
  "js_split c [] = [[]]"
| "js_split c (x # xs) =
     (if x = c then [] # js_split c xs
      else (case js_split c xs of [] \<Rightarrow> [[x]] | p # ps \<Rightarrow> (x # p) # ps))"

lemma js_split_nonempty [simp]: "js_split c s \<noteq> []"
  by (induction s) (auto split: list.splits)

lemma js_split_no_sep: "c \<notin> set s \<Longrightarrow> js_split c s = [s]"
  by (induction s) auto

lemma js_split_append: "c \<notin> set s \<Longrightarrow> js_split c (s @ c # t) = s # js_split c t"
  by (induction s) auto

text \<open>Splitting undoes joining when no part holds the separator.\<close>

lemma js_split_join:
  "xs \<noteq> [] \<Longrightarrow> \<forall>x \<in> set xs. c \<notin> set x \<Longrightarrow> js_split c (js_join [c] xs) = xs"
  by (induction "[c]" xs rule: js_join.induct) (auto simp: js_split_no_sep js_split_append)

lemma js_join_split: "js_join [c] (js_split c s) = s"
proof (induction s)
  case (Cons x xs)
  then show ?case by (cases "js_split c xs" rule: list.exhaust) (cases "tl (js_split c xs)"; auto)+
qed simp

lemma js_trim_id:
  "s = [] \<or> (\<not> js_space (hd s) \<and> \<not> js_space (last s)) \<Longrightarrow> js_trim s = s"
proof (cases s)
  case (Cons a list)
  moreover assume "s = [] \<or> (\<not> js_space (hd s) \<and> \<not> js_space (last s))"
  ultimately have a: "\<not> js_space (hd s)" "\<not> js_space (last s)" "s \<noteq> []" by auto
  from a have "dropWhile js_space s = s" by (cases s) auto
  moreover from a have "dropWhile js_space (rev s) = rev s"
    by (cases s rule: rev_cases) auto
  ultimately show ?thesis by (simp add: js_trim_def)
qed (simp add: js_trim_def)

lemma dropWhile_append_all:
  "\<forall>c \<in> set w. P c \<Longrightarrow> dropWhile P (w @ s) = dropWhile P s"
  by (induction w) auto

lemma dropWhile_until: "c \<notin> set w \<Longrightarrow> dropWhile (\<lambda>x. x \<noteq> c) (w @ c # s) = c # s"
  by (induction w) auto

lemma dropWhile_rev_append_all:
  "\<forall>c \<in> set w. P c \<Longrightarrow> dropWhile P (rev (s @ w)) = dropWhile P (rev s)"
  by (simp add: dropWhile_append_all)

lemma js_trim_pad_left: "\<forall>c \<in> set w. js_space c \<Longrightarrow> js_trim (w @ s) = js_trim s"
  by (simp add: js_trim_def dropWhile_append_all)

lemma dropWhile_append_stop: "\<exists>c \<in> set s. \<not> P c \<Longrightarrow> dropWhile P (s @ w) = dropWhile P s @ w"
  by (induction s) auto

lemma js_trim_all_space: "\<forall>c \<in> set w. js_space c \<Longrightarrow> js_trim w = []"
proof -
  assume "\<forall>c \<in> set w. js_space c"
  then have "dropWhile js_space w = []" by (simp add: dropWhile_eq_Nil_conv)
  then show ?thesis by (simp only: js_trim_def) simp
qed

lemma js_trim_pad_right: "\<forall>c \<in> set w. js_space c \<Longrightarrow> js_trim (s @ w) = js_trim s"
proof (cases "\<exists>c \<in> set s. \<not> js_space c")
  case True
  assume "\<forall>c \<in> set w. js_space c"
  with True show ?thesis
    by (simp add: js_trim_def dropWhile_append_stop dropWhile_append_all)
next
  case False
  moreover assume "\<forall>c \<in> set w. js_space c"
  ultimately have "\<forall>c \<in> set (s @ w). js_space c" "\<forall>c \<in> set s. js_space c" by auto
  then show ?thesis by (metis js_trim_all_space)
qed

lemma js_trim_nonempty: "js_trim s = [] \<longleftrightarrow> (\<forall>c \<in> set s. js_space c)"
  unfolding js_trim_def
  by (metis (no_types, lifting) dropWhile_eq_Nil_conv set_dropWhileD set_rev rev_is_Nil_conv
      dropWhile_append_stop append_Nil2 hd_dropWhile hd_in_set)

lemma nth_update_total: "j < length xs \<Longrightarrow> xs[i := x] ! j = (if i = j then x else xs ! j)"
  by (cases "i = j") auto

section \<open>Decimal numbers\<close>

definition digit_char :: "nat \<Rightarrow> char" where
  "digit_char d = char_of (48 + d)"

definition digit_val :: "char \<Rightarrow> nat" where
  "digit_val c = code_of c - 48"

fun show_nat :: "nat \<Rightarrow> string" where
  "show_nat n =
     (if n < 10 then [digit_char n] else show_nat (n div 10) @ [digit_char (n mod 10)])"

declare show_nat.simps [simp del]

definition show_int :: "int \<Rightarrow> string" where
  "show_int i = (if i < 0 then ''-'' @ show_nat (nat (- i)) else show_nat (nat i))"

definition read_nat :: "string \<Rightarrow> nat" where
  "read_nat s = foldl (\<lambda>n c. 10 * n + digit_val c) 0 s"

lemma code_of_digit_char: "d < 10 \<Longrightarrow> code_of (digit_char d) = 48 + d"
  by (simp add: code_of_def digit_char_def)

lemma digit_char_digit: "d < 10 \<Longrightarrow> js_digit (digit_char d)"
  by (simp add: js_digit_def code_of_digit_char)

lemma digit_val_char [simp]: "d < 10 \<Longrightarrow> digit_val (digit_char d) = d"
  by (simp add: digit_val_def code_of_digit_char)

lemma read_nat_snoc: "read_nat (s @ [c]) = 10 * read_nat s + digit_val c"
  by (simp add: read_nat_def)

lemma read_show_nat [js_simps]: "read_nat (show_nat n) = n"
proof (induction n rule: show_nat.induct)
  case (1 n)
  then show ?case
    by (subst show_nat.simps) (auto simp: read_nat_snoc, simp add: read_nat_def)
qed

lemma show_nat_inj: "show_nat m = show_nat n \<Longrightarrow> m = n"
  by (metis read_show_nat)

lemma show_nat_digits: "c \<in> set (show_nat n) \<Longrightarrow> js_digit c"
proof (induction n rule: show_nat.induct)
  case (1 n)
  then show ?case
    by (subst (asm) show_nat.simps [of n])
      (auto simp: digit_char_digit split: if_splits)
qed

lemma show_nat_nonempty [simp]: "show_nat n \<noteq> []"
  by (subst show_nat.simps) simp

section \<open>parseInt\<close>

text \<open>
  \<open>parseInt(s, 10)\<close>: leading white space is skipped, one sign is read, then the longest
  run of digits; \<open>None\<close> is \<open>NaN\<close> (no digit).
\<close>

definition parse_digits :: "string \<Rightarrow> nat option" where
  "parse_digits s =
     (let ds = takeWhile js_digit s in if ds = [] then None else Some (read_nat ds))"

definition split_sign :: "string \<Rightarrow> int \<times> string" where
  "split_sign s =
     (case s of
        [] \<Rightarrow> (1, [])
      | c # r \<Rightarrow> if c = CHR ''-'' then (-1, r) else if c = CHR ''+'' then (1, r) else (1, s))"

definition parse_int10 :: "string \<Rightarrow> int option" where
  "parse_int10 s =
     (case split_sign (dropWhile js_space s) of
        (sg, r) \<Rightarrow> map_option (\<lambda>n. sg * int n) (parse_digits r))"

text \<open>\<open>parseInt(s)\<close> with no radix also reads a hexadecimal prefix.\<close>

definition hex_val :: "char \<Rightarrow> nat option" where
  "hex_val c =
     (let n = code_of c in
      if 48 \<le> n \<and> n \<le> 57 then Some (n - 48)
      else if 97 \<le> n \<and> n \<le> 102 then Some (n - 87)
      else if 65 \<le> n \<and> n \<le> 70 then Some (n - 55)
      else None)"

definition parse_hex :: "string \<Rightarrow> nat option" where
  "parse_hex s =
     (let ds = takeWhile (\<lambda>c. hex_val c \<noteq> None) s in
      if ds = [] then None
      else Some (foldl (\<lambda>n c. 16 * n + the (hex_val c)) 0 ds))"

definition parse_int_auto :: "string \<Rightarrow> int option" where
  "parse_int_auto s =
     (case split_sign (dropWhile js_space s) of
        (sg, r) \<Rightarrow>
          map_option (\<lambda>n. sg * int n)
            (if take 2 r = ''0x'' \<or> take 2 r = ''0X'' then parse_hex (drop 2 r)
             else parse_digits r))"

lemma parse_digits_show: "parse_digits (show_nat n) = Some n"
proof -
  have "takeWhile js_digit (show_nat n) = show_nat n"
    by (simp add: takeWhile_eq_all_conv show_nat_digits)
  then show ?thesis by (simp only: parse_digits_def Let_def) (simp add: read_show_nat)
qed

lemma parse_int10_show: "parse_int10 (show_nat n) = Some (int n)"
proof (cases "show_nat n")
  case (Cons c r)
  then have d: "js_digit c" by (intro show_nat_digits [of c n]) simp
  then have "dropWhile js_space (show_nat n) = show_nat n"
    using Cons digit_not_space by auto
  moreover have "c \<noteq> CHR ''-''" "c \<noteq> CHR ''+''" using d by (auto simp: js_digit_def code_of_def)
  ultimately show ?thesis
    using Cons parse_digits_show [of n] by (simp add: parse_int10_def split_sign_def)
qed simp

section \<open>Runs of a labelled step relation\<close>

inductive run :: "('s \<Rightarrow> 'e \<Rightarrow> 's \<Rightarrow> bool) \<Rightarrow> 's \<Rightarrow> 'e list \<Rightarrow> 's \<Rightarrow> bool"
  for step :: "'s \<Rightarrow> 'e \<Rightarrow> 's \<Rightarrow> bool" where
  run_nil: "run step s [] s"
| run_cons: "step s e t \<Longrightarrow> run step t es u \<Longrightarrow> run step s (e # es) u"

inductive_cases run_consE: "run step s (e # es) u"

lemma run_append: "run step s es t \<Longrightarrow> run step t fs u \<Longrightarrow> run step s (es @ fs) u"
  by (induction rule: run.induct) (auto intro: run.intros)

lemma run_snocE:
  "run step s (es @ [e]) u \<Longrightarrow> \<exists>t. run step s es t \<and> step t e u"
proof (induction es arbitrary: s)
  case Nil
  then show ?case by (auto elim!: run_consE elim: run.cases intro: run_nil)
next
  case (Cons f es)
  then show ?case by (auto elim!: run_consE intro: run_cons dest!: Cons.IH)
qed

text \<open>
  The contract of an invariant: it holds at the start and every step keeps it. What the
  component theories prove of one step, the locale lifts to whole runs.
\<close>

locale step_invariant =
  fixes step :: "'s \<Rightarrow> 'e \<Rightarrow> 's \<Rightarrow> bool"
    and start :: "'s \<Rightarrow> bool"
    and inv :: "'s \<Rightarrow> bool"
  assumes inv_start: "start s \<Longrightarrow> inv s"
    and inv_step: "inv s \<Longrightarrow> step s e t \<Longrightarrow> inv t"
begin

lemma inv_run: "run step s es t \<Longrightarrow> inv s \<Longrightarrow> inv t"
  by (induction rule: run.induct) (auto dest: inv_step)

lemma inv_reach: "start s \<Longrightarrow> run step s es t \<Longrightarrow> inv t"
  by (blast intro: inv_start inv_run)

end

text \<open>
  The contract of a simulation: the events of a deterministic system are labelled, and every
  step of a state that satisfies the invariant is a step of the specification under that label.
  The labels a list of events has along its execution then form a run of the specification.
\<close>

fun label_trace :: "('s \<Rightarrow> 'e \<Rightarrow> 'l) \<Rightarrow> ('e \<Rightarrow> 's \<Rightarrow> 's) \<Rightarrow> 'e list \<Rightarrow> 's \<Rightarrow> 'l list" where
  "label_trace label handle [] s = []"
| "label_trace label handle (e # es) s = label s e # label_trace label handle es (handle e s)"

locale simulation = step_invariant step start inv
  for step :: "'s \<Rightarrow> 'e \<Rightarrow> 's \<Rightarrow> bool" and start :: "'s \<Rightarrow> bool" and inv :: "'s \<Rightarrow> bool" +
  fixes handle :: "'e \<Rightarrow> 's \<Rightarrow> 's"
    and spec :: "'a \<Rightarrow> 'l \<Rightarrow> 'a \<Rightarrow> bool"
    and label :: "'s \<Rightarrow> 'e \<Rightarrow> 'l"
    and abs_of :: "'s \<Rightarrow> 'a"
  assumes deterministic: "step s e t \<Longrightarrow> t = handle e s"
    and simulates: "inv s \<Longrightarrow> step s e t \<Longrightarrow> spec (abs_of s) (label s e) (abs_of t)"
begin

lemma spec_run:
  "run step s es t \<Longrightarrow> inv s \<Longrightarrow> run spec (abs_of s) (label_trace label handle es s) (abs_of t)"
  by (induction rule: run.induct) (auto intro: run.intros inv_step simulates dest: deterministic)

lemma spec_reach:
  "start s \<Longrightarrow> run step s es t \<Longrightarrow> run spec (abs_of s) (label_trace label handle es s) (abs_of t)"
  by (blast intro: inv_start spec_run)

end

end
