(* ===== verification/JsValue.thy ===== *)
theory JsValue
  imports JsPrelude
begin

text \<open>
  JavaScript values as the sources see them: the results of \<open>JSON.parse\<close>, plain
  objects with their property order, thrown errors, and the contract of a keyed
  collection (objects used as records, and \<open>Map\<close>).

  Numbers are exact rationals; the rounding of binary floating point is not modelled.
  Properties inherited from \<open>Object.prototype\<close> are not modelled: keys are ordinary
  names (host names, field names), not \<open>__proto__\<close> or \<open>constructor\<close>.
\<close>

section \<open>Objects as association lists\<close>

type_synonym 'v jsobj = "(string \<times> 'v) list"

text \<open>
  A property write keeps the place of an existing key and appends a new one, as
  \<open>AList.update\<close> does. Keys are listed with the array indices first, in ascending
  order, and then the other keys in the order they were created.
\<close>

definition obj_get :: "'v jsobj \<Rightarrow> string \<Rightarrow> 'v option" where
  "obj_get m k = map_of m k"

definition obj_set :: "string \<Rightarrow> 'v \<Rightarrow> 'v jsobj \<Rightarrow> 'v jsobj" where
  "obj_set k v m = AList.update k v m"

definition array_index :: "string \<Rightarrow> nat option" where
  "array_index k =
     (if k \<noteq> [] \<and> list_all js_digit k \<and> (hd k \<noteq> CHR ''0'' \<or> length k = 1)
         \<and> int (read_nat k) < 2 ^ 32 - 1
      then Some (read_nat k) else None)"

definition obj_keys :: "'v jsobj \<Rightarrow> string list" where
  "obj_keys m =
     (let ks = map fst m in
      sort_key (\<lambda>k. the (array_index k)) (filter (\<lambda>k. array_index k \<noteq> None) ks)
      @ filter (\<lambda>k. array_index k = None) ks)"

definition obj_wf :: "'v jsobj \<Rightarrow> bool" where
  "obj_wf m \<longleftrightarrow> distinct (map fst m)"

definition obj_spread :: "'v jsobj \<Rightarrow> 'v jsobj \<Rightarrow> 'v jsobj" where
  "obj_spread m upd = foldl (\<lambda>acc (k, v). obj_set k v acc) m upd"

lemma obj_get_set [obj_simps]: "obj_get (obj_set k v m) = (obj_get m)(k \<mapsto> v)"
  by (simp add: obj_get_def obj_set_def fun_eq_iff update_conv')

lemma obj_wf_nil [obj_simps]: "obj_wf []"
  by (simp add: obj_wf_def)

lemma obj_wf_set [obj_simps]: "obj_wf m \<Longrightarrow> obj_wf (obj_set k v m)"
  by (simp add: obj_wf_def obj_set_def distinct_update)

lemma obj_get_nil [obj_simps]: "obj_get [] k = None"
  by (simp add: obj_get_def)

lemma set_obj_keys [obj_simps]: "set (obj_keys m) = dom (obj_get m)"
proof -
  have "set (obj_keys m) = fst ` set m" by (auto simp: obj_keys_def Let_def)
  also have "\<dots> = dom (map_of m)" by (simp add: dom_map_of_conv_image_fst)
  finally show ?thesis by (simp add: obj_get_def [abs_def])
qed

lemma distinct_obj_keys [obj_simps]: "obj_wf m \<Longrightarrow> distinct (obj_keys m)"
  by (auto simp: obj_keys_def obj_wf_def Let_def distinct_sort)

section \<open>The contract of a keyed collection\<close>

text \<open>A loop of writes, as \<open>data.forEach(r => results[key(r)] = value(r))\<close> performs.\<close>

definition assign_all :: "('k \<Rightarrow> 'v \<Rightarrow> 'm \<Rightarrow> 'm) \<Rightarrow> 'm \<Rightarrow> ('k \<times> 'v) list \<Rightarrow> 'm" where
  "assign_all upd m xs = foldl (\<lambda>acc (k, v). upd k v acc) m xs"

locale keyed_collection =
  fixes empty :: "'m"
    and lookup :: "'m \<Rightarrow> 'k \<Rightarrow> 'v option"
    and upd :: "'k \<Rightarrow> 'v \<Rightarrow> 'm \<Rightarrow> 'm"
    and keys :: "'m \<Rightarrow> 'k list"
    and wf :: "'m \<Rightarrow> bool"
  assumes lookup_empty: "lookup empty k = None"
    and lookup_upd: "lookup (upd k v m) = (lookup m)(k \<mapsto> v)"
    and set_keys: "set (keys m) = dom (lookup m)"
    and distinct_keys: "wf m \<Longrightarrow> distinct (keys m)"
    and wf_empty: "wf empty"
    and wf_upd: "wf m \<Longrightarrow> wf (upd k v m)"
begin

lemma wf_assign_all: "wf m \<Longrightarrow> wf (assign_all upd m xs)"
  by (induction xs arbitrary: m) (auto simp: assign_all_def wf_upd)

lemma lookup_assign_all:
  "lookup (assign_all upd m xs) k =
     (case map_of (rev xs) k of None \<Rightarrow> lookup m k | Some v \<Rightarrow> Some v)"
proof (induction xs arbitrary: m)
  case (Cons x xs)
  obtain j v where x: "x = (j, v)" by (cases x)
  have "lookup (assign_all upd m (x # xs)) k = lookup (assign_all upd (upd j v m) xs) k"
    by (simp add: assign_all_def x)
  also have "\<dots> = (case map_of (rev (x # xs)) k of None \<Rightarrow> lookup m k | Some v \<Rightarrow> Some v)"
    by (simp add: Cons.IH x lookup_upd map_add_def split: option.splits)
  finally show ?case .
qed (simp add: assign_all_def)

lemma keys_assign_all: "set (keys (assign_all upd empty xs)) = fst ` set xs"
proof -
  have "lookup (assign_all upd empty xs) = map_of (rev xs)"
    by (auto simp: fun_eq_iff lookup_assign_all lookup_empty split: option.splits)
  then have "dom (lookup (assign_all upd empty xs)) = fst ` set (rev xs)"
    by (simp only: dom_map_of_conv_image_fst)
  then show ?thesis by (simp add: set_keys)
qed

lemma no_keys_iff: "keys (assign_all upd empty xs) = [] \<longleftrightarrow> xs = []"
  using keys_assign_all [of xs] by (metis image_is_empty set_empty)

lemma first_key_bound:
  "keys (assign_all upd empty xs) = k # ks \<Longrightarrow> \<exists>v. lookup (assign_all upd empty xs) k = Some v"
  using set_keys [of "assign_all upd empty xs"] by (auto simp: domIff)

end

interpretation obj: keyed_collection "[]" obj_get obj_set obj_keys obj_wf
  by unfold_locales (simp_all add: obj_simps)

text \<open>\<open>Map\<close>: the keys are listed in insertion order only.\<close>

definition map_keys :: "('k \<times> 'v) list \<Rightarrow> 'k list" where
  "map_keys m = map fst m"

definition map_set :: "'k \<Rightarrow> 'v \<Rightarrow> ('k \<times> 'v) list \<Rightarrow> ('k \<times> 'v) list" where
  "map_set k v m = AList.update k v m"

definition map_wf :: "('k \<times> 'v) list \<Rightarrow> bool" where
  "map_wf m \<longleftrightarrow> distinct (map fst m)"

interpretation jsmap: keyed_collection "[]" map_of map_set map_keys map_wf
  by unfold_locales
    (auto simp: map_keys_def map_set_def map_wf_def update_conv' distinct_update
       dom_map_of_conv_image_fst)

section \<open>Values\<close>

datatype jsv =
    JUndef
  | JNull
  | JBool bool
  | JNum rat
  | JStr string
  | JArr "jsv list"
  | JObj "(string \<times> jsv) list"
  | JBuf string \<comment> \<open>an \<open>ArrayBuffer\<close>, by its bytes\<close>

text \<open>A thrown value: an \<open>Error\<close> with its message, or something else.\<close>

datatype exn = Error string | NonError

type_synonym 'a js_result = "exn + 'a"

fun truthy :: "jsv \<Rightarrow> bool" where
  "truthy JUndef = False"
| "truthy JNull = False"
| "truthy (JBool b) = b"
| "truthy (JNum n) = (n \<noteq> 0)"
| "truthy (JStr s) = (s \<noteq> [])"
| "truthy _ = True"

text \<open>\<open>a || b\<close>\<close>

definition js_or :: "jsv \<Rightarrow> jsv \<Rightarrow> jsv" where
  "js_or a b = (if truthy a then a else b)"

definition type_error :: "string \<Rightarrow> string \<Rightarrow> exn" where
  "type_error what k =
     Error (''Cannot read properties of '' @ what @ '' (reading '' @ [CHR 0x27] @ k @ [CHR 0x27] @ '')'')"

text \<open>A property read; it throws on \<open>undefined\<close> and \<open>null\<close>.\<close>

fun js_prop :: "jsv \<Rightarrow> string \<Rightarrow> jsv js_result" where
  "js_prop JUndef k = Inl (type_error ''undefined'' k)"
| "js_prop JNull k = Inl (type_error ''null'' k)"
| "js_prop (JObj m) k = Inr (case obj_get m k of None \<Rightarrow> JUndef | Some v \<Rightarrow> v)"
| "js_prop (JArr xs) k =
     Inr (if k = ''length'' then JNum (of_nat (length xs))
          else case array_index k of
                 Some i \<Rightarrow> if i < length xs then xs ! i else JUndef
               | None \<Rightarrow> JUndef)"
| "js_prop (JStr s) k =
     Inr (if k = ''length'' then JNum (of_nat (length s))
          else case array_index k of
                 Some i \<Rightarrow> if i < length s then JStr [s ! i] else JUndef
               | None \<Rightarrow> JUndef)"
| "js_prop (JBuf b) k = Inr (if k = ''byteLength'' then JNum (of_nat (length b)) else JUndef)"
| "js_prop _ k = Inr JUndef"

text \<open>\<open>v?.k\<close>\<close>

definition js_opt_prop :: "jsv \<Rightarrow> string \<Rightarrow> jsv" where
  "js_opt_prop v k = (case js_prop v k of Inl _ \<Rightarrow> JUndef | Inr w \<Rightarrow> w)"

definition is_array :: "jsv \<Rightarrow> bool" where
  "is_array v = (case v of JArr _ \<Rightarrow> True | _ \<Rightarrow> False)"

definition exn_bind :: "'a js_result \<Rightarrow> ('a \<Rightarrow> 'b js_result) \<Rightarrow> 'b js_result" where
  "exn_bind r f = (case r of Inl e \<Rightarrow> Inl e | Inr x \<Rightarrow> f x)"

lemma exn_bind_simps [simp]:
  "exn_bind (Inl e) f = Inl e" "exn_bind (Inr x) f = f x"
  by (simp_all add: exn_bind_def)

text \<open>\<open>err instanceof Error ? err.message : dflt\<close>\<close>

definition message_or :: "exn \<Rightarrow> string \<Rightarrow> string" where
  "message_or e dflt = (case e of Error m \<Rightarrow> m | NonError \<Rightarrow> dflt)"

lemma truthy_or: "truthy (js_or a b) \<longleftrightarrow> truthy a \<or> truthy b"
  by (simp add: js_or_def)

lemma js_prop_throws: "(\<exists>e. js_prop v k = Inl e) \<longleftrightarrow> v = JUndef \<or> v = JNull"
  by (cases v) auto

section \<open>Conversion to a string\<close>

text \<open>
  Integers print in decimal. Other rationals print by long division, at most seventeen
  fractional digits, which is what a JSON decimal of up to fifteen significant digits
  prints as when its magnitude needs no exponent.
\<close>

fun frac_digits :: "nat \<Rightarrow> nat \<Rightarrow> nat \<Rightarrow> string" where
  "frac_digits 0 r d = []"
| "frac_digits (Suc fuel) r d =
     (if r = 0 then [] else digit_char (10 * r div d) # frac_digits fuel (10 * r mod d) d)"

definition num_str :: "rat \<Rightarrow> string" where
  "num_str q =
     (case quotient_of \<bar>q\<bar> of
        (n, d) \<Rightarrow>
          (if q < 0 then ''-'' else []) @ show_nat (nat n div nat d) @
          (if nat n mod nat d = 0 then []
           else ''.'' @ frac_digits 17 (nat n mod nat d) (nat d)))"

fun to_str :: "jsv \<Rightarrow> string" where
  "to_str JUndef = ''undefined''"
| "to_str JNull = ''null''"
| "to_str (JBool b) = (if b then ''true'' else ''false'')"
| "to_str (JNum q) = num_str q"
| "to_str (JStr s) = s"
| "to_str (JArr xs) =
     js_join '','' (map (\<lambda>x. if x = JUndef \<or> x = JNull then [] else to_str x) xs)"
| "to_str (JObj m) = ''[object Object]''"
| "to_str (JBuf b) = ''[object ArrayBuffer]''"

lemma num_str_of_nat [js_simps]: "num_str (of_nat n) = show_nat n"
  by (simp add: num_str_def)

end
