(* ===== verification/JsSet.thy ===== *)
theory JsSet
  imports JsValue
begin

text \<open>
  JavaScript's \<open>Set\<close> of strings as the list of its elements in insertion order, its
  contract as a locale over the mathematical set it stands for, and the toggle idiom the
  sidebar and the context menu share.
\<close>

section \<open>Sets in insertion order\<close>

definition set_has :: "'a list \<Rightarrow> 'a \<Rightarrow> bool" where
  "set_has s x \<longleftrightarrow> x \<in> set s"

definition set_add :: "'a \<Rightarrow> 'a list \<Rightarrow> 'a list" where
  "set_add x s = (if set_has s x then s else s @ [x])"

definition set_delete :: "'a \<Rightarrow> 'a list \<Rightarrow> 'a list" where
  "set_delete x s = removeAll x s"

definition new_set :: "'a list \<Rightarrow> 'a list" where
  "new_set xs = foldl (\<lambda>s x. set_add x s) [] xs"

text \<open>
  The idiom \<open>const s = new Set(prev); if (s.has(x)) s.delete(x) else s.add(x)\<close>, over any
  implementation of the three operations.
\<close>

definition toggle_with ::
    "('s \<Rightarrow> 'a \<Rightarrow> bool) \<Rightarrow> ('a \<Rightarrow> 's \<Rightarrow> 's) \<Rightarrow> ('a \<Rightarrow> 's \<Rightarrow> 's) \<Rightarrow> 'a \<Rightarrow> 's \<Rightarrow> 's" where
  "toggle_with has add delete x s = (if has s x then delete x s else add x s)"

definition set_toggle :: "'a \<Rightarrow> 'a list \<Rightarrow> 'a list" where
  "set_toggle x s = toggle_with set_has set_add set_delete x s"

section \<open>The contract\<close>

locale js_set =
  fixes empty :: "'s"
    and has :: "'s \<Rightarrow> 'a \<Rightarrow> bool"
    and add :: "'a \<Rightarrow> 's \<Rightarrow> 's"
    and delete :: "'a \<Rightarrow> 's \<Rightarrow> 's"
    and size_of :: "'s \<Rightarrow> nat"
    and elems :: "'s \<Rightarrow> 'a set"
    and wf :: "'s \<Rightarrow> bool"
  assumes elems_empty: "elems empty = {}"
    and has_elems: "has s x \<longleftrightarrow> x \<in> elems s"
    and elems_add: "elems (add x s) = insert x (elems s)"
    and elems_delete: "elems (delete x s) = elems s - {x}"
    and size_card: "wf s \<Longrightarrow> size_of s = card (elems s)"
    and finite_elems: "finite (elems s)"
    and wf_empty: "wf empty"
    and wf_add: "wf s \<Longrightarrow> wf (add x s)"
    and wf_delete: "wf s \<Longrightarrow> wf (delete x s)"
begin

lemma elems_toggle:
  "elems (toggle_with has add delete x s) =
     (if x \<in> elems s then elems s - {x} else insert x (elems s))"
  by (simp add: toggle_with_def has_elems elems_add elems_delete)

lemma toggle_toggle:
  "elems (toggle_with has add delete x (toggle_with has add delete x s)) = elems s"
  by (auto simp: elems_toggle)

lemma toggle_other:
  "y \<noteq> x \<Longrightarrow> y \<in> elems (toggle_with has add delete x s) \<longleftrightarrow> y \<in> elems s"
  by (auto simp: elems_toggle)

lemma wf_toggle: "wf s \<Longrightarrow> wf (toggle_with has add delete x s)"
  by (simp add: toggle_with_def wf_add wf_delete)

lemma elems_fold_add: "elems (foldl (\<lambda>s x. add x s) s xs) = elems s \<union> set xs"
  by (induction xs arbitrary: s) (auto simp: elems_add)

lemma wf_fold_add: "wf s \<Longrightarrow> wf (foldl (\<lambda>s x. add x s) s xs)"
  by (induction xs arbitrary: s) (auto simp: wf_add)

text \<open>
  A subset of a finite set with as many elements is the whole set: the test
  \<open>selected.size === all.length\<close> then decides whether everything is selected.
\<close>

lemma size_eq_iff:
  "wf s \<Longrightarrow> elems s \<subseteq> A \<Longrightarrow> finite A \<Longrightarrow> size_of s = card A \<longleftrightarrow> elems s = A"
  by (auto simp: size_card dest: card_subset_eq)

end

interpretation lset: js_set "[]" set_has set_add set_delete length set distinct
  by unfold_locales
    (auto simp: set_has_def set_add_def set_delete_def distinct_card [symmetric] distinct_removeAll)

lemmas set_elems [obj_simps] = lset.elems_add lset.elems_delete lset.has_elems

lemma set_new_set [obj_simps]: "set (new_set xs) = set xs"
  using lset.elems_fold_add [of "[]" xs] by (simp add: new_set_def)

lemma distinct_new_set [obj_simps]: "distinct (new_set xs)"
  using lset.wf_fold_add [of "[]" xs] by (simp add: new_set_def)

lemma new_set_fold: "distinct (s @ xs) \<Longrightarrow> foldl (\<lambda>s x. set_add x s) s xs = s @ xs"
  by (induction xs arbitrary: s) (auto simp: set_add_def set_has_def)

lemma new_set_distinct: "distinct xs \<Longrightarrow> new_set xs = xs"
  using new_set_fold [of "[]" xs] by (simp add: new_set_def)

lemma set_set_toggle [obj_simps]:
  "set (set_toggle x s) = (if x \<in> set s then set s - {x} else insert x (set s))"
  by (simp add: set_toggle_def lset.elems_toggle)

lemma distinct_set_toggle [obj_simps]: "distinct s \<Longrightarrow> distinct (set_toggle x s)"
  by (simp add: set_toggle_def lset.wf_toggle)

lemma length_new_set: "length (new_set xs) = card (set xs)"
  using lset.size_card [of "new_set xs"] by (simp add: obj_simps)

end
