(* ===== verification/OnlineFilter.thy ===== *)
theory OnlineFilter
  imports JsSet
begin

text \<open>
  \<open>hooks/useOnlineFilter.ts\<close>: the test whether a node is online, the filters built on it,
  and the targets reachable from the selected hosts. The memo hooks of React recompute
  these values whenever an argument changes, so each is a function of its arguments.
\<close>

record node =
  n_id :: string
  n_label :: string
  n_fill :: string
  n_size :: nat
  n_data :: jsv \<comment> \<open>\<open>JUndef\<close> when the node has no data\<close>

record edge =
  e_id :: string
  e_source :: string
  e_target :: string

definition find_node :: "node list \<Rightarrow> string \<Rightarrow> node option" where
  "find_node nodes i = List.find (\<lambda>n. n_id n = i) nodes"

definition isOnline :: "node list \<Rightarrow> string \<Rightarrow> bool" where
  "isOnline nodes nodeId =
     (case find_node nodes nodeId of
        None \<Rightarrow> True
      | Some n \<Rightarrow> js_opt_prop (n_data n) ''Online'' \<noteq> JBool False)"

definition filterOnline :: "node list \<Rightarrow> string list \<Rightarrow> string list" where
  "filterOnline nodes ids = filter (isOnline nodes) ids"

definition getOnlineFromSet :: "node list \<Rightarrow> string list \<Rightarrow> string list" where
  "getOnlineFromSet nodes selectedSet = filterOnline nodes selectedSet"

definition targetNodes :: "node list \<Rightarrow> string list \<Rightarrow> string list" where
  "targetNodes nodes hosts = filter (\<lambda>i. i \<notin> set hosts) (map n_id nodes)"

definition has_edge :: "edge list \<Rightarrow> string \<Rightarrow> string \<Rightarrow> bool" where
  "has_edge edges a b \<longleftrightarrow> list_ex (\<lambda>e. e_source e = a \<and> e_target e = b) edges"

definition reachableTargetsBase ::
    "node list \<Rightarrow> string list \<Rightarrow> edge list \<Rightarrow> string list \<Rightarrow> string list" where
  "reachableTargetsBase nodes hosts edges selectedHosts =
     (if length selectedHosts = 0 then []
      else filter (\<lambda>t. list_ex (\<lambda>h. has_edge edges h t) selectedHosts)
             (targetNodes nodes hosts))"

definition reachableTargets ::
    "node list \<Rightarrow> string list \<Rightarrow> edge list \<Rightarrow> string list \<Rightarrow> bool \<Rightarrow> string list" where
  "reachableTargets nodes hosts edges selectedHosts hideOfflinePeers =
     (if \<not> hideOfflinePeers then reachableTargetsBase nodes hosts edges selectedHosts
      else filter (isOnline nodes) (reachableTargetsBase nodes hosts edges selectedHosts))"

section \<open>What the filters compute\<close>

lemma set_filterOnline [obj_simps]:
  "set (filterOnline nodes ids) = {i \<in> set ids. isOnline nodes i}"
  by (simp add: filterOnline_def)

lemma distinct_filterOnline [obj_simps]: "distinct ids \<Longrightarrow> distinct (filterOnline nodes ids)"
  by (simp add: filterOnline_def)

lemma set_targetNodes [obj_simps]:
  "set (targetNodes nodes hosts) = n_id ` set nodes - set hosts"
  by (auto simp: targetNodes_def)

lemma has_edge_iff [obj_simps]:
  "has_edge edges a b \<longleftrightarrow> (\<exists>e \<in> set edges. e_source e = a \<and> e_target e = b)"
  by (auto simp: has_edge_def list_ex_iff)

lemma set_reachableTargets [obj_simps]:
  "set (reachableTargets nodes hosts edges sel hide) =
     {t \<in> n_id ` set nodes - set hosts.
        (\<exists>h \<in> set sel. has_edge edges h t) \<and> (hide \<longrightarrow> isOnline nodes t)}"
  by (auto simp: reachableTargets_def reachableTargetsBase_def set_targetNodes list_ex_iff)

lemma distinct_reachableTargets [obj_simps]:
  "distinct (map n_id nodes) \<Longrightarrow> distinct (reachableTargets nodes hosts edges sel hide)"
  by (auto simp: reachableTargets_def reachableTargetsBase_def targetNodes_def)

lemma find_node_distinct:
  "distinct (map n_id nodes) \<Longrightarrow> n \<in> set nodes \<Longrightarrow> find_node nodes (n_id n) = Some n"
  by (induction nodes) (auto simp: find_node_def)

lemma isOnline_unknown: "i \<notin> n_id ` set nodes \<Longrightarrow> isOnline nodes i"
  by (auto simp: isOnline_def find_node_def find_Some_iff split: option.splits)

lemma reachable_mono:
  "set sel \<subseteq> set sel' \<Longrightarrow>
     set (reachableTargets nodes hosts edges sel hide)
     \<subseteq> set (reachableTargets nodes hosts edges sel' hide)"
  by (auto simp: set_reachableTargets)

end
