(* ===== verification/Api.thy ===== *)
theory Api
  imports JsValue
begin

text \<open>
  \<open>api.ts\<close>: the requests the client sends, the reading of the responses, and the
  WebSocket URLs. The network is a parameter: \<open>net\<close> maps a request to what \<open>fetch\<close>
  does with it (rejects, or resolves to a response). A body that is not JSON is the
  rejection of \<open>response.json()\<close>.
\<close>

section \<open>Requests and responses\<close>

record page_env =
  env_prod :: bool
  env_protocol :: string \<comment> \<open>\<open>window.location.protocol\<close>, with its colon\<close>
  env_host :: string
  env_hostname :: string

record request =
  rq_method :: string
  rq_url :: string
  rq_headers :: "(string \<times> string) list"
  rq_body :: "jsv option" \<comment> \<open>the argument of \<open>JSON.stringify\<close>\<close>

record response =
  rsp_status :: nat
  rsp_json :: "jsv js_result"
  rsp_bytes :: string

datatype fetch_outcome = Rejected exn | Responded response

type_synonym network = "request \<Rightarrow> fetch_outcome"

definition rsp_ok :: "response \<Rightarrow> bool" where
  "rsp_ok r \<longleftrightarrow> 200 \<le> rsp_status r \<and> rsp_status r \<le> 299"

definition getApiBaseUrl :: "page_env \<Rightarrow> string" where
  "getApiBaseUrl env =
     (if env_prod env then env_protocol env @ ''//'' @ env_host env
      else env_protocol env @ ''//'' @ env_hostname env @ '':3621'')"

definition http_error :: "nat \<Rightarrow> exn" where
  "http_error st = Error (''HTTP error! status: '' @ show_nat st)"

definition json_headers :: "(string \<times> string) list" where
  "json_headers = [(''Content-Type'', ''application/json'')]"

definition js_strings :: "string list \<Rightarrow> jsv" where
  "js_strings xs = JArr (map JStr xs)"

section \<open>The API functions\<close>

definition fetchHostData_request :: "page_env \<Rightarrow> string \<Rightarrow> string list \<Rightarrow> request" where
  "fetchHostData_request env endpoint hosts =
     \<lparr>rq_method = ''POST'', rq_url = getApiBaseUrl env @ ''/api/'' @ endpoint,
      rq_headers = json_headers, rq_body = Some (JObj [(''hosts'', js_strings hosts)])\<rparr>"

definition read_ok_json :: "fetch_outcome \<Rightarrow> jsv js_result" where
  "read_ok_json out =
     (case out of
        Rejected e \<Rightarrow> Inl e
      | Responded r \<Rightarrow> if rsp_ok r then rsp_json r else Inl (http_error (rsp_status r)))"

definition fetchHostData :: "page_env \<Rightarrow> network \<Rightarrow> string \<Rightarrow> string list \<Rightarrow> jsv js_result" where
  "fetchHostData env net endpoint hosts =
     read_ok_json (net (fetchHostData_request env endpoint hosts))"

definition fetchPeermap :: "page_env \<Rightarrow> network \<Rightarrow> jsv js_result" where
  "fetchPeermap env net =
     read_ok_json (net \<lparr>rq_method = ''GET'', rq_url = getApiBaseUrl env @ ''/api/PeerMap'',
       rq_headers = [(''Accept'', ''application/json'')], rq_body = None\<rparr>)"

definition api_fetchStatus :: "page_env \<Rightarrow> network \<Rightarrow> string list \<Rightarrow> jsv js_result" where
  "api_fetchStatus env net hosts = fetchHostData env net ''Status'' hosts"

definition api_fetchPrefs :: "page_env \<Rightarrow> network \<Rightarrow> string list \<Rightarrow> jsv js_result" where
  "api_fetchPrefs env net hosts = fetchHostData env net ''Prefs'' hosts"

definition api_fetchServeConfig :: "page_env \<Rightarrow> network \<Rightarrow> string list \<Rightarrow> jsv js_result" where
  "api_fetchServeConfig env net hosts = fetchHostData env net ''ServeConfig'' hosts"

definition api_fetchDNSConfig :: "page_env \<Rightarrow> network \<Rightarrow> string list \<Rightarrow> jsv js_result" where
  "api_fetchDNSConfig env net hosts = fetchHostData env net ''DNSConfig'' hosts"

definition api_fetchDriveShares :: "page_env \<Rightarrow> network \<Rightarrow> string list \<Rightarrow> jsv js_result" where
  "api_fetchDriveShares env net hosts = fetchHostData env net ''DriveShares'' hosts"

definition api_fetchAppConnRoutes :: "page_env \<Rightarrow> network \<Rightarrow> string list \<Rightarrow> jsv js_result" where
  "api_fetchAppConnRoutes env net hosts = fetchHostData env net ''AppConnRoutes'' hosts"

definition api_fetchGoroutines :: "page_env \<Rightarrow> network \<Rightarrow> string list \<Rightarrow> jsv js_result" where
  "api_fetchGoroutines env net hosts = fetchHostData env net ''Goroutines'' hosts"

record ping_input =
  pi_count :: int
  pi_pingType :: string
  pi_delay :: string
  pi_args :: "(string \<times> string list) list" \<comment> \<open>host and its targets\<close>

definition ping_input_json :: "ping_input \<Rightarrow> jsv" where
  "ping_input_json p =
     JObj [(''count'', JNum (of_int (pi_count p))), (''pingType'', JStr (pi_pingType p)),
           (''delay'', JStr (pi_delay p)),
           (''args'', JArr (map (\<lambda>(h, ts). JObj [(''host'', JStr h), (''targets'', js_strings ts)])
              (pi_args p)))]"

definition executePing :: "page_env \<Rightarrow> network \<Rightarrow> ping_input \<Rightarrow> jsv js_result" where
  "executePing env net input =
     read_ok_json (net \<lparr>rq_method = ''POST'', rq_url = getApiBaseUrl env @ ''/api/Ping'',
       rq_headers = json_headers, rq_body = Some (ping_input_json input)\<rparr>)"

record dns_input =
  di_hosts :: "string list"
  di_name :: string
  di_queryType :: string

definition dns_request :: "page_env \<Rightarrow> dns_input \<Rightarrow> request" where
  "dns_request env input =
     \<lparr>rq_method = ''POST'', rq_url = getApiBaseUrl env @ ''/api/QueryDNS'',
      rq_headers = json_headers,
      rq_body = Some (JObj [(''hosts'', js_strings (di_hosts input)),
        (''name'', JStr (di_name input)), (''queryType'', JStr (di_queryType input))])\<rparr>"

text \<open>
  The body of the \<open>try\<close> block for a status 400: an error field is wrapped per host, an
  array is returned as it is; anything else, and any exception, falls through to the throw.
\<close>

definition dns_validation_results :: "dns_input \<Rightarrow> response \<Rightarrow> jsv option" where
  "dns_validation_results input r =
     (case exn_bind (rsp_json r) (\<lambda>errorData.
             exn_bind (js_prop errorData ''error'') (\<lambda>err. Inr (errorData, err))) of
        Inl _ \<Rightarrow> None
      | Inr (errorData, err) \<Rightarrow>
          if truthy err
          then Some (JArr (map (\<lambda>host. JObj [(''host'', JStr host), (''error'', err)])
                 (di_hosts input)))
          else if is_array errorData then Some errorData
          else None)"

definition executeQueryDNS :: "page_env \<Rightarrow> network \<Rightarrow> dns_input \<Rightarrow> jsv js_result" where
  "executeQueryDNS env net input =
     (case net (dns_request env input) of
        Rejected e \<Rightarrow> Inl e
      | Responded r \<Rightarrow>
          if rsp_status r = 400 then
            (case dns_validation_results input r of
               Some v \<Rightarrow> Inr v
             | None \<Rightarrow> Inl (http_error (rsp_status r)))
          else if \<not> rsp_ok r then Inl (http_error (rsp_status r))
          else rsp_json r)"

record pprof_input =
  pp_hosts :: "string list"
  pp_type :: string
  pp_seconds :: "int option"

definition pprof_input_json :: "pprof_input \<Rightarrow> jsv" where
  "pprof_input_json p =
     JObj ([(''hosts'', js_strings (pp_hosts p)), (''type'', JStr (pp_type p))]
           @ (case pp_seconds p of None \<Rightarrow> [] | Some n \<Rightarrow> [(''seconds'', JNum (of_int n))]))"

definition executePprof :: "page_env \<Rightarrow> network \<Rightarrow> pprof_input \<Rightarrow> response js_result" where
  "executePprof env net input =
     (case net \<lparr>rq_method = ''POST'', rq_url = getApiBaseUrl env @ ''/api/Pprof'',
            rq_headers = json_headers, rq_body = Some (pprof_input_json input)\<rparr> of
        Rejected e \<Rightarrow> Inl e
      | Responded r \<Rightarrow> if \<not> rsp_ok r then Inl (http_error (rsp_status r)) else Inr r)"

definition fetchPprofFile :: "page_env \<Rightarrow> network \<Rightarrow> string \<Rightarrow> string js_result" where
  "fetchPprofFile env net hostId =
     (case net \<lparr>rq_method = ''GET'',
            rq_url = getApiBaseUrl env @ ''/static/pprof/'' @ hostId @ ''.pprof'',
            rq_headers = [], rq_body = None\<rparr> of
        Rejected e \<Rightarrow> Inl e
      | Responded r \<Rightarrow>
          if \<not> rsp_ok r
          then Inl (Error (''Failed to fetch pprof file: HTTP '' @ show_nat (rsp_status r)))
          else Inr (rsp_bytes r))"

lemma read_ok_json_cases:
  "read_ok_json out = Inr v \<longleftrightarrow> (\<exists>r. out = Responded r \<and> rsp_ok r \<and> rsp_json r = Inr v)"
  by (auto simp: read_ok_json_def split: fetch_outcome.splits if_splits)

lemma executePprof_ok: "executePprof env net input = Inr r \<Longrightarrow> rsp_ok r"
  by (auto simp: executePprof_def split: fetch_outcome.splits if_splits)

end
