(* ===== verification/StreamFormat.thy ===== *)
theory StreamFormat
  imports JsValue StreamUrl
begin

text \<open>
  The message formatters of \<open>hooks/useWebSocketLogs.ts\<close> and the fixed texts of the two
  streams. \<open>JSON.parse\<close> (\<open>parse\<close>) and the locale dependent rendering of a time stamp
  (\<open>fmt_time\<close>) are parameters.
\<close>

type_synonym json_parser = "string \<Rightarrow> jsv js_result"
type_synonym time_format = "jsv \<Rightarrow> string"

definition nl :: string where
  "nl = [CHR 0x0A]"

text \<open>A thrown error inside the \<open>try\<close> block is the result \<open>null\<close>, here \<open>None\<close>.\<close>

definition formatLogMessage :: "json_parser \<Rightarrow> time_format \<Rightarrow> string \<Rightarrow> string option" where
  "formatLogMessage parse fmt_time decodedMessage =
     (case exn_bind (parse decodedMessage) (\<lambda>logEntry.
             exn_bind (js_prop logEntry ''text'') (\<lambda>t.
             exn_bind (js_prop logEntry ''logtail'') (\<lambda>logtail.
               let text = to_str (js_or t (JStr [])) in
               if truthy logtail \<and> truthy (js_opt_prop logtail ''client_time'')
               then Inr (''['' @ fmt_time (js_opt_prop logtail ''client_time'') @ ''] '' @ text)
               else Inr text))) of
        Inl _ \<Rightarrow> None
      | Inr line \<Rightarrow> Some line)"

text \<open>\<open>Array.prototype.join\<close> on values.\<close>

definition js_array_join :: "string \<Rightarrow> jsv list \<Rightarrow> string" where
  "js_array_join sep xs =
     js_join sep (map (\<lambda>x. if x = JUndef \<or> x = JNull then [] else to_str x) xs)"

definition bus_event_line :: "jsv \<Rightarrow> jsv \<Rightarrow> jsv \<Rightarrow> jsv \<Rightarrow> string" where
  "bus_event_line ecount etype efrom eto =
     (let count = (if ecount \<noteq> JUndef then ''['' @ to_str ecount @ ''] '' else []);
          type = js_or etype (JStr ''unknown'');
          from = js_or efrom (JStr []);
          to = (case eto of JArr xs \<Rightarrow> JStr (js_array_join '', '' xs) | _ \<Rightarrow> js_or eto (JStr []));
          line = count @ to_str type
      in if truthy from \<or> truthy to
         then line @ '': '' @ to_str from
              @ (if truthy to then '' -> ['' @ to_str to @ '']'' else [])
         else line)"

definition formatBusEventMessage :: "json_parser \<Rightarrow> string \<Rightarrow> string option" where
  "formatBusEventMessage parse decodedMessage =
     (case exn_bind (parse decodedMessage) (\<lambda>event.
             exn_bind (js_prop event ''Count'') (\<lambda>ecount.
             exn_bind (js_prop event ''Type'') (\<lambda>etype.
             exn_bind (js_prop event ''From'') (\<lambda>efrom.
             exn_bind (js_prop event ''To'') (\<lambda>eto.
               Inr (bus_event_line ecount etype efrom eto @ nl)))))) of
        Inl _ \<Rightarrow> Some (decodedMessage @ nl)
      | Inr line \<Rightarrow> Some line)"

fun getMessageFormatter ::
    "json_parser \<Rightarrow> time_format \<Rightarrow> stream_type \<Rightarrow> string \<Rightarrow> string option" where
  "getMessageFormatter parse fmt_time Logs = formatLogMessage parse fmt_time"
| "getMessageFormatter parse fmt_time BusEvents = formatBusEventMessage parse"

fun getDisconnectMessage :: "stream_type \<Rightarrow> string" where
  "getDisconnectMessage Logs = nl @ ''[logtap disconnected]''"
| "getDisconnectMessage BusEvents = nl @ ''[bus events disconnected]''"

fun getConnectingMessage :: "stream_type \<Rightarrow> string" where
  "getConnectingMessage Logs = ''Connecting to log stream...'' @ nl"
| "getConnectingMessage BusEvents = ''Connecting to bus events stream...'' @ nl"

definition connection_timeout_message :: string where
  "connection_timeout_message = nl @ ''[connection timeout]''"

lemma formatBusEventMessage_total: "\<exists>line. formatBusEventMessage parse m = Some (line @ nl)"
  by (auto simp: formatBusEventMessage_def exn_bind_def split: sum.splits)

lemma formatLogMessage_None:
  "formatLogMessage parse fmt m = None \<longleftrightarrow>
     (\<forall>v. parse m = Inr v \<longrightarrow> v = JUndef \<or> v = JNull)"
proof (cases "parse m")
  case (Inr v)
  then show ?thesis
    by (cases v) (auto simp: formatLogMessage_def Let_def)
qed (simp add: formatLogMessage_def)

end
