(* ===== verification/Base64.thy ===== *)
theory Base64
  imports JsPrelude
begin

text \<open>
  \<open>atob\<close>, the forgiving base64 decoder of the browsers, and the standard padded encoder
  with which the server marshals byte slices. The decoder undoes the encoder.
\<close>

definition b64_val :: "char \<Rightarrow> nat option" where
  "b64_val c =
     (let n = code_of c in
      if 65 \<le> n \<and> n \<le> 90 then Some (n - 65)
      else if 97 \<le> n \<and> n \<le> 122 then Some (n - 71)
      else if 48 \<le> n \<and> n \<le> 57 then Some (n + 4)
      else if n = 43 then Some 62
      else if n = 47 then Some 63
      else None)"

definition b64_char :: "nat \<Rightarrow> char" where
  "b64_char v =
     (if v < 26 then char_of (v + 65)
      else if v < 52 then char_of (v + 71)
      else if v < 62 then char_of (v - 4)
      else if v = 62 then CHR ''+'' else CHR ''/'')"

definition ascii_space :: "char \<Rightarrow> bool" where
  "ascii_space c \<longleftrightarrow> code_of c \<in> {9, 10, 12, 13, 32}"

fun b64_groups :: "nat list \<Rightarrow> string" where
  "b64_groups (a # b # c # d # vs) =
     char_of (4 * a + b div 16) # char_of (16 * (b mod 16) + c div 4)
     # char_of (64 * (c mod 4) + d) # b64_groups vs"
| "b64_groups [a, b, c] = [char_of (4 * a + b div 16), char_of (16 * (b mod 16) + c div 4)]"
| "b64_groups [a, b] = [char_of (4 * a + b div 16)]"
| "b64_groups _ = []"

definition strip_padding :: "string \<Rightarrow> string" where
  "strip_padding s =
     (if length s mod 4 \<noteq> 0 then s
      else case rev s of
             a # b # r \<Rightarrow>
               if a = CHR ''='' \<and> b = CHR ''='' then rev r
               else if a = CHR ''='' then rev (b # r) else s
           | _ \<Rightarrow> s)"

definition atob :: "string \<Rightarrow> string option" where
  "atob s =
     (let t = strip_padding (filter (\<lambda>c. \<not> ascii_space c) s)
      in if length t mod 4 = 1 \<or> list_ex (\<lambda>c. b64_val c = None) t then None
         else Some (b64_groups (map (\<lambda>c. the (b64_val c)) t)))"

fun b64_encode :: "string \<Rightarrow> string" where
  "b64_encode (x # y # z # s) =
     (let a = code_of x; b = code_of y; c = code_of z in
      b64_char (a div 4) # b64_char (16 * (a mod 4) + b div 16)
      # b64_char (4 * (b mod 16) + c div 64) # b64_char (c mod 64) # b64_encode s)"
| "b64_encode [x, y] =
     (let a = code_of x; b = code_of y in
      [b64_char (a div 4), b64_char (16 * (a mod 4) + b div 16), b64_char (4 * (b mod 16)), CHR ''=''])"
| "b64_encode [x] =
     (let a = code_of x in [b64_char (a div 4), b64_char (16 * (a mod 4)), CHR ''='', CHR ''=''])"
| "b64_encode [] = []"

text \<open>The encoding before padding, as values: the link between the two directions.\<close>

fun b64_values :: "string \<Rightarrow> nat list" where
  "b64_values (x # y # z # s) =
     (let a = code_of x; b = code_of y; c = code_of z in
      (a div 4) # (16 * (a mod 4) + b div 16) # (4 * (b mod 16) + c div 64) # (c mod 64) # b64_values s)"
| "b64_values [x, y] =
     (let a = code_of x; b = code_of y in [a div 4, 16 * (a mod 4) + b div 16, 4 * (b mod 16)])"
| "b64_values [x] = (let a = code_of x in [a div 4, 16 * (a mod 4)])"
| "b64_values [] = []"

fun b64_padding :: "string \<Rightarrow> string" where
  "b64_padding (x # y # z # s) = b64_padding s"
| "b64_padding [x, y] = ''=''"
| "b64_padding [x] = ''==''"
| "b64_padding [] = []"

lemma b64_val_char: "v < 64 \<Longrightarrow> b64_val (b64_char v) = Some v"
  by (auto simp: b64_val_def b64_char_def code_of_def Let_def)

lemma b64_char_plain: "v < 64 \<Longrightarrow> \<not> ascii_space (b64_char v) \<and> b64_char v \<noteq> CHR ''=''"
  using b64_val_char [of v] by (auto simp: ascii_space_def b64_val_def code_of_def Let_def)

lemma b64_values_bound: "\<forall>v \<in> set (b64_values s). v < 64"
proof (induction s rule: b64_values.induct)
  case (1 x y z s)
  have "code_of x div 4 < 64" "16 * (code_of x mod 4) + code_of y div 16 < 64"
    "4 * (code_of y mod 16) + code_of z div 64 < 64" "code_of z mod 64 < 64"
    using code_of_bound [of x] code_of_bound [of y] code_of_bound [of z] by linarith+
  with 1 show ?case by (auto simp: Let_def)
next
  case (2 x y)
  have "code_of x div 4 < 64" "16 * (code_of x mod 4) + code_of y div 16 < 64"
    "4 * (code_of y mod 16) < 64"
    using code_of_bound [of x] code_of_bound [of y] by linarith+
  then show ?case by (auto simp: Let_def)
next
  case (3 x)
  have "code_of x div 4 < 64" "16 * (code_of x mod 4) < 64"
    using code_of_bound [of x] by linarith+
  then show ?case by (auto simp: Let_def)
qed simp

lemma b64_encode_values: "b64_encode s = map b64_char (b64_values s) @ b64_padding s"
  by (induction s rule: b64_encode.induct) (auto simp: Let_def)

text \<open>A quotient and a remainder packed in one number are read back.\<close>

lemma packed: "r < k \<Longrightarrow> (k * m + r) div k = m \<and> (k * m + r) mod k = (r::nat)"
  by simp

lemma sextet1: "b < 256 \<Longrightarrow> 4 * (a div 4) + (16 * (a mod 4) + b div 16) div 16 = (a::nat)"
  using packed [of "b div 16" 16 "a mod 4"] by (simp add: less_mult_imp_div_less)

lemma sextet2:
  "b < 256 \<Longrightarrow> c < 256 \<Longrightarrow>
     16 * ((16 * (a mod 4) + b div 16) mod 16) + (4 * (b mod 16) + c div 64) div 4 = (b::nat)"
  using packed [of "b div 16" 16 "a mod 4"] packed [of "c div 64" 4 "b mod 16"]
  by (simp add: less_mult_imp_div_less)

lemma sextet3: "c < 256 \<Longrightarrow> 64 * ((4 * m + c div 64) mod 4) + c mod 64 = (c::nat)"
  using packed [of "c div 64" 4 m] by (simp add: less_mult_imp_div_less)

lemma b64_groups_values: "b64_groups (b64_values s) = s"
proof (induction s rule: b64_values.induct)
  case (1 x y z s)
  note sextets = sextet1 [OF code_of_bound] sextet2 [OF code_of_bound code_of_bound]
    sextet3 [OF code_of_bound]
  have "b64_groups (b64_values s) = s" using 1 by simp
  then show ?case
    by (simp only: b64_values.simps Let_def b64_groups.simps sextets char_of_code_of)
next
  case (2 x y)
  have "16 * ((16 * (code_of x mod 4) + code_of y div 16) mod 16) + 4 * (code_of y mod 16) div 4
      = code_of y"
    using sextet2 [of "code_of y" 0 "code_of x"] code_of_bound [of y] by simp
  then show ?case
    using sextet1 [of "code_of y" "code_of x"] code_of_bound [of y] by (simp add: Let_def)
next
  case (3 x)
  then show ?case using sextet1 [of 0 "code_of x"] by (simp add: Let_def)
qed simp

lemma b64_padding_length: "(length (b64_values s) + length (b64_padding s)) mod 4 = 0"
  by (induction s rule: b64_values.induct) (auto simp: Let_def)

lemma b64_padding_cases:
  "b64_padding s = [] \<or> b64_padding s = ''='' \<or> b64_padding s = ''==''"
  by (induction s rule: b64_padding.induct) auto

lemma strip_padding_encoded:
  assumes "CHR ''='' \<notin> set t" and "(length t + length p) mod 4 = 0"
    and "p = [] \<or> p = ''='' \<or> p = ''==''"
  shows "strip_padding (t @ p) = t"
proof -
  have l: "length (t @ p) mod 4 = 0" using assms(2) by simp
  consider "p = []" | "p = ''=''" | "p = ''==''" using assms(3) by blast
  then show ?thesis
  proof cases
    case 1
    with assms(1) show ?thesis
      by (cases t rule: rev_cases) (auto simp: strip_padding_def split: list.splits)
  next
    case 2
    with l assms(1) show ?thesis
      by (cases t rule: rev_cases) (auto simp: strip_padding_def)
  next
    case 3
    with l assms(1) show ?thesis by (simp add: strip_padding_def)
  qed
qed

lemma atob_encode: "atob (b64_encode s) = Some s"
proof -
  let ?t = "map b64_char (b64_values s)"
  have plain: "\<not> ascii_space c \<and> c \<noteq> CHR ''=''" if "c \<in> set ?t" for c
    using that b64_values_bound b64_char_plain by auto
  have pad: "\<forall>c \<in> set (b64_padding s). \<not> ascii_space c"
    using b64_padding_cases [of s] by (auto simp: ascii_space_def code_of_def)
  have "filter (\<lambda>c. \<not> ascii_space c) (b64_encode s) = ?t @ b64_padding s"
    using plain pad by (simp add: b64_encode_values filter_id_conv)
  moreover have "strip_padding (?t @ b64_padding s) = ?t"
    using plain b64_padding_length [of s] b64_padding_cases [of s]
    by (intro strip_padding_encoded) auto
  moreover have "length ?t mod 4 \<noteq> 1"
    by (induction s rule: b64_values.induct) (auto simp: Let_def)
  moreover have "\<not> list_ex (\<lambda>c. b64_val c = None) ?t"
    using b64_values_bound [of s] by (auto simp: list_ex_iff b64_val_char)
  moreover have "map (\<lambda>c. the (b64_val c)) ?t = b64_values s"
    using b64_values_bound [of s] by (simp add: map_idI b64_val_char)
  ultimately show ?thesis by (simp add: atob_def b64_groups_values)
qed

end
