(* ===== verification/WebSocketStream.thy ===== *)
theory WebSocketStream
  imports StreamFormat Base64 JsSet
begin

text \<open>
  The state machine of \<open>useWebSocketStream\<close> (\<open>hooks/useWebSocketLogs.ts\<close>): the refs and
  React state of the hook, the sockets and interval timers of the browser it has created,
  one operation per callback, and the step relation that interleaves the user's calls with
  the browser's events. The callbacks write React state and read refs only, so writing the
  state at once is what the batched updates amount to.
\<close>

section \<open>Sockets and their life cycle\<close>

datatype ready_state = CONNECTING | OPEN | CLOSING | CLOSED

text \<open>\<open>WebSocket.readyState\<close> as the number the standard gives each state.\<close>

fun ready_code :: "ready_state \<Rightarrow> nat" where
  "ready_code CONNECTING = 0"
| "ready_code OPEN = 1"
| "ready_code CLOSING = 2"
| "ready_code CLOSED = 3"

lemma ready_code_inj: "ready_code a = ready_code b \<Longrightarrow> a = b"
  by (cases a; cases b) auto

text \<open>The order of the life cycle: a socket only moves up in it.\<close>

instantiation ready_state :: linorder
begin

definition less_eq_ready_state :: "ready_state \<Rightarrow> ready_state \<Rightarrow> bool" where
  "less_eq_ready_state a b \<longleftrightarrow> ready_code a \<le> ready_code b"

definition less_ready_state :: "ready_state \<Rightarrow> ready_state \<Rightarrow> bool" where
  "less_ready_state a b \<longleftrightarrow> ready_code a < ready_code b"

instance
  by standard (auto simp: less_eq_ready_state_def less_ready_state_def dest: ready_code_inj)

end

record socket =
  sk_ready :: ready_state
  sk_type :: stream_type \<comment> \<open>captured by the handlers\<close>
  sk_hosts :: "string list" \<comment> \<open>captured by the handlers\<close>
  sk_pings :: nat \<comment> \<open>pings sent on it\<close>

record stream_world =
  wsRef :: "nat option"
  hostIdsRef :: "string list"
  lastPongTime :: int
  pingIntervalRef :: "nat option"
  streamTypeRef :: "stream_type option"
  streamData :: "string jsobj"
  isStreaming :: bool
  activeStreamType :: "stream_type option"
  \<comment> \<open>the browser's side: sockets by creation order, live timers, next timer id\<close>
  sockets :: "socket list"
  timers :: "nat list"
  next_timer :: nat
  mounted :: bool

definition stream_init :: stream_world where
  "stream_init =
     \<lparr>wsRef = None, hostIdsRef = [], lastPongTime = 0, pingIntervalRef = None,
      streamTypeRef = None, streamData = [], isStreaming = False, activeStreamType = None,
      sockets = [], timers = [], next_timer = 1, mounted = True\<rparr>"

definition PING_INTERVAL :: int where "PING_INTERVAL = 5000"
definition PONG_TIMEOUT :: int where "PONG_TIMEOUT = 10000"

definition sock_state :: "stream_world \<Rightarrow> nat \<Rightarrow> ready_state" where
  "sock_state w i = (if i < length (sockets w) then sk_ready (sockets w ! i) else CLOSED)"

definition set_ready :: "nat \<Rightarrow> ready_state \<Rightarrow> stream_world \<Rightarrow> stream_world" where
  "set_ready i r w = w\<lparr>sockets := (sockets w)[i := (sockets w ! i)\<lparr>sk_ready := r\<rparr>]\<rparr>"

text \<open>\<open>ws.close()\<close>: a socket that is connecting or open starts closing.\<close>

definition sock_close :: "nat \<Rightarrow> stream_world \<Rightarrow> stream_world" where
  "sock_close i w = (if sock_state w i < CLOSING then set_ready i CLOSING w else w)"

definition clear_timer :: "nat option \<Rightarrow> stream_world \<Rightarrow> stream_world" where
  "clear_timer t w =
     (case t of None \<Rightarrow> w | Some i \<Rightarrow> w\<lparr>timers := removeAll i (timers w)\<rparr>)"

text \<open>\<open>prev => ({ ...prev, [hostId]: (prev[hostId] || '') + s })\<close>\<close>

definition append_to :: "string \<Rightarrow> string \<Rightarrow> string jsobj \<Rightarrow> string jsobj" where
  "append_to hostId s m =
     obj_set hostId ((case obj_get m hostId of None \<Rightarrow> [] | Some old \<Rightarrow> old) @ s) m"

definition append_all :: "string list \<Rightarrow> string \<Rightarrow> string jsobj \<Rightarrow> string jsobj" where
  "append_all hostIds s m = foldl (\<lambda>acc h. append_to h s acc) m hostIds"

definition fill_all :: "string list \<Rightarrow> string \<Rightarrow> string jsobj" where
  "fill_all hostIds s = foldl (\<lambda>acc h. obj_set h s acc) [] hostIds"

section \<open>The callbacks\<close>

definition ws_is_open :: "stream_world \<Rightarrow> bool" where
  "ws_is_open w = (case wsRef w of None \<Rightarrow> False | Some i \<Rightarrow> sock_state w i = OPEN)"

definition reset_refs :: "stream_world \<Rightarrow> stream_world" where
  "reset_refs w =
     w\<lparr>wsRef := None, hostIdsRef := [], streamTypeRef := None,
       isStreaming := False, activeStreamType := None\<rparr>"

definition cancelStreaming :: "bool \<Rightarrow> stream_world \<Rightarrow> stream_world" where
  "cancelStreaming appendDisconnectMessage w =
     (let w1 = (clear_timer (pingIntervalRef w) w)\<lparr>pingIntervalRef := None, lastPongTime := 0\<rparr>;
          w2 = (case streamTypeRef w1 of
                  Some ty \<Rightarrow>
                    if appendDisconnectMessage \<and> ws_is_open w1
                    then w1\<lparr>streamData :=
                           append_all (hostIdsRef w1) (getDisconnectMessage ty) (streamData w1)\<rparr>
                    else w1
                | None \<Rightarrow> w1);
          w3 = (case wsRef w2 of
                  Some i \<Rightarrow> if sock_state w2 i = OPEN then sock_close i w2 else w2
                | None \<Rightarrow> w2)
      in reset_refs w3)"

text \<open>
  \<open>startStream\<close>; \<open>ctor_ok\<close> says whether \<open>new WebSocket(url)\<close> returned. When it throws, the
  \<open>catch\<close> block only logs, and the interval is still started.
\<close>

definition startStream :: "stream_type \<Rightarrow> string list \<Rightarrow> bool \<Rightarrow> stream_world \<Rightarrow> stream_world" where
  "startStream streamType hostIds ctor_ok w =
     (let w1 = cancelStreaming False w in
      if length hostIds = 0 then w1
      else
        let w2 = w1\<lparr>isStreaming := True, activeStreamType := Some streamType,
                    hostIdsRef := hostIds, streamTypeRef := Some streamType,
                    streamData := fill_all hostIds (getConnectingMessage streamType)\<rparr>;
            w3 = (if ctor_ok
                  then w2\<lparr>wsRef := Some (length (sockets w2)),
                          sockets := sockets w2 @
                            [\<lparr>sk_ready = CONNECTING, sk_type = streamType,
                              sk_hosts = hostIds, sk_pings = 0\<rparr>]\<rparr>
                  else w2)
        in w3\<lparr>pingIntervalRef := Some (next_timer w3),
              timers := next_timer w3 # timers w3,
              next_timer := Suc (next_timer w3)\<rparr>)"

text \<open>\<open>startLogStream\<close> of the legacy wrapper \<open>useWebSocketLogs\<close>, which only renames the fields.\<close>

definition startLogStream :: "string list \<Rightarrow> bool \<Rightarrow> stream_world \<Rightarrow> stream_world" where
  "startLogStream hostIds ctor_ok = startStream Logs hostIds ctor_ok"

definition ws_onopen :: "nat \<Rightarrow> stream_world \<Rightarrow> stream_world" where
  "ws_onopen i w =
     (set_ready i OPEN w)\<lparr>streamData := fill_all (sk_hosts (sockets w ! i)) []\<rparr>"

text \<open>
  What a text frame means to \<open>onmessage\<close>: a keep-alive answer, text for a host, or nothing
  (the frame could not be read, or the formatter returned \<open>null\<close>).
\<close>

datatype frame = Pong | Text string string | Ignored

definition read_frame ::
    "json_parser \<Rightarrow> time_format \<Rightarrow> stream_type \<Rightarrow> string \<Rightarrow> frame" where
  "read_frame parse fmt_time ty data =
     (if data = ''pong'' then Pong
      else case exn_bind (parse data) (\<lambda>wsMessage.
                  exn_bind (js_prop wsMessage ''Host'') (\<lambda>hostId.
                  exn_bind (js_prop wsMessage ''Message'') (\<lambda>enc. Inr (to_str hostId, to_str enc)))) of
             Inl _ \<Rightarrow> Ignored
           | Inr (hostId, encodedMessage) \<Rightarrow>
               (case atob encodedMessage of
                  None \<Rightarrow> Ignored
                | Some decodedMessage \<Rightarrow>
                    if decodedMessage = ''websocket closed''
                    then Text hostId (getDisconnectMessage ty)
                    else case getMessageFormatter parse fmt_time ty decodedMessage of
                           None \<Rightarrow> Ignored
                         | Some line \<Rightarrow> Text hostId line))"

definition apply_frame :: "int \<Rightarrow> frame \<Rightarrow> stream_world \<Rightarrow> stream_world" where
  "apply_frame now f w =
     (case f of
        Pong \<Rightarrow> w\<lparr>lastPongTime := now\<rparr>
      | Text hostId s \<Rightarrow> w\<lparr>streamData := append_to hostId s (streamData w)\<rparr>
      | Ignored \<Rightarrow> w)"

definition ws_onmessage ::
    "json_parser \<Rightarrow> time_format \<Rightarrow> nat \<Rightarrow> string \<Rightarrow> int \<Rightarrow> stream_world \<Rightarrow> stream_world" where
  "ws_onmessage parse fmt_time i data now w =
     apply_frame now (read_frame parse fmt_time (sk_type (sockets w ! i)) data) w"

definition ws_onclose :: "nat \<Rightarrow> stream_world \<Rightarrow> stream_world" where
  "ws_onclose i w =
     (let w1 = set_ready i CLOSED w in
      if wsRef w1 \<noteq> None then reset_refs (w1\<lparr>lastPongTime := 0\<rparr>) else w1)"

definition send_ping :: "nat \<Rightarrow> stream_world \<Rightarrow> stream_world" where
  "send_ping i w =
     w\<lparr>sockets := (sockets w)[i := (sockets w ! i)\<lparr>sk_pings := Suc (sk_pings (sockets w ! i))\<rparr>]\<rparr>"

definition ping_tick :: "int \<Rightarrow> stream_world \<Rightarrow> stream_world" where
  "ping_tick now w =
     (case wsRef w of
        None \<Rightarrow> w
      | Some i \<Rightarrow>
          if lastPongTime w > 0 \<and> now - lastPongTime w > PONG_TIMEOUT
          then reset_refs (sock_close i
                 (w\<lparr>streamData :=
                      append_all (hostIdsRef w) connection_timeout_message (streamData w),
                    lastPongTime := 0\<rparr>))
          else if sock_state w i = OPEN
          then let w1 = send_ping i w
               in if lastPongTime w1 = 0 then w1\<lparr>lastPongTime := now\<rparr> else w1
          else w)"

definition stream_unmount :: "stream_world \<Rightarrow> stream_world" where
  "stream_unmount w =
     (let w1 = clear_timer (pingIntervalRef w) w;
          w2 = (case wsRef w1 of None \<Rightarrow> w1 | Some i \<Rightarrow> (sock_close i w1)\<lparr>wsRef := None\<rparr>)
      in w2\<lparr>hostIdsRef := [], streamTypeRef := None, lastPongTime := 0, mounted := False\<rparr>)"

section \<open>Events and steps\<close>

datatype ws_event =
    StartStream stream_type "string list" bool
  | CancelStreaming bool
  | SockOpen nat
  | SockMessage nat string int
  | SockError nat
  | SockClosing nat \<comment> \<open>the peer starts the closing handshake\<close>
  | SockClose nat
  | Tick nat int
  | Unmount

text \<open>What the browser and the mounted component may do next.\<close>

fun ws_enabled :: "ws_event \<Rightarrow> stream_world \<Rightarrow> bool" where
  "ws_enabled (StartStream _ _ _) w = mounted w"
| "ws_enabled (CancelStreaming _) w = mounted w"
| "ws_enabled (SockOpen i) w = (i < length (sockets w) \<and> sock_state w i = CONNECTING)"
| "ws_enabled (SockMessage i _ now) w = (i < length (sockets w) \<and> sock_state w i = OPEN \<and> 0 < now)"
| "ws_enabled (SockError i) w = (i < length (sockets w) \<and> sock_state w i < CLOSED)"
| "ws_enabled (SockClosing i) w = (i < length (sockets w) \<and> sock_state w i = OPEN)"
| "ws_enabled (SockClose i) w = (i < length (sockets w) \<and> sock_state w i < CLOSED)"
| "ws_enabled (Tick t now) w = (t \<in> set (timers w) \<and> 0 < now)"
| "ws_enabled Unmount w = mounted w"

fun ws_handle ::
    "json_parser \<Rightarrow> time_format \<Rightarrow> ws_event \<Rightarrow> stream_world \<Rightarrow> stream_world" where
  "ws_handle parse fmt_time (StartStream ty hs ok) w = startStream ty hs ok w"
| "ws_handle parse fmt_time (CancelStreaming a) w = cancelStreaming a w"
| "ws_handle parse fmt_time (SockOpen i) w = ws_onopen i w"
| "ws_handle parse fmt_time (SockMessage i d now) w = ws_onmessage parse fmt_time i d now w"
| "ws_handle parse fmt_time (SockError i) w = w"
| "ws_handle parse fmt_time (SockClosing i) w = set_ready i CLOSING w"
| "ws_handle parse fmt_time (SockClose i) w = ws_onclose i w"
| "ws_handle parse fmt_time (Tick t now) w = ping_tick now w"
| "ws_handle parse fmt_time Unmount w = stream_unmount w"

inductive ws_step ::
    "json_parser \<Rightarrow> time_format \<Rightarrow> stream_world \<Rightarrow> ws_event \<Rightarrow> stream_world \<Rightarrow> bool"
  for parse :: json_parser and fmt_time :: time_format where
  ws_step: "ws_enabled e w \<Longrightarrow> ws_step parse fmt_time w e (ws_handle parse fmt_time e w)"

inductive_cases ws_stepE: "ws_step parse fmt_time w e w'"
inductive_simps ws_step_iff: "ws_step parse fmt_time w e w'"

text \<open>Executing a list of events; the events are assumed enabled.\<close>

definition ws_exec ::
    "json_parser \<Rightarrow> time_format \<Rightarrow> ws_event list \<Rightarrow> stream_world \<Rightarrow> stream_world" where
  "ws_exec parse fmt_time es w = foldl (\<lambda>u e. ws_handle parse fmt_time e u) w es"

fun ws_all_enabled ::
    "json_parser \<Rightarrow> time_format \<Rightarrow> ws_event list \<Rightarrow> stream_world \<Rightarrow> bool" where
  "ws_all_enabled parse fmt_time [] w = True"
| "ws_all_enabled parse fmt_time (e # es) w =
     (ws_enabled e w \<and> ws_all_enabled parse fmt_time es (ws_handle parse fmt_time e w))"

lemma run_ws_exec:
  "ws_all_enabled parse fmt es w \<Longrightarrow> run (ws_step parse fmt) w es (ws_exec parse fmt es w)"
  by (induction es arbitrary: w) (auto simp: ws_exec_def intro: run.intros ws_step)

end
