(* ===== verification/PanelResize.thy ===== *)
theory PanelResize
  imports JsPrelude
begin

text \<open>
  \<open>hooks/usePanelResize.ts\<close>: the height of the output panel, minimising and restoring
  it, and dragging its handle. The height of the window is an argument of each operation,
  since the window can be resized between them.
\<close>

definition MIN_HEIGHT :: int where "MIN_HEIGHT = 180"
definition MIN_VIEWPORT_MARGIN :: int where "MIN_VIEWPORT_MARGIN = 100"

record panel =
  statusPanelHeight :: int
  previousPanelHeight :: int
  isDragging :: bool

text \<open>\<open>Math.floor(window.innerHeight * pct)\<close>\<close>

definition expanded_height :: "int \<Rightarrow> rat \<Rightarrow> int" where
  "expanded_height innerHeight pct = \<lfloor>of_int innerHeight * pct\<rfloor>"

definition panel_init :: "int \<Rightarrow> int \<Rightarrow> rat \<Rightarrow> panel" where
  "panel_init innerHeight defaultHeight pct =
     \<lparr>statusPanelHeight = defaultHeight, previousPanelHeight = expanded_height innerHeight pct,
      isDragging = False\<rparr>"

definition isMinimized :: "panel \<Rightarrow> bool" where
  "isMinimized p \<longleftrightarrow> statusPanelHeight p \<le> MIN_HEIGHT"

definition toggleMinimizePanel :: "int \<Rightarrow> rat \<Rightarrow> panel \<Rightarrow> panel" where
  "toggleMinimizePanel innerHeight pct p =
     (if isMinimized p then
        let targetHeight = (if previousPanelHeight p > MIN_HEIGHT then previousPanelHeight p
                            else expanded_height innerHeight pct)
        in p\<lparr>statusPanelHeight := targetHeight\<rparr>
      else p\<lparr>previousPanelHeight := statusPanelHeight p, statusPanelHeight := MIN_HEIGHT\<rparr>)"

definition handleResizeStart :: "panel \<Rightarrow> panel" where
  "handleResizeStart p = p\<lparr>isDragging := True\<rparr>"

text \<open>The move and end listeners are attached only while dragging.\<close>

definition handleResizeMove :: "int \<Rightarrow> int \<Rightarrow> panel \<Rightarrow> panel" where
  "handleResizeMove innerHeight clientY p =
     (if \<not> isDragging p then p
      else let newHeight = innerHeight - clientY
           in if newHeight \<ge> MIN_VIEWPORT_MARGIN \<and> newHeight \<le> innerHeight - MIN_VIEWPORT_MARGIN
              then p\<lparr>statusPanelHeight := newHeight\<rparr> else p)"

definition handleResizeEnd :: "panel \<Rightarrow> panel" where
  "handleResizeEnd p = (if isDragging p then p\<lparr>isDragging := False\<rparr> else p)"

lemmas panel_ops =
  toggleMinimizePanel_def handleResizeStart_def handleResizeMove_def handleResizeEnd_def
  isMinimized_def Let_def

section \<open>Runs of the panel\<close>

datatype panel_event = Toggle | DragStart | DragMove int | DragEnd

fun panel_handle :: "int \<Rightarrow> rat \<Rightarrow> panel_event \<Rightarrow> panel \<Rightarrow> panel" where
  "panel_handle inner pct Toggle p = toggleMinimizePanel inner pct p"
| "panel_handle inner pct DragStart p = handleResizeStart p"
| "panel_handle inner pct (DragMove y) p = handleResizeMove inner y p"
| "panel_handle inner pct DragEnd p = handleResizeEnd p"

inductive panel_step :: "int \<Rightarrow> rat \<Rightarrow> panel \<Rightarrow> panel_event \<Rightarrow> panel \<Rightarrow> bool"
  for inner :: int and pct :: rat where
  panel_step: "panel_step inner pct p e (panel_handle inner pct e p)"

inductive_simps panel_step_iff: "panel_step inner pct p e q"

definition panel_inv :: "int \<Rightarrow> rat \<Rightarrow> panel \<Rightarrow> bool" where
  "panel_inv inner pct p \<longleftrightarrow>
     280 \<le> inner \<and> 0 \<le> pct \<and> of_int inner * pct \<le> of_int (inner - MIN_VIEWPORT_MARGIN)
     \<and> of_int inner * pct \<ge> of_int MIN_VIEWPORT_MARGIN
     \<and> MIN_VIEWPORT_MARGIN \<le> statusPanelHeight p
     \<and> statusPanelHeight p \<le> inner - MIN_VIEWPORT_MARGIN
     \<and> previousPanelHeight p \<le> inner - MIN_VIEWPORT_MARGIN"

lemma expanded_height_bounds:
  "of_int lo \<le> of_int inner * pct \<Longrightarrow> of_int inner * pct \<le> of_int hi \<Longrightarrow>
     lo \<le> expanded_height inner pct \<and> expanded_height inner pct \<le> hi"
  by (metis expanded_height_def floor_mono floor_of_int)

lemma panel_inv_step: "panel_inv inner pct p \<Longrightarrow> panel_step inner pct p e q \<Longrightarrow> panel_inv inner pct q"
  using expanded_height_bounds [of MIN_VIEWPORT_MARGIN inner pct "inner - MIN_VIEWPORT_MARGIN"]
  by (cases e)
    (auto simp: panel_step_iff panel_ops panel_inv_def MIN_HEIGHT_def MIN_VIEWPORT_MARGIN_def)

interpretation pan: step_invariant "panel_step inner pct" "panel_inv inner pct" "panel_inv inner pct"
  by unfold_locales (auto intro: panel_inv_step)

text \<open>
  The panel stays inside the window: with the hook's defaults, a window at least 280
  pixels high that keeps its height, and any sequence of toggles and drags, the height is
  always between the viewport margin and the window height less that margin.
\<close>

lemma panel_height_bounds:
  assumes "280 \<le> inner" and "run (panel_step inner (1/2)) (panel_init inner MIN_HEIGHT (1/2)) es p"
  shows "MIN_VIEWPORT_MARGIN \<le> statusPanelHeight p
    \<and> statusPanelHeight p \<le> inner - MIN_VIEWPORT_MARGIN"
proof -
  have "of_int inner * (1/2::rat) \<le> of_int (inner - MIN_VIEWPORT_MARGIN)"
    and "of_int MIN_VIEWPORT_MARGIN \<le> of_int inner * (1/2::rat)"
    using assms(1) by (auto simp: MIN_VIEWPORT_MARGIN_def)
  then have "panel_inv inner (1/2) (panel_init inner MIN_HEIGHT (1/2))"
    using assms(1) expanded_height_bounds [of MIN_VIEWPORT_MARGIN inner "1/2" "inner - MIN_VIEWPORT_MARGIN"]
    by (simp add: panel_inv_def panel_init_def MIN_HEIGHT_def MIN_VIEWPORT_MARGIN_def)
  from pan.inv_reach [OF this assms(2)] show ?thesis by (simp add: panel_inv_def)
qed

lemma panel_height_bounds_example:
  "statusPanelHeight (panel_handle 800 (1/2) Toggle (panel_init 800 MIN_HEIGHT (1/2))) \<le> 700"
proof -
  have "run (panel_step 800 (1/2)) (panel_init 800 MIN_HEIGHT (1/2)) [Toggle]
      (panel_handle 800 (1/2) Toggle (panel_init 800 MIN_HEIGHT (1/2)))"
    by (rule run_cons, rule panel_step, rule run_nil)
  from panel_height_bounds [OF _ this] show ?thesis by (simp add: MIN_VIEWPORT_MARGIN_def)
qed

text \<open>
  Minimising and restoring brings an expanded panel back to its height; a minimised
  panel that is toggled becomes expanded exactly when a larger height is remembered or half
  the window is larger than the minimum (a window of at least 362 pixels).
\<close>

lemma panel_toggle_restores:
  "(\<not> isMinimized p \<longrightarrow>
      isMinimized (toggleMinimizePanel inner (1/2) p)
      \<and> statusPanelHeight (toggleMinimizePanel inner' (1/2) (toggleMinimizePanel inner (1/2) p))
          = statusPanelHeight p)
   \<and> (isMinimized p \<longrightarrow>
      (\<not> isMinimized (toggleMinimizePanel inner (1/2) p) \<longleftrightarrow>
         previousPanelHeight p > MIN_HEIGHT \<or> inner \<ge> 362))"
proof -
  have "MIN_HEIGHT < \<lfloor>of_int inner * (1/2::rat)\<rfloor> \<longleftrightarrow> 362 \<le> inner"
    by (simp add: MIN_HEIGHT_def less_floor_iff)
  then show ?thesis by (auto simp: panel_ops MIN_HEIGHT_def expanded_height_def)
qed

lemma panel_toggle_restores_example:
  "\<not> isMinimized (toggleMinimizePanel 800 (1/2) (panel_init 800 MIN_HEIGHT (1/2)))"
  using panel_toggle_restores [of "panel_init 800 MIN_HEIGHT (1/2)" 800]
  by (simp add: panel_init_def isMinimized_def MIN_HEIGHT_def)

end
