(* ===== verification/AppState.thy ===== *)
theory AppState
  imports OnlineFilter Api WebSocketStream PanelResize
begin

text \<open>
  The state of the \<open>App\<close> component (\<open>App.tsx\<close>): its \<open>useState\<close> variables, the state of the
  hooks it owns, and the calls of \<open>alert\<close> as a log. \<open>fetchData\<close> is the loading of the peer
  map at mount.
\<close>

section \<open>Constants\<close>

definition DEFAULT_LAYOUT :: string where "DEFAULT_LAYOUT = ''treeTd3d''"

text \<open>The values of \<open>LAYOUT_OPTIONS\<close>, in order.\<close>

definition LAYOUT_OPTIONS :: "string list" where
  "LAYOUT_OPTIONS =
     [''forceDirected2d'', ''forceDirected3d'', ''circular2d'', ''concentric2d'', ''concentric3d'',
      ''treeTd2d'', ''treeTd3d'', ''treeLr2d'', ''treeLr3d'', ''radialOut2d'', ''radialOut3d'',
      ''hierarchicalTd'', ''hierarchicalLr'', ''nooverlap'', ''forceatlas2'']"

definition NODE_DEFAULT :: string where "NODE_DEFAULT = ''#7CA0F4''"
definition NODE_OFFLINE :: string where "NODE_OFFLINE = ''#6B7280''"

section \<open>The state\<close>

record app =
  app_nodes :: "node list"
  app_edges :: "edge list"
  edgeColors :: "string jsobj"
  app_loading :: bool
  app_error :: "string option"
  app_hosts :: "string list"
  selectedHosts :: "string list"
  selectedTargets :: "string list"
  sidebarOpen :: bool
  graphKey :: nat
  statusPanelOpen :: bool
  outputData :: "jsv jsobj"
  statusLoading :: bool
  selectedOutputHost :: "string option"
  layoutType :: string
  lastCommand :: string
  showRawJson :: bool
  hostSearchFilter :: string
  targetSearchFilter :: string
  hideOfflinePeers :: bool
  showQueryDNSModal :: bool
  dnsName :: string
  dnsQueryType :: string
  showPprofModal :: bool
  pprofType :: string
  pprofDuration :: string
  pingCount :: int
  pingType :: string
  pingDelay :: int
  showPingSettings :: bool
  app_panel :: panel
  app_stream :: stream_world
  draggedNodes :: "string list" \<comment> \<open>keys of \<open>nodeRef\<close>\<close>
  alerts :: "string list"

definition app_init :: "int \<Rightarrow> app" where
  "app_init innerHeight =
     \<lparr>app_nodes = [], app_edges = [], edgeColors = [], app_loading = True, app_error = None,
      app_hosts = [], selectedHosts = [], selectedTargets = [], sidebarOpen = True, graphKey = 0,
      statusPanelOpen = True, outputData = [], statusLoading = False, selectedOutputHost = None,
      layoutType = DEFAULT_LAYOUT, lastCommand = [], showRawJson = False, hostSearchFilter = [],
      targetSearchFilter = [], hideOfflinePeers = True, showQueryDNSModal = False, dnsName = [],
      dnsQueryType = ''A'', showPprofModal = False, pprofType = ''profile'',
      pprofDuration = ''30'', pingCount = 5, pingType = ''disco'', pingDelay = 200,
      showPingSettings = False, app_panel = panel_init innerHeight MIN_HEIGHT (1/2),
      app_stream = stream_init, draggedNodes = [], alerts = []\<rparr>"

section \<open>Loading the peer map\<close>

fun exn_map :: "('a \<Rightarrow> 'b js_result) \<Rightarrow> 'a list \<Rightarrow> 'b list js_result" where
  "exn_map f [] = Inr []"
| "exn_map f (x # xs) = exn_bind (f x) (\<lambda>y. exn_bind (exn_map f xs) (\<lambda>ys. Inr (y # ys)))"

definition as_array :: "jsv \<Rightarrow> jsv list js_result" where
  "as_array v =
     (case v of JArr xs \<Rightarrow> Inr xs | _ \<Rightarrow> Inl (Error ''value is not an array''))"

definition obj_entries :: "jsv \<Rightarrow> jsv jsobj" where
  "obj_entries v = (case v of JObj m \<Rightarrow> m | _ \<Rightarrow> [])"

definition decode_edge :: "jsv \<Rightarrow> edge" where
  "decode_edge v =
     \<lparr>e_id = to_str (js_opt_prop v ''id''), e_source = to_str (js_opt_prop v ''source''),
      e_target = to_str (js_opt_prop v ''target'')\<rparr>"

text \<open>
  One node of the response: the colour, and the data spread with the three added fields.
  Reading \<open>ExitNode\<close> of missing data throws.
\<close>

definition transform_node :: "bool \<Rightarrow> string list \<Rightarrow> jsv \<Rightarrow> node js_result" where
  "transform_node redact hostList nodeData =
     exn_bind (js_prop nodeData ''data'') (\<lambda>d.
     exn_bind (js_prop d ''ExitNode'') (\<lambda>exitNode.
     exn_bind (js_prop d ''ExitNodeOption'') (\<lambda>exitNodeOption.
       let i = to_str (js_opt_prop nodeData ''id'');
           fillColor = (if truthy d \<and> js_opt_prop d ''Online'' = JBool False
                        then NODE_OFFLINE else NODE_DEFAULT)
       in Inr \<lparr>n_id = i,
               n_label = (if redact then ''*****'' else to_str (js_opt_prop nodeData ''label'')),
               n_fill = fillColor, n_size = 7,
               n_data = JObj (obj_spread (obj_entries d)
                 [(''hasSymbiote'', JBool (i \<in> set hostList)),
                  (''exitNode'', js_or exitNode (JBool False)),
                  (''exitNodeOption'', js_or exitNodeOption (JBool False))])\<rparr>)))"

text \<open>
  Which state variables an event has set (a setter always stores a fresh object), that is,
  the dependencies of the effects that React sees as changed.
\<close>

record dirty =
  d_nodes :: bool
  d_hosts :: bool
  d_edges :: bool
  d_selectedHosts :: bool
  d_hide :: bool

definition clean :: dirty where
  "clean = \<lparr>d_nodes = False, d_hosts = False, d_edges = False, d_selectedHosts = False, d_hide = False\<rparr>"

text \<open>
  A \<open>hosts\<close> or \<open>edges\<close> field that is truthy but no array is outside the declared type of
  the response; it is treated as the exception that its first use raises.
\<close>

definition fetchData ::
    "bool \<Rightarrow> (jsv \<Rightarrow> string) \<Rightarrow> jsv js_result \<Rightarrow> app \<Rightarrow> app \<times> dirty" where
  "fetchData redact stringify outcome a0 =
     (let a = a0\<lparr>app_loading := False\<rparr>;
          fail = (\<lambda>e b. b\<lparr>app_error := Some (message_or e ''Failed to fetch data'')\<rparr>)
      in case outcome of
           Inl e \<Rightarrow> (fail e a, clean)
         | Inr data \<Rightarrow>
             if truthy data \<and> truthy (js_opt_prop data ''nodes'')
                \<and> truthy (js_opt_prop data ''edges'')
             then
               (case as_array (js_or (js_opt_prop data ''hosts'') (JArr [])) of
                  Inl e \<Rightarrow> (fail e a, clean)
                | Inr hs \<Rightarrow>
                    let hostList = map to_str hs;
                        b = a\<lparr>app_hosts := hostList, selectedHosts := new_set hostList\<rparr>;
                        db = clean\<lparr>d_hosts := True, d_selectedHosts := True\<rparr>
                    in (case exn_bind (as_array (js_opt_prop data ''nodes''))
                               (exn_map (transform_node redact hostList)) of
                          Inl e \<Rightarrow> (fail e b, db)
                        | Inr ns \<Rightarrow>
                            (case as_array (js_opt_prop data ''edges'') of
                               Inl e \<Rightarrow> (fail e b, db)
                             | Inr es \<Rightarrow>
                                 (b\<lparr>app_nodes := ns, app_edges := map decode_edge es\<rparr>,
                                  db\<lparr>d_nodes := True, d_edges := True\<rparr>))))
             else (a\<lparr>app_error :=
                       Some (''Unexpected API response format. Received: '' @ stringify data)\<rparr>, clean))"

lemma exn_map_ids:
  "exn_map (transform_node redact hl) xs = Inr ns \<Longrightarrow>
     map n_id ns = map (\<lambda>v. to_str (js_opt_prop v ''id'')) xs"
proof (induction xs arbitrary: ns)
  case (Cons x xs)
  then show ?case
    by (auto simp: exn_bind_def transform_node_def Let_def split: sum.splits)
qed simp

text \<open>Loading always ends, with an error exactly when the nodes were not replaced.\<close>

lemma fetchData_loading: "\<not> app_loading (fst (fetchData redact sf out a))"
  by (auto simp: fetchData_def Let_def split: sum.splits)

end
