(* ===== verification/Selection.thy ===== *)
theory Selection
  imports AppState
begin

text \<open>
  The selection of hosts and targets (\<open>App.tsx\<close>): the user's actions, and the effects React
  runs after the render that follows each of them. An effect runs when a variable it
  depends on was set; the effects write \<open>selectedTargets\<close> only, on which no effect depends,
  so one pass in source order reaches the fixed point.
\<close>

section \<open>Derived values\<close>

definition app_targetNodes :: "app \<Rightarrow> string list" where
  "app_targetNodes a = targetNodes (app_nodes a) (app_hosts a)"

definition app_reachable :: "app \<Rightarrow> string list" where
  "app_reachable a =
     reachableTargets (app_nodes a) (app_hosts a) (app_edges a) (selectedHosts a) (hideOfflinePeers a)"

definition filteredHostsForDisplay :: "app \<Rightarrow> string list" where
  "filteredHostsForDisplay a =
     filter (\<lambda>h. js_includes (to_lower h) (to_lower (hostSearchFilter a))) (app_hosts a)"

definition filteredTargetsForDisplay :: "app \<Rightarrow> string list" where
  "filteredTargetsForDisplay a =
     filter (\<lambda>t. js_includes (to_lower t) (to_lower (targetSearchFilter a))) (app_reachable a)"

section \<open>Effects\<close>

definition effect_select_all :: "app \<Rightarrow> app" where
  "effect_select_all a =
     (if app_nodes a \<noteq> [] \<and> app_hosts a \<noteq> [] then
        a\<lparr>selectedTargets := new_set
            (filter (\<lambda>i. hideOfflinePeers a \<longrightarrow> isOnline (app_nodes a) i)
              (filter (\<lambda>i. i \<notin> set (app_hosts a)) (map n_id (app_nodes a))))\<rparr>
      else a)"

definition effect_deselect_offline :: "app \<Rightarrow> app" where
  "effect_deselect_offline a =
     (if hideOfflinePeers a then
        a\<lparr>selectedTargets :=
            foldl (\<lambda>s t. if \<not> isOnline (app_nodes a) t then set_delete t s else s)
              (selectedTargets a) (selectedTargets a)\<rparr>
      else a)"

definition effect_prune_unreachable :: "app \<Rightarrow> app" where
  "effect_prune_unreachable a =
     (let newSelected = foldl (\<lambda>s t. if t \<in> set (app_reachable a) then set_add t s else s)
                          [] (selectedTargets a)
      in if length newSelected \<noteq> length (selectedTargets a)
         then a\<lparr>selectedTargets := newSelected\<rparr> else a)"

definition settle :: "app \<times> dirty \<Rightarrow> app" where
  "settle ad =
     (case ad of (a, d) \<Rightarrow>
        let a1 = (if d_nodes d \<or> d_hosts d \<or> d_hide d then effect_select_all a else a);
            a2 = (if d_hide d \<or> d_nodes d then effect_deselect_offline a1 else a1)
        in if d_nodes d \<or> d_hosts d \<or> d_edges d \<or> d_selectedHosts d \<or> d_hide d
           then effect_prune_unreachable a2 else a2)"

section \<open>Actions\<close>

definition toggleHost :: "string \<Rightarrow> app \<Rightarrow> app" where
  "toggleHost hostId a = a\<lparr>selectedHosts := set_toggle hostId (selectedHosts a)\<rparr>"

definition toggleAllHosts :: "app \<Rightarrow> app" where
  "toggleAllHosts a =
     (if length (selectedHosts a) = length (app_hosts a) then a\<lparr>selectedHosts := []\<rparr>
      else a\<lparr>selectedHosts := new_set (app_hosts a)\<rparr>)"

definition toggleTarget :: "string \<Rightarrow> app \<Rightarrow> app" where
  "toggleTarget targetId a = a\<lparr>selectedTargets := set_toggle targetId (selectedTargets a)\<rparr>"

definition toggleAllTargets :: "app \<Rightarrow> app" where
  "toggleAllTargets a =
     (if length (selectedTargets a) = length (app_reachable a) then a\<lparr>selectedTargets := []\<rparr>
      else a\<lparr>selectedTargets := new_set (app_reachable a)\<rparr>)"

definition filterToHost :: "string \<Rightarrow> app \<Rightarrow> app" where
  "filterToHost i a = a\<lparr>selectedHosts := new_set [i]\<rparr>"

definition resetView :: "app \<Rightarrow> app" where
  "resetView a =
     a\<lparr>draggedNodes := [], layoutType := DEFAULT_LAYOUT,
       selectedHosts := new_set (app_hosts a), selectedTargets := new_set (app_targetNodes a),
       graphKey := graphKey a + 1\<rparr>"

datatype sel_action =
    ToggleHost string
  | ToggleAllHosts
  | ToggleTarget string
  | ToggleAllTargets
  | ToggleHideOffline
  | FilterToHost string
  | ResetView
  | Loaded "jsv js_result"

text \<open>Which actions the rendered controls offer.\<close>

fun sel_enabled :: "sel_action \<Rightarrow> app \<Rightarrow> bool" where
  "sel_enabled (ToggleHost h) a = (h \<in> set (filteredHostsForDisplay a))"
| "sel_enabled ToggleAllHosts a = True"
| "sel_enabled (ToggleTarget t) a = (t \<in> set (filteredTargetsForDisplay a))"
| "sel_enabled ToggleAllTargets a = (app_reachable a \<noteq> [])"
| "sel_enabled ToggleHideOffline a = True"
| "sel_enabled (FilterToHost i) a = (i \<in> set (app_hosts a) \<and> i \<in> n_id ` set (app_nodes a))"
| "sel_enabled ResetView a = True"
| "sel_enabled (Loaded out) a = app_loading a"

fun sel_apply :: "bool \<Rightarrow> (jsv \<Rightarrow> string) \<Rightarrow> sel_action \<Rightarrow> app \<Rightarrow> app \<times> dirty" where
  "sel_apply redact sf (ToggleHost h) a = (toggleHost h a, clean\<lparr>d_selectedHosts := True\<rparr>)"
| "sel_apply redact sf ToggleAllHosts a = (toggleAllHosts a, clean\<lparr>d_selectedHosts := True\<rparr>)"
| "sel_apply redact sf (ToggleTarget t) a = (toggleTarget t a, clean)"
| "sel_apply redact sf ToggleAllTargets a = (toggleAllTargets a, clean)"
| "sel_apply redact sf ToggleHideOffline a =
     (a\<lparr>hideOfflinePeers := \<not> hideOfflinePeers a\<rparr>, clean\<lparr>d_hide := True\<rparr>)"
| "sel_apply redact sf (FilterToHost i) a = (filterToHost i a, clean\<lparr>d_selectedHosts := True\<rparr>)"
| "sel_apply redact sf ResetView a = (resetView a, clean\<lparr>d_selectedHosts := True\<rparr>)"
| "sel_apply redact sf (Loaded out) a = fetchData redact sf out a"

definition sel_handle :: "bool \<Rightarrow> (jsv \<Rightarrow> string) \<Rightarrow> sel_action \<Rightarrow> app \<Rightarrow> app" where
  "sel_handle redact sf act a = settle (sel_apply redact sf act a)"

inductive sel_step :: "bool \<Rightarrow> (jsv \<Rightarrow> string) \<Rightarrow> app \<Rightarrow> sel_action \<Rightarrow> app \<Rightarrow> bool"
  for redact :: bool and sf :: "jsv \<Rightarrow> string" where
  sel_step: "sel_enabled act a \<Longrightarrow> sel_step redact sf a act (sel_handle redact sf act a)"

inductive_cases sel_stepE: "sel_step redact sf a act b"

section \<open>What the effects compute\<close>

lemma fold_delete:
  "foldl (\<lambda>s t. if P t then set_delete t s else s) s xs = filter (\<lambda>t. \<not> (P t \<and> t \<in> set xs)) s"
proof (induction xs arbitrary: s)
  case (Cons x xs)
  then show ?case by (auto simp: set_delete_def removeAll_filter_not_eq intro: filter_cong)
qed simp

lemma fold_add_if:
  "distinct (s @ xs) \<Longrightarrow>
     foldl (\<lambda>s t. if P t then set_add t s else s) s xs = s @ filter P xs"
  by (induction xs arbitrary: s) (auto simp: set_add_def set_has_def)

lemma prune_selected:
  "distinct (selectedTargets a) \<Longrightarrow>
     selectedTargets (effect_prune_unreachable a) =
       filter (\<lambda>t. t \<in> set (app_reachable a)) (selectedTargets a)"
  using fold_add_if [of "[]" "selectedTargets a" "\<lambda>t. t \<in> set (app_reachable a)"]
  by (auto simp: effect_prune_unreachable_def Let_def filter_id_conv)
    (metis filter_id_conv length_filter_less less_irrefl)

lemma deselect_selected:
  "selectedTargets (effect_deselect_offline a) =
     filter (\<lambda>t. hideOfflinePeers a \<longrightarrow> isOnline (app_nodes a) t) (selectedTargets a)"
  by (auto simp: effect_deselect_offline_def fold_delete intro: filter_cong)

lemma select_all_selected:
  "app_nodes a \<noteq> [] \<Longrightarrow> app_hosts a \<noteq> [] \<Longrightarrow>
     set (selectedTargets (effect_select_all a)) =
       {i \<in> n_id ` set (app_nodes a) - set (app_hosts a).
          hideOfflinePeers a \<longrightarrow> isOnline (app_nodes a) i}"
  by (auto simp: effect_select_all_def set_new_set)

lemma distinct_select_all:
  "distinct (selectedTargets a) \<Longrightarrow> distinct (selectedTargets (effect_select_all a))"
  by (simp add: effect_select_all_def distinct_new_set)

lemma effect_frame [simp]:
  "app_nodes (effect_select_all a) = app_nodes a" "app_hosts (effect_select_all a) = app_hosts a"
  "app_edges (effect_select_all a) = app_edges a"
  "selectedHosts (effect_select_all a) = selectedHosts a"
  "hideOfflinePeers (effect_select_all a) = hideOfflinePeers a"
  "app_nodes (effect_deselect_offline a) = app_nodes a"
  "app_hosts (effect_deselect_offline a) = app_hosts a"
  "app_edges (effect_deselect_offline a) = app_edges a"
  "selectedHosts (effect_deselect_offline a) = selectedHosts a"
  "hideOfflinePeers (effect_deselect_offline a) = hideOfflinePeers a"
  "app_nodes (effect_prune_unreachable a) = app_nodes a"
  "app_hosts (effect_prune_unreachable a) = app_hosts a"
  "app_edges (effect_prune_unreachable a) = app_edges a"
  "selectedHosts (effect_prune_unreachable a) = selectedHosts a"
  "hideOfflinePeers (effect_prune_unreachable a) = hideOfflinePeers a"
  "layoutType (effect_prune_unreachable a) = layoutType a"
  "graphKey (effect_prune_unreachable a) = graphKey a"
  by (simp_all add: effect_select_all_def effect_deselect_offline_def effect_prune_unreachable_def
      Let_def)

lemma settle_frame [simp]:
  "app_nodes (settle (a, d)) = app_nodes a" "app_hosts (settle (a, d)) = app_hosts a"
  "app_edges (settle (a, d)) = app_edges a" "selectedHosts (settle (a, d)) = selectedHosts a"
  "hideOfflinePeers (settle (a, d)) = hideOfflinePeers a"
  by (simp_all add: settle_def Let_def)

lemma reachable_effect [simp]:
  "app_reachable (effect_select_all a) = app_reachable a"
  "app_reachable (effect_deselect_offline a) = app_reachable a"
  "app_reachable (effect_prune_unreachable a) = app_reachable a"
  "app_reachable (settle (a, d)) = app_reachable a"
  by (simp_all add: app_reachable_def)

lemma reachable_online: "hideOfflinePeers a \<Longrightarrow> t \<in> set (app_reachable a) \<Longrightarrow> isOnline (app_nodes a) t"
  by (simp add: app_reachable_def set_reachableTargets)

text \<open>
  After any event that sets a dependency, pruning has run last, so what is selected is
  reachable.
\<close>

definition touched :: "dirty \<Rightarrow> bool" where
  "touched d \<longleftrightarrow> d_nodes d \<or> d_hosts d \<or> d_edges d \<or> d_selectedHosts d \<or> d_hide d"

lemma settle_distinct: "distinct (selectedTargets a) \<Longrightarrow> distinct (selectedTargets (settle (a, d)))"
  by (auto simp: settle_def Let_def prune_selected deselect_selected distinct_select_all)

lemma settle_pruned:
  "distinct (selectedTargets a) \<Longrightarrow> touched d \<Longrightarrow>
     set (selectedTargets (settle (a, d))) \<subseteq> set (app_reachable a)"
  by (auto simp: settle_def Let_def touched_def prune_selected deselect_selected distinct_select_all)

lemma settle_untouched: "\<not> touched d \<Longrightarrow> settle (a, d) = a"
  by (auto simp: settle_def Let_def touched_def)

text \<open>The dependencies that re-run the default selection select everything reachable.\<close>

lemma settle_reselects:
  assumes "distinct (selectedTargets a)" "d_nodes d \<or> d_hosts d \<or> d_hide d"
    and "app_nodes a \<noteq> []" "app_hosts a \<noteq> []"
  shows "set (selectedTargets (settle (a, d))) = set (app_reachable a)"
proof -
  have "set (app_reachable a) \<subseteq> set (selectedTargets (effect_select_all a))"
    using assms(3,4) by (auto simp: select_all_selected app_reachable_def set_reachableTargets)
  with assms show ?thesis
    by (auto simp: settle_def Let_def prune_selected deselect_selected distinct_select_all
        dest: reachable_online)
qed

section \<open>The selection invariant\<close>

definition sel_inv :: "app \<Rightarrow> bool" where
  "sel_inv a \<longleftrightarrow>
     set (selectedTargets a) \<subseteq> set (app_reachable a) \<and> set (selectedHosts a) \<subseteq> set (app_hosts a)
     \<and> distinct (selectedTargets a) \<and> distinct (selectedHosts a)"

lemma sel_inv_settle:
  "touched d \<Longrightarrow> distinct (selectedTargets a) \<Longrightarrow> distinct (selectedHosts a) \<Longrightarrow>
     set (selectedHosts a) \<subseteq> set (app_hosts a) \<Longrightarrow> sel_inv (settle (a, d))"
  using settle_pruned [of a d] settle_distinct [of a d] by (simp add: sel_inv_def)

lemma fetchData_shape:
  "fetchData redact sf out a = (b, d) \<Longrightarrow>
     selectedTargets b = selectedTargets a
     \<and> (if touched d then distinct (selectedHosts b) \<and> set (selectedHosts b) \<subseteq> set (app_hosts b)
        else selectedHosts b = selectedHosts a \<and> app_hosts b = app_hosts a
             \<and> app_reachable b = app_reachable a)"
  by (auto simp: fetchData_def Let_def touched_def clean_def obj_simps app_reachable_def
      split: sum.splits if_splits)

lemma fetchData_inv: "sel_inv a \<Longrightarrow> sel_inv (settle (fetchData redact sf out a))"
proof -
  assume inv: "sel_inv a"
  obtain b d where fd: "fetchData redact sf out a = (b, d)" by (cases "fetchData redact sf out a")
  note shape = fetchData_shape [OF fd]
  show ?thesis
  proof (cases "touched d")
    case True
    with shape inv show ?thesis unfolding fd by (intro sel_inv_settle) (auto simp: sel_inv_def)
  next
    case False
    with shape inv show ?thesis unfolding fd by (simp add: settle_untouched sel_inv_def)
  qed
qed

lemma sel_inv_step: "sel_inv a \<Longrightarrow> sel_step redact sf a act b \<Longrightarrow> sel_inv b"
proof (erule sel_stepE)
  assume inv: "sel_inv a" and en: "sel_enabled act a" and b: "b = sel_handle redact sf act a"
  note hosts = b sel_handle_def sel_apply.simps
  from inv have wf: "distinct (selectedTargets a)" "distinct (selectedHosts a)"
    "set (selectedHosts a) \<subseteq> set (app_hosts a)"
    by (auto simp: sel_inv_def)
  show "sel_inv b"
  proof (cases act)
    case (ToggleHost h)
    show ?thesis unfolding ToggleHost hosts
      by (rule sel_inv_settle)
        (use wf en ToggleHost in \<open>auto simp: touched_def toggleHost_def obj_simps
          filteredHostsForDisplay_def split: if_splits\<close>)
  next
    case ToggleAllHosts
    show ?thesis unfolding ToggleAllHosts hosts
      by (rule sel_inv_settle) (use wf in \<open>auto simp: touched_def toggleAllHosts_def obj_simps\<close>)
  next
    case (ToggleTarget t)
    with inv en b show ?thesis
      by (auto simp: sel_handle_def settle_untouched touched_def clean_def sel_inv_def
          toggleTarget_def app_reachable_def obj_simps filteredTargetsForDisplay_def split: if_splits)
  next
    case ToggleAllTargets
    with inv b show ?thesis
      by (auto simp: sel_handle_def settle_untouched touched_def clean_def sel_inv_def
          toggleAllTargets_def app_reachable_def obj_simps)
  next
    case ToggleHideOffline
    show ?thesis unfolding ToggleHideOffline hosts
      by (rule sel_inv_settle) (use wf in \<open>auto simp: touched_def\<close>)
  next
    case (FilterToHost i)
    show ?thesis unfolding FilterToHost hosts
      by (rule sel_inv_settle)
        (use wf en FilterToHost in \<open>auto simp: touched_def filterToHost_def obj_simps\<close>)
  next
    case ResetView
    show ?thesis unfolding ResetView hosts
      by (rule sel_inv_settle) (use wf in \<open>auto simp: touched_def resetView_def obj_simps\<close>)
  next
    case (Loaded out)
    with inv b show ?thesis by (simp add: sel_handle_def fetchData_inv)
  qed
qed

interpretation sel: step_invariant "sel_step redact sf" "\<lambda>a. a = app_init inner" sel_inv
  by unfold_locales (simp add: sel_inv_def app_init_def, erule (1) sel_inv_step)

lemma all_selected_iff:
  assumes "sel_inv a" and "distinct (map n_id (app_nodes a))"
  shows "length (selectedTargets a) = length (app_reachable a)
    \<longleftrightarrow> set (selectedTargets a) = set (app_reachable a)"
proof -
  have "distinct (app_reachable a)"
    using assms(2) by (simp add: app_reachable_def distinct_reachableTargets)
  then show ?thesis
    using assms(1) lset.size_eq_iff [of "selectedTargets a" "set (app_reachable a)"]
    by (simp add: sel_inv_def distinct_card)
qed

lemma all_hosts_selected_iff:
  "sel_inv a \<Longrightarrow> distinct (app_hosts a) \<Longrightarrow>
     length (selectedHosts a) = length (app_hosts a) \<longleftrightarrow> set (selectedHosts a) = set (app_hosts a)"
  using lset.size_eq_iff [of "selectedHosts a" "set (app_hosts a)"]
  by (simp add: sel_inv_def distinct_card)

end
