(* ===== verification/CommandUtils.thy ===== *)
theory CommandUtils
  imports JsValue
begin

text \<open>
  \<open>utils/commandUtils.ts\<close>: the classification of a ping result and the colours of the
  badges and of the graph edges. The abstract specification is a five way classification
  (\<open>connection\<close>) with one rendering per class.
\<close>

definition EDGE_DIRECT :: string where "EDGE_DIRECT = ''#22c55e''"
definition EDGE_PEER_API :: string where "EDGE_PEER_API = ''#3b82f6''"
definition EDGE_PEER_RELAY :: string where "EDGE_PEER_RELAY = ''#9333ea''"
definition EDGE_DERP :: string where "EDGE_DERP = ''#ea580c''"

definition BADGE_DIRECT :: string where "BADGE_DIRECT = ''bg-green-600''"
definition BADGE_PEER_API :: string where "BADGE_PEER_API = ''bg-blue-600''"
definition BADGE_PEER_RELAY :: string where "BADGE_PEER_RELAY = ''bg-purple-600''"
definition BADGE_DERP :: string where "BADGE_DERP = ''bg-orange-600''"
definition BADGE_UNKNOWN :: string where "BADGE_UNKNOWN = ''bg-gray-600''"

lemmas palette_defs =
  EDGE_DIRECT_def EDGE_PEER_API_def EDGE_PEER_RELAY_def EDGE_DERP_def
  BADGE_DIRECT_def BADGE_PEER_API_def BADGE_PEER_RELAY_def BADGE_DERP_def BADGE_UNKNOWN_def

record connection_info =
  ci_label :: string
  ci_color :: string
  ci_edgeColor :: string

text \<open>\<open>x && x !== empty\<close> on a property of a truthy value, where no read throws.\<close>

definition getConnectionType :: "jsv \<Rightarrow> connection_info" where
  "getConnectionType result =
     (if \<not> truthy result then
        \<lparr>ci_label = ''unknown'', ci_color = BADGE_UNKNOWN, ci_edgeColor = EDGE_DIRECT\<rparr>
      else if truthy (js_opt_prop result ''PeerRelay'')
              \<and> js_opt_prop result ''PeerRelay'' \<noteq> JStr [] then
        \<lparr>ci_label = ''peer-relay'', ci_color = BADGE_PEER_RELAY, ci_edgeColor = EDGE_PEER_RELAY\<rparr>
      else if truthy (js_opt_prop result ''DERPRegionID'')
              \<and> js_opt_prop result ''DERPRegionID'' \<noteq> JNum 0 then
        \<lparr>ci_label = ''DERP'', ci_color = BADGE_DERP, ci_edgeColor = EDGE_DERP\<rparr>
      else if truthy (js_opt_prop result ''PeerAPIURL'')
              \<and> js_opt_prop result ''PeerAPIURL'' \<noteq> JStr [] then
        \<lparr>ci_label = ''peer-api'', ci_color = BADGE_PEER_API, ci_edgeColor = EDGE_PEER_API\<rparr>
      else
        \<lparr>ci_label = ''direct'', ci_color = BADGE_DIRECT, ci_edgeColor = EDGE_DIRECT\<rparr>)"

definition getEdgeColorFromResult :: "jsv \<Rightarrow> string" where
  "getEdgeColorFromResult result = ci_edgeColor (getConnectionType result)"

section \<open>Specification: a classification and its rendering\<close>

datatype connection = Unknown | PeerRelay | DERP | PeerAPI | Direct

fun render_connection :: "connection \<Rightarrow> connection_info" where
  "render_connection Unknown = \<lparr>ci_label = ''unknown'', ci_color = BADGE_UNKNOWN, ci_edgeColor = EDGE_DIRECT\<rparr>"
| "render_connection PeerRelay = \<lparr>ci_label = ''peer-relay'', ci_color = BADGE_PEER_RELAY, ci_edgeColor = EDGE_PEER_RELAY\<rparr>"
| "render_connection DERP = \<lparr>ci_label = ''DERP'', ci_color = BADGE_DERP, ci_edgeColor = EDGE_DERP\<rparr>"
| "render_connection PeerAPI = \<lparr>ci_label = ''peer-api'', ci_color = BADGE_PEER_API, ci_edgeColor = EDGE_PEER_API\<rparr>"
| "render_connection Direct = \<lparr>ci_label = ''direct'', ci_color = BADGE_DIRECT, ci_edgeColor = EDGE_DIRECT\<rparr>"

text \<open>The first evidence that is present decides, a relay before DERP before the peer API.\<close>

definition evidence :: "(string \<times> connection) list" where
  "evidence = [(''PeerRelay'', PeerRelay), (''DERPRegionID'', DERP), (''PeerAPIURL'', PeerAPI)]"

definition classify :: "jsv \<Rightarrow> connection" where
  "classify result =
     (if \<not> truthy result then Unknown
      else case filter (\<lambda>(k, _). truthy (js_opt_prop result k)) evidence of
             [] \<Rightarrow> Direct
           | (_, c) # _ \<Rightarrow> c)"

lemma truthy_distinct: "truthy v \<Longrightarrow> v \<noteq> JStr [] \<and> v \<noteq> JNum 0"
  by (cases v) auto

lemma connection_refines: "getConnectionType r = render_connection (classify r)"
  by (auto simp: getConnectionType_def classify_def evidence_def dest: truthy_distinct)

lemma render_inj: "render_connection a = render_connection b \<Longrightarrow> a = b"
  by (cases a; cases b) (auto simp: palette_defs)

lemma edge_color_cases:
  "getEdgeColorFromResult r \<in> {EDGE_DIRECT, EDGE_PEER_API, EDGE_PEER_RELAY, EDGE_DERP}"
  by (cases "classify r") (simp_all add: getEdgeColorFromResult_def connection_refines)

lemma edge_color_nonempty: "getEdgeColorFromResult r \<noteq> []"
  using edge_color_cases [of r] by (auto simp: palette_defs)

end
