(* ===== verification/Ping.thy ===== *)
theory Ping
  imports Selection CommandUtils
begin

text \<open>
  The ping command (\<open>App.tsx\<close>: \<open>selectedHostsHaveEdges\<close>, \<open>getTargetedCombinations\<close>,
  \<open>fetchPing\<close>) and the colouring of the edges it leads to (\<open>filteredEdges\<close>).
\<close>

section \<open>Combinations of hosts and targets\<close>

fun some_pair_linked :: "edge list \<Rightarrow> string list \<Rightarrow> bool" where
  "some_pair_linked edges [] = False"
| "some_pair_linked edges (h # hs) =
     (list_ex (\<lambda>k. has_edge edges h k \<or> has_edge edges k h) hs \<or> some_pair_linked edges hs)"

definition selectedHostsHaveEdges :: "app \<Rightarrow> bool" where
  "selectedHostsHaveEdges a =
     (if length (selectedHosts a) < 2 then False
      else some_pair_linked (app_edges a) (selectedHosts a))"

definition targets_for_host ::
    "string list \<Rightarrow> string list \<Rightarrow> edge list \<Rightarrow> string \<Rightarrow> string list" where
  "targets_for_host sourceHosts targetPeers edgeList hostId =
     foldl (\<lambda>s other.
         if other \<noteq> hostId \<and> (has_edge edgeList hostId other \<or> has_edge edgeList other hostId)
         then set_add other s else s)
       (new_set targetPeers) sourceHosts"

definition getTargetedCombinations ::
    "string list \<Rightarrow> string list \<Rightarrow> edge list \<Rightarrow> (string \<times> string) list" where
  "getTargetedCombinations sourceHosts targetPeers edgeList =
     concat (map (\<lambda>hostId.
         map (\<lambda>peerId. (hostId, peerId))
           (filter (\<lambda>peerId. has_edge edgeList hostId peerId)
             (targets_for_host sourceHosts targetPeers edgeList hostId)))
       sourceHosts)"

text \<open>\<open>disabled\<close> of the ping button.\<close>

definition ping_disabled :: "app \<Rightarrow> bool" where
  "ping_disabled a \<longleftrightarrow>
     length (selectedHosts a) = 0
     \<or> (length (selectedTargets a) = 0 \<and> \<not> selectedHostsHaveEdges a)
     \<or> statusLoading a"

section \<open>The request\<close>

definition group_targets :: "(string \<times> string) list \<Rightarrow> (string \<times> string list) list" where
  "group_targets combos =
     foldl (\<lambda>m (hostId, peerId).
         map_set hostId ((case map_of m hostId of None \<Rightarrow> [] | Some ts \<Rightarrow> ts) @ [peerId]) m)
       [] combos"

definition ping_combinations :: "app \<Rightarrow> (string \<times> string) list" where
  "ping_combinations a =
     getTargetedCombinations (new_set (filterOnline (app_nodes a) (selectedHosts a)))
       (new_set (filterOnline (app_nodes a) (selectedTargets a))) (app_edges a)"

definition ping_request :: "app \<Rightarrow> ping_input" where
  "ping_request a =
     \<lparr>pi_count = pingCount a, pi_pingType = pingType a,
      pi_delay = show_int (pingDelay a) @ ''ms'', pi_args = group_targets (ping_combinations a)\<rparr>"

section \<open>The results\<close>

definition edge_key :: "string \<Rightarrow> string \<Rightarrow> string" where
  "edge_key host target = host @ ''-'' @ target"

type_synonym ping_results = "jsv jsobj jsobj"

definition put_result :: "string \<Rightarrow> string \<Rightarrow> jsv \<Rightarrow> ping_results \<Rightarrow> ping_results" where
  "put_result host target v results =
     obj_set host
       (obj_set target v (case obj_get results host of None \<Rightarrow> [] | Some m \<Rightarrow> m)) results"

text \<open>The colour an entry of the response gives its edge: that of its last result.\<close>

definition last_color :: "jsv \<Rightarrow> string option" where
  "last_color pingResults =
     (case pingResults of
        JArr xs \<Rightarrow> if xs = [] then None else Some (getEdgeColorFromResult (last xs))
      | JStr s \<Rightarrow> if s = [] then None else Some (getEdgeColorFromResult (JStr [last s]))
      | _ \<Rightarrow> None)"

definition add_ping_result ::
    "jsv \<Rightarrow> ping_results \<times> string jsobj \<Rightarrow> (ping_results \<times> string jsobj) js_result" where
  "add_ping_result pingResult st =
     exn_bind (js_prop pingResult ''host'') (\<lambda>host.
     exn_bind (js_prop pingResult ''target'') (\<lambda>target.
     exn_bind (js_prop pingResult ''results'') (\<lambda>pingResults.
       Inr (put_result (to_str host) (to_str target) pingResults (fst st),
            case last_color pingResults of
              None \<Rightarrow> snd st
            | Some c \<Rightarrow> obj_set (edge_key (to_str host) (to_str target)) c (snd st)))))"

text \<open>The loop over the entries: on an exception, what was stored before it stays.\<close>

fun add_ping_results ::
    "jsv list \<Rightarrow> ping_results \<times> string jsobj \<Rightarrow> exn option \<times> (ping_results \<times> string jsobj)" where
  "add_ping_results [] st = (None, st)"
| "add_ping_results (x # xs) st =
     (case add_ping_result x st of
        Inl e \<Rightarrow> (Some e, st)
      | Inr st' \<Rightarrow> add_ping_results xs st')"

definition error_object :: "string \<Rightarrow> jsv" where
  "error_object m = JObj [(''error'', JStr m)]"

text \<open>
  The \<open>catch\<close> block: every requested target gets the error. (A host of the map always has
  at least one target, so creating its empty object first changes nothing.)
\<close>

definition mark_errored ::
    "(string \<times> string list) list \<Rightarrow> exn \<Rightarrow> ping_results \<Rightarrow> ping_results" where
  "mark_errored hostTargets e results =
     foldl (\<lambda>r (hostId, targets).
         foldl (\<lambda>r' t. put_result hostId t (error_object (message_or e ''Unknown error'')) r')
           r targets)
       results hostTargets"

definition ping_outcome ::
    "(string \<times> string list) list \<Rightarrow> jsv js_result \<Rightarrow> ping_results \<times> string jsobj" where
  "ping_outcome hostTargets outcome =
     (case outcome of
        Inl e \<Rightarrow> (mark_errored hostTargets e [], [])
      | Inr data \<Rightarrow>
          (case data of
             JArr xs \<Rightarrow>
               (case add_ping_results xs ([], []) of
                  (None, st) \<Rightarrow> st
                | (Some e, (results, colors)) \<Rightarrow> (mark_errored hostTargets e results, colors))
           | _ \<Rightarrow> ([], [])))"

definition show_first :: "string list \<Rightarrow> app \<Rightarrow> app" where
  "show_first ks a =
     (case ks of
        firstHost # _ \<Rightarrow>
          if firstHost \<noteq> [] then a\<lparr>selectedOutputHost := Some firstHost\<rparr> else a
      | [] \<Rightarrow> a)"

definition ping_results_json :: "ping_results \<Rightarrow> jsv jsobj" where
  "ping_results_json r = map (\<lambda>(h, m). (h, JObj m)) r"

definition fetchPing_begin :: "app \<Rightarrow> app" where
  "fetchPing_begin a =
     a\<lparr>app_stream := cancelStreaming False (app_stream a), statusLoading := True,
       lastCommand := ''Ping''\<rparr>"

definition fetchPing_finish :: "(string \<times> string list) list \<Rightarrow> jsv js_result \<Rightarrow> app \<Rightarrow> app" where
  "fetchPing_finish hostTargets outcome a =
     (case ping_outcome hostTargets outcome of
        (results, newEdgeColors) \<Rightarrow>
          (show_first (obj_keys results)
             (a\<lparr>edgeColors := obj_spread (edgeColors a) newEdgeColors,
                outputData := ping_results_json results,
                statusPanelOpen := True\<rparr>))\<lparr>statusLoading := False\<rparr>)"

definition fetchPing :: "page_env \<Rightarrow> network \<Rightarrow> app \<Rightarrow> app" where
  "fetchPing env net a =
     fetchPing_finish (group_targets (ping_combinations a))
       (executePing env net (ping_request a)) (fetchPing_begin a)"

section \<open>The displayed graph\<close>

text \<open>An edge with the fill the map of colours gives it, if any (an empty colour is none).\<close>

definition filteredEdges :: "app \<Rightarrow> (edge \<times> string option) list" where
  "filteredEdges a =
     map (\<lambda>e. (e, case obj_get (edgeColors a) (edge_key (e_source e) (e_target e)) of
                     Some c \<Rightarrow> if c \<noteq> [] then Some c else None
                   | None \<Rightarrow> None))
       (filter (\<lambda>e. set_has (selectedHosts a) (e_source e)) (app_edges a))"

definition filteredNodes :: "app \<Rightarrow> node list" where
  "filteredNodes a =
     filter (\<lambda>n. set_has (selectedHosts a) (n_id n)
                  \<or> (set_has (selectedTargets a) (n_id n) \<and> length (selectedHosts a) > 0))
       (app_nodes a)"

section \<open>Lemmas: combinations\<close>

lemma set_fold_add_if:
  "set (foldl (\<lambda>s t. if P t then set_add t s else s) s xs) = set s \<union> {t \<in> set xs. P t}"
  by (induction xs arbitrary: s) (auto simp: set_elems)

lemma distinct_fold_add_if:
  "distinct s \<Longrightarrow> distinct (foldl (\<lambda>s t. if P t then set_add t s else s) s xs)"
  by (induction xs arbitrary: s) (auto simp: lset.wf_add)

lemma set_targets_for_host:
  "set (targets_for_host S T E h) =
     set T \<union> {k \<in> set S. k \<noteq> h \<and> (has_edge E h k \<or> has_edge E k h)}"
  by (simp add: targets_for_host_def set_fold_add_if set_new_set)

lemma distinct_targets_for_host: "distinct (targets_for_host S T E h)"
  by (simp add: targets_for_host_def distinct_fold_add_if distinct_new_set)

lemma in_combinations:
  "(h, p) \<in> set (getTargetedCombinations S T E) \<longleftrightarrow>
     h \<in> set S \<and> has_edge E h p \<and> (p \<in> set T \<or> (p \<in> set S \<and> p \<noteq> h))"
  by (auto simp: getTargetedCombinations_def set_targets_for_host)

lemma distinct_concat_pairs:
  "\<lbrakk>distinct hs; \<And>h. h \<in> set hs \<Longrightarrow> distinct (f h)\<rbrakk> \<Longrightarrow> distinct (concat (map (\<lambda>h. map (Pair h) (f h)) hs))"
  by (induction hs) (auto simp: distinct_map inj_on_def)

lemma distinct_combinations: "distinct S \<Longrightarrow> distinct (getTargetedCombinations S T E)"
  unfolding getTargetedCombinations_def
  by (rule distinct_concat_pairs) (simp_all add: distinct_targets_for_host)

end
