(* ===== verification/Commands.thy ===== *)
theory Commands
  imports Ping
begin

text \<open>
  The other commands of \<open>App.tsx\<close>: the seven that send the online selected hosts to one
  endpoint and store one entry per host, the DNS query, the profiles, and the two that start
  a stream. Each asynchronous handler is split at its \<open>await\<close>: \<open>_begin\<close> is what runs at the
  click, \<open>_finish\<close> what runs when the response is there, so that other events can be placed
  between the two.
\<close>

section \<open>Entries of a response\<close>

definition error_entry :: "jsv \<Rightarrow> jsv" where
  "error_entry e = JObj [(''error'', e)]"

text \<open>\<open>statusResult.host || 'unknown'\<close>, as a property key\<close>

definition host_key :: "jsv \<Rightarrow> string" where
  "host_key x = to_str (js_or (js_opt_prop x ''host'') (JStr ''unknown''))"

definition host_entry :: "jsv \<Rightarrow> (string \<times> jsv) js_result" where
  "host_entry x =
     exn_bind (js_prop x ''host'') (\<lambda>_.
       let error = js_opt_prop x ''error''
       in Inr (host_key x, if truthy error then error_entry error else js_opt_prop x ''result''))"

definition goroutines_entry :: "jsv \<Rightarrow> (string \<times> jsv) js_result" where
  "goroutines_entry x =
     exn_bind (js_prop x ''host'') (\<lambda>_.
       let error = js_opt_prop x ''error''; result = js_opt_prop x ''result''
       in Inr (host_key x,
            if truthy error then error_entry error
            else if truthy result then
              (case atob (to_str result) of
                 Some text \<Rightarrow> JStr text
               | None \<Rightarrow> error_object ''Failed to decode goroutines data'')
            else error_object ''No data returned''))"

definition dns_entry :: "jsv \<Rightarrow> (string \<times> jsv) js_result" where
  "dns_entry x =
     exn_bind (js_prop x ''host'') (\<lambda>_.
       Inr (host_key x,
         JObj [(''error'', js_opt_prop x ''error''), (''header'', js_opt_prop x ''header''),
               (''responses'', js_opt_prop x ''responses''),
               (''resolvers'', js_opt_prop x ''resolvers'')]))"

text \<open>The loop over the response; a response that is no array leaves the results empty.\<close>

definition collect_results ::
    "(jsv \<Rightarrow> (string \<times> jsv) js_result) \<Rightarrow> jsv \<Rightarrow> jsv jsobj js_result" where
  "collect_results entry data =
     (case data of
        JArr xs \<Rightarrow> exn_bind (exn_map entry xs) (\<lambda>rows. Inr (assign_all obj_set [] rows))
      | _ \<Rightarrow> Inr [])"

section \<open>The host commands\<close>

definition onlineSelectedHosts :: "app \<Rightarrow> string list" where
  "onlineSelectedHosts a = filterOnline (app_nodes a) (selectedHosts a)"

definition command_begin :: "string \<Rightarrow> app \<Rightarrow> app" where
  "command_begin name a =
     a\<lparr>app_stream := cancelStreaming False (app_stream a), statusLoading := True,
       lastCommand := name\<rparr>"

definition show_results :: "jsv jsobj \<Rightarrow> app \<Rightarrow> app" where
  "show_results results a =
     show_first (obj_keys results) (a\<lparr>outputData := results, statusPanelOpen := True\<rparr>)"

definition command_finish ::
    "(jsv \<Rightarrow> (string \<times> jsv) js_result) \<Rightarrow> jsv js_result \<Rightarrow> app \<Rightarrow> app" where
  "command_finish entry outcome a =
     (case exn_bind outcome (collect_results entry) of
        Inl e \<Rightarrow> a
      | Inr results \<Rightarrow> show_results results a)\<lparr>statusLoading := False\<rparr>"

definition host_command ::
    "string \<Rightarrow> (jsv \<Rightarrow> (string \<times> jsv) js_result) \<Rightarrow> (string list \<Rightarrow> jsv js_result) \<Rightarrow> app \<Rightarrow> app" where
  "host_command name entry send a =
     (let b = command_begin name a; hs = onlineSelectedHosts a
      in if length hs = 0 then b\<lparr>statusLoading := False\<rparr>
         else command_finish entry (send hs) b)"

definition fetchStatus :: "page_env \<Rightarrow> network \<Rightarrow> app \<Rightarrow> app" where
  "fetchStatus env net a = host_command ''Status'' host_entry (api_fetchStatus env net) a"

definition fetchPrefs :: "page_env \<Rightarrow> network \<Rightarrow> app \<Rightarrow> app" where
  "fetchPrefs env net a = host_command ''Prefs'' host_entry (api_fetchPrefs env net) a"

definition fetchDriveShares :: "page_env \<Rightarrow> network \<Rightarrow> app \<Rightarrow> app" where
  "fetchDriveShares env net a =
     host_command ''Drive Shares'' host_entry (api_fetchDriveShares env net) a"

definition fetchDNSConfig :: "page_env \<Rightarrow> network \<Rightarrow> app \<Rightarrow> app" where
  "fetchDNSConfig env net a = host_command ''DNS Config'' host_entry (api_fetchDNSConfig env net) a"

definition fetchServeConfig :: "page_env \<Rightarrow> network \<Rightarrow> app \<Rightarrow> app" where
  "fetchServeConfig env net a =
     host_command ''Serve Config'' host_entry (api_fetchServeConfig env net) a"

definition fetchAppConnRoutes :: "page_env \<Rightarrow> network \<Rightarrow> app \<Rightarrow> app" where
  "fetchAppConnRoutes env net a =
     host_command ''AppConn Routes'' host_entry (api_fetchAppConnRoutes env net) a"

definition fetchGoroutines :: "page_env \<Rightarrow> network \<Rightarrow> app \<Rightarrow> app" where
  "fetchGoroutines env net a =
     host_command ''Goroutines'' goroutines_entry (api_fetchGoroutines env net) a"

section \<open>The DNS query\<close>

definition alert :: "string \<Rightarrow> app \<Rightarrow> app" where
  "alert message a = a\<lparr>alerts := alerts a @ [message]\<rparr>"

definition closeQueryDNSModal :: "app \<Rightarrow> app" where
  "closeQueryDNSModal a = a\<lparr>showQueryDNSModal := False, dnsName := [], dnsQueryType := ''A''\<rparr>"

definition dns_query :: "app \<Rightarrow> dns_input" where
  "dns_query a =
     \<lparr>di_hosts = onlineSelectedHosts a, di_name = dnsName a, di_queryType = dnsQueryType a\<rparr>"

definition alert_error :: "exn \<Rightarrow> app \<Rightarrow> app" where
  "alert_error e a = alert (''Error: '' @ message_or e ''Unknown error'') a"

definition fetchQueryDNS_finish :: "jsv js_result \<Rightarrow> app \<Rightarrow> app" where
  "fetchQueryDNS_finish outcome a =
     (case exn_bind outcome (collect_results dns_entry) of
        Inl e \<Rightarrow> alert_error e a
      | Inr results \<Rightarrow> closeQueryDNSModal (show_results results a))\<lparr>statusLoading := False\<rparr>"

definition fetchQueryDNS :: "page_env \<Rightarrow> network \<Rightarrow> app \<Rightarrow> app" where
  "fetchQueryDNS env net a =
     (if js_trim (dnsName a) = [] then alert ''Please enter a DNS name to query'' a
      else
        let b = command_begin ''Query DNS'' a
        in if length (onlineSelectedHosts a) = 0
           then (alert ''No online hosts selected'' b)\<lparr>statusLoading := False\<rparr>
           else fetchQueryDNS_finish (executeQueryDNS env net (dns_query a)) b)"

section \<open>Profiles\<close>

definition needsDuration :: "string \<Rightarrow> bool" where
  "needsDuration ty \<longleftrightarrow>
     ty \<in> set [''profile'', ''threadcreate'', ''mutex'', ''heap'', ''block'', ''allocs'']"

definition allowsZero :: "string \<Rightarrow> bool" where
  "allowsZero ty \<longleftrightarrow> ty \<in> set [''allocs'', ''block'', ''heap'', ''mutex'', ''threadcreate'']"

definition minDuration :: "string \<Rightarrow> int" where
  "minDuration ty = (if allowsZero ty then 0 else 1)"

text \<open>\<open>NaN\<close> is \<open>None\<close>.\<close>

definition duration_invalid :: "string \<Rightarrow> string \<Rightarrow> bool" where
  "duration_invalid ty text \<longleftrightarrow>
     needsDuration ty
     \<and> (case parse_int10 text of
          None \<Rightarrow> True
        | Some duration \<Rightarrow> duration < minDuration ty \<or> duration > 300)"

definition duration_message :: "string \<Rightarrow> string" where
  "duration_message ty =
     ''Duration must be between '' @ show_int (minDuration ty) @ '' and 300 seconds''"

definition pprof_request :: "app \<Rightarrow> pprof_input" where
  "pprof_request a =
     \<lparr>pp_hosts = onlineSelectedHosts a, pp_type = pprofType a,
      pp_seconds = (if needsDuration (pprofType a) then parse_int10 (pprofDuration a) else None)\<rparr>"

definition pprof_entry :: "string \<Rightarrow> string \<times> string js_result \<Rightarrow> string \<times> jsv" where
  "pprof_entry ty hf =
     (case hf of (hostId, outcome) \<Rightarrow>
        (hostId,
         case outcome of
           Inr pprofData \<Rightarrow>
             JObj [(''data'', JBuf pprofData), (''hostname'', JStr hostId), (''pprofType'', JStr ty)]
         | Inl e \<Rightarrow>
             JObj [(''error'', JStr (message_or e ''Failed to fetch pprof file'')),
                   (''pprofType'', JStr ty)]))"

text \<open>
  The files of the hosts, in the order their requests settle; \<open>ty\<close> is the type captured at
  the click.
\<close>

definition fetchPprof_finish ::
    "string \<Rightarrow> response js_result \<Rightarrow> (string \<times> string js_result) list \<Rightarrow> app \<Rightarrow> app" where
  "fetchPprof_finish ty outcome files a =
     (case outcome of
        Inl e \<Rightarrow> alert_error e a
      | Inr response \<Rightarrow>
          if \<not> rsp_ok response
          then alert (''Error: HTTP '' @ show_nat (rsp_status response)) a
          else (show_results (assign_all obj_set [] (map (pprof_entry ty) files)) a)
                 \<lparr>showPprofModal := False\<rparr>)\<lparr>statusLoading := False\<rparr>"

definition fetchPprof :: "page_env \<Rightarrow> network \<Rightarrow> (string list \<Rightarrow> string list) \<Rightarrow> app \<Rightarrow> app" where
  "fetchPprof env net settle_order a =
     (if duration_invalid (pprofType a) (pprofDuration a)
      then alert (duration_message (pprofType a)) a
      else
        let b = command_begin ''Pprof'' a; hs = onlineSelectedHosts a
        in if length hs = 0
           then (alert ''No online hosts selected'' b)\<lparr>statusLoading := False\<rparr>
           else fetchPprof_finish (pprofType a) (executePprof env net (pprof_request a))
                  (map (\<lambda>h. (h, fetchPprofFile env net h)) (settle_order hs)) b)"

definition closePprofModal :: "app \<Rightarrow> app" where
  "closePprofModal a = a\<lparr>showPprofModal := False, pprofType := ''profile'', pprofDuration := ''30''\<rparr>"

text \<open>The \<open>onChange\<close> of the type selector.\<close>

definition select_pprof_type :: "string \<Rightarrow> app \<Rightarrow> app" where
  "select_pprof_type newType a =
     (let b = a\<lparr>pprofType := newType\<rparr>
      in if allowsZero newType then b\<lparr>pprofDuration := ''0''\<rparr>
         else if newType = ''profile'' then b\<lparr>pprofDuration := ''30''\<rparr> else b)"

section \<open>Streams\<close>

definition streaming_status :: "string list \<Rightarrow> jsv jsobj" where
  "streaming_status hs =
     foldl (\<lambda>acc h. obj_set h (JObj [(''streaming'', JBool True)]) acc) [] hs"

definition fetch_stream :: "string \<Rightarrow> stream_type \<Rightarrow> bool \<Rightarrow> app \<Rightarrow> app" where
  "fetch_stream name ty ctor_ok a =
     (let hs = onlineSelectedHosts a
      in if length hs = 0 then alert ''Please select at least one online host'' a
         else a\<lparr>lastCommand := name, statusPanelOpen := True, selectedOutputHost := Some (hd hs),
                outputData := streaming_status hs,
                app_stream := startStream ty hs ctor_ok (app_stream a)\<rparr>)"

definition fetchLogs :: "bool \<Rightarrow> app \<Rightarrow> app" where
  "fetchLogs ctor_ok a = fetch_stream ''Logs'' Logs ctor_ok a"

definition fetchBusEvents :: "bool \<Rightarrow> app \<Rightarrow> app" where
  "fetchBusEvents ctor_ok a = fetch_stream ''Bus Events'' BusEvents ctor_ok a"

lemmas command_defs =
  fetchStatus_def fetchPrefs_def fetchDriveShares_def fetchDNSConfig_def fetchServeConfig_def
  fetchAppConnRoutes_def fetchGoroutines_def

lemmas host_apis =
  api_fetchStatus_def api_fetchPrefs_def api_fetchDriveShares_def api_fetchDNSConfig_def
  api_fetchServeConfig_def api_fetchAppConnRoutes_def api_fetchGoroutines_def

section \<open>The contract of a host command\<close>

lemma show_results_fields [simp]:
  "outputData (show_results r a) = r" "statusPanelOpen (show_results r a)"
  "lastCommand (show_results r a) = lastCommand a" "app_stream (show_results r a) = app_stream a"
  "alerts (show_results r a) = alerts a"
  "selectedOutputHost (show_results r a) =
     (case obj_keys r of k # _ \<Rightarrow> if k \<noteq> [] then Some k else selectedOutputHost a
      | [] \<Rightarrow> selectedOutputHost a)"
  by (auto simp: show_results_def show_first_def split: list.splits)

locale host_client =
  fixes name endpoint :: string
    and entry :: "jsv \<Rightarrow> (string \<times> jsv) js_result"
    and cmd :: "page_env \<Rightarrow> network \<Rightarrow> app \<Rightarrow> app"
  assumes cmd_runs: "cmd env net a = host_command name entry (fetchHostData env net endpoint) a"
    and entry_total: "x \<noteq> JUndef \<Longrightarrow> x \<noteq> JNull \<Longrightarrow> \<exists>v. entry x = Inr (host_key x, v)"
    and entry_error: "\<lbrakk>entry x = Inr (k, v); truthy (js_opt_prop x ''error'')\<rbrakk> \<Longrightarrow>
      v = JObj [(''error'', js_opt_prop x ''error'')]"
    and entry_null: "x = JUndef \<or> x = JNull \<Longrightarrow> \<exists>e. entry x = Inl e"
begin

lemma one_request:
  assumes "net (fetchHostData_request env endpoint (onlineSelectedHosts a)) =
      net' (fetchHostData_request env endpoint (onlineSelectedHosts a))"
  shows "cmd env net a = cmd env net' a"
  using assms by (simp add: cmd_runs host_command_def fetchHostData_def Let_def)

lemma ends: "\<not> statusLoading (cmd env net a) \<and> lastCommand (cmd env net a) = name
    \<and> app_stream (cmd env net a) = cancelStreaming False (app_stream a)"
  by (auto simp: cmd_runs host_command_def Let_def command_begin_def command_finish_def
      split: sum.splits)

lemma entry_rows:
  "\<forall>x \<in> set xs. x \<noteq> JUndef \<and> x \<noteq> JNull \<Longrightarrow>
     exn_map entry xs = Inr (map (\<lambda>x. (host_key x, snd (projr (entry x)))) xs)"
proof (induction xs)
  case (Cons x xs)
  then obtain v where "entry x = Inr (host_key x, v)" using entry_total by auto
  with Cons show ?case by simp
qed simp

lemma answered:
  assumes "onlineSelectedHosts a \<noteq> []"
    and "fetchHostData env net endpoint (onlineSelectedHosts a) = Inr (JArr xs)"
    and "\<forall>x \<in> set xs. x \<noteq> JUndef \<and> x \<noteq> JNull"
  shows "cmd env net a =
    (show_results (assign_all obj_set [] (map (\<lambda>x. (host_key x, snd (projr (entry x)))) xs))
       (command_begin name a))\<lparr>statusLoading := False\<rparr>"
  using assms by (simp add: cmd_runs host_command_def Let_def command_finish_def
      collect_results_def entry_rows)

lemma not_answered:
  assumes "onlineSelectedHosts a = []
      \<or> (\<exists>e. fetchHostData env net endpoint (onlineSelectedHosts a) = Inl e)"
  shows "cmd env net a = (command_begin name a)\<lparr>statusLoading := False\<rparr>"
  using assms by (auto simp: cmd_runs host_command_def Let_def command_finish_def)

end

text \<open>The seven commands, and the contract for each of them.\<close>

datatype host_cmd = Status | Prefs | DriveShares | DNSConfig | ServeConfig | AppConnRoutes | Goroutines

fun run_host_cmd :: "host_cmd \<Rightarrow> page_env \<Rightarrow> network \<Rightarrow> app \<Rightarrow> app" where
  "run_host_cmd Status env net a = fetchStatus env net a"
| "run_host_cmd Prefs env net a = fetchPrefs env net a"
| "run_host_cmd DriveShares env net a = fetchDriveShares env net a"
| "run_host_cmd DNSConfig env net a = fetchDNSConfig env net a"
| "run_host_cmd ServeConfig env net a = fetchServeConfig env net a"
| "run_host_cmd AppConnRoutes env net a = fetchAppConnRoutes env net a"
| "run_host_cmd Goroutines env net a = fetchGoroutines env net a"

fun cmd_name :: "host_cmd \<Rightarrow> string" where
  "cmd_name Status = ''Status''"
| "cmd_name Prefs = ''Prefs''"
| "cmd_name DriveShares = ''Drive Shares''"
| "cmd_name DNSConfig = ''DNS Config''"
| "cmd_name ServeConfig = ''Serve Config''"
| "cmd_name AppConnRoutes = ''AppConn Routes''"
| "cmd_name Goroutines = ''Goroutines''"

fun cmd_endpoint :: "host_cmd \<Rightarrow> string" where
  "cmd_endpoint Status = ''Status''"
| "cmd_endpoint Prefs = ''Prefs''"
| "cmd_endpoint DriveShares = ''DriveShares''"
| "cmd_endpoint DNSConfig = ''DNSConfig''"
| "cmd_endpoint ServeConfig = ''ServeConfig''"
| "cmd_endpoint AppConnRoutes = ''AppConnRoutes''"
| "cmd_endpoint Goroutines = ''Goroutines''"

fun cmd_entry :: "host_cmd \<Rightarrow> jsv \<Rightarrow> (string \<times> jsv) js_result" where
  "cmd_entry Goroutines = goroutines_entry"
| "cmd_entry _ = host_entry"

lemma run_host_cmd_eq:
  "run_host_cmd c env net a =
     host_command (cmd_name c) (cmd_entry c) (fetchHostData env net (cmd_endpoint c)) a"
  by (cases c) (simp_all add: command_defs host_apis host_command_def command_finish_def
      collect_results_def Let_def cong: if_cong)

lemma js_prop_ok: "x \<noteq> JUndef \<Longrightarrow> x \<noteq> JNull \<Longrightarrow> \<exists>v. js_prop x k = Inr v"
  using js_prop_throws [of x k] by (cases "js_prop x k") auto

lemma cmd_entry_total: "x \<noteq> JUndef \<Longrightarrow> x \<noteq> JNull \<Longrightarrow> \<exists>v. cmd_entry c x = Inr (host_key x, v)"
  using js_prop_ok [of x "''host''"] by (cases c) (auto simp: host_entry_def goroutines_entry_def Let_def)

interpretation hc: host_client "cmd_name c" "cmd_endpoint c" "cmd_entry c" "run_host_cmd c"
  for c :: host_cmd
proof
  fix env net a x k v
  show "run_host_cmd c env net a =
      host_command (cmd_name c) (cmd_entry c) (fetchHostData env net (cmd_endpoint c)) a"
    by (rule run_host_cmd_eq)
  show "x \<noteq> JUndef \<Longrightarrow> x \<noteq> JNull \<Longrightarrow> \<exists>v. cmd_entry c x = Inr (host_key x, v)"
    by (rule cmd_entry_total)
  show "\<lbrakk>cmd_entry c x = Inr (k, v); truthy (js_opt_prop x ''error'')\<rbrakk> \<Longrightarrow>
      v = JObj [(''error'', js_opt_prop x ''error'')]"
    by (cases c) (auto simp: host_entry_def goroutines_entry_def error_entry_def Let_def
        exn_bind_def split: sum.splits)
  show "x = JUndef \<or> x = JNull \<Longrightarrow> \<exists>e. cmd_entry c x = Inl e"
    by (cases c) (auto simp: host_entry_def goroutines_entry_def)
qed

end
