(* ===== verification/Keyboard.thy ===== *)
theory Keyboard
  imports Commands
begin

text \<open>
  \<open>hooks/useKeyboardShortcuts.ts\<close> and the ping settings of \<open>components/GraphControls.tsx\<close>.
  The calls on the graph canvas (a third-party component) are recorded in a log, and the
  close callback of the context menu is a flag.
\<close>

section \<open>Events and the state they act on\<close>

datatype camera_call = PanDown | PanUp | PanRight | PanLeft | FitNodesInView

record key_event =
  ke_key :: string
  ke_shift :: bool
  ke_ctrl :: bool
  ke_tag :: string \<comment> \<open>\<open>tagName\<close> of the target\<close>

record view =
  v_app :: app
  v_menu :: bool \<comment> \<open>\<open>contextMenuCloseRef\<close> holds a callback\<close>
  v_graph :: bool \<comment> \<open>\<open>graphRef\<close> holds a canvas\<close>
  v_camera :: "camera_call list"
  v_prevented :: bool \<comment> \<open>\<open>preventDefault\<close> was called\<close>

definition PAN_SPEED :: nat where "PAN_SPEED = 3"

definition on_app :: "(app \<Rightarrow> app) \<Rightarrow> view \<Rightarrow> view" where
  "on_app f v = v\<lparr>v_app := f (v_app v)\<rparr>"

definition prevent :: "view \<Rightarrow> view" where
  "prevent v = v\<lparr>v_prevented := True\<rparr>"

text \<open>\<open>indexOf\<close> and \<open>findIndex\<close>\<close>

definition index_of :: "string list \<Rightarrow> string \<Rightarrow> int" where
  "index_of xs x =
     (let i = length (takeWhile (\<lambda>y. y \<noteq> x) xs) in if i < length xs then int i else - 1)"

text \<open>The next position in a cycle of \<open>n\<close>, \<open>n > 0\<close>: the left operand of \<open>%\<close> is never negative.\<close>

definition cycle_index :: "nat \<Rightarrow> bool \<Rightarrow> int \<Rightarrow> nat" where
  "cycle_index n back i = nat ((if back then i - 1 + int n else i + 1) mod int n)"

section \<open>The handlers\<close>

definition handleEscapeKey :: "view \<Rightarrow> view" where
  "handleEscapeKey v =
     (let v1 = (if v_menu v then v\<lparr>v_menu := False\<rparr> else v);
          v2 = (if showQueryDNSModal (v_app v) then on_app closeQueryDNSModal v1 else v1)
      in if showPprofModal (v_app v) then on_app closePprofModal v2 else v2)"

definition handleSpacebarKey :: "int \<Rightarrow> view \<Rightarrow> view" where
  "handleSpacebarKey innerHeight v =
     prevent (on_app (\<lambda>a.
       let p = app_panel a in
       if statusPanelHeight p \<le> MIN_HEIGHT then
         let targetHeight = (if previousPanelHeight p > MIN_HEIGHT then previousPanelHeight p
                             else \<lfloor>of_int innerHeight * (1/2 :: rat)\<rfloor>)
         in a\<lparr>app_panel := p\<lparr>statusPanelHeight := targetHeight\<rparr>\<rparr>
       else a\<lparr>app_panel := p\<lparr>previousPanelHeight := statusPanelHeight p,
                               statusPanelHeight := MIN_HEIGHT\<rparr>\<rparr>) v)"

definition handleTabKey :: "bool \<Rightarrow> view \<Rightarrow> view" where
  "handleTabKey shiftKey v =
     (let hostKeys = obj_keys (outputData (v_app v)) in
      case selectedOutputHost (v_app v) of
        Some h \<Rightarrow>
          if length hostKeys > 1 \<and> h \<noteq> [] then
            prevent (on_app (\<lambda>a. a\<lparr>selectedOutputHost :=
              Some (hostKeys ! cycle_index (length hostKeys) shiftKey (index_of hostKeys h))\<rparr>) v)
          else v
      | None \<Rightarrow> v)"

definition handleBacktickKey :: "bool \<Rightarrow> view \<Rightarrow> view" where
  "handleBacktickKey shiftKey v =
     prevent (on_app (\<lambda>a. a\<lparr>layoutType :=
       LAYOUT_OPTIONS ! cycle_index (length LAYOUT_OPTIONS) shiftKey
         (index_of LAYOUT_OPTIONS (layoutType a))\<rparr>) v)"

text \<open>The setters and the effects that follow the change of the selected hosts.\<close>

definition handleResetKey :: "view \<Rightarrow> view" where
  "handleResetKey v =
     prevent (on_app (\<lambda>a. settle
       (a\<lparr>draggedNodes := [], layoutType := DEFAULT_LAYOUT,
          selectedHosts := new_set (app_hosts a),
          selectedTargets := new_set (targetNodes (app_nodes a) (app_hosts a)),
          graphKey := graphKey a + 1\<rparr>, clean\<lparr>d_selectedHosts := True\<rparr>)) v)"

definition camera :: "camera_call list \<Rightarrow> view \<Rightarrow> view" where
  "camera calls v = (if v_graph v then v\<lparr>v_camera := v_camera v @ calls\<rparr> else v)"

definition handleFitKey :: "view \<Rightarrow> view" where
  "handleFitKey v = camera [FitNodesInView] (prevent v)"

definition handleWASDKeys :: "string \<Rightarrow> view \<Rightarrow> view" where
  "handleWASDKeys key v =
     (if key = ''w'' then camera (replicate PAN_SPEED PanDown) v
      else if key = ''s'' then camera (replicate PAN_SPEED PanUp) v
      else if key = ''a'' then camera (replicate PAN_SPEED PanRight) v
      else if key = ''d'' then camera (replicate PAN_SPEED PanLeft) v
      else v)"

definition isInputField :: "key_event \<Rightarrow> bool" where
  "isInputField e \<longleftrightarrow> ke_tag e = ''INPUT'' \<or> ke_tag e = ''TEXTAREA'' \<or> ke_tag e = ''SELECT''"

definition handleKeyDown :: "int \<Rightarrow> key_event \<Rightarrow> view \<Rightarrow> view" where
  "handleKeyDown innerHeight e v =
     (let modalOpen = (showQueryDNSModal (v_app v) \<or> showPprofModal (v_app v)); key = ke_key e in
      if key = ''Escape'' then handleEscapeKey v
      else if isInputField e \<or> modalOpen then v
      else if key = '' '' then handleSpacebarKey innerHeight v
      else if key = ''Tab'' then
        (if statusPanelOpen (v_app v) then handleTabKey (ke_shift e) v else v)
      else if key = [CHR 0x60] then handleBacktickKey (ke_shift e) v
      else if key = ''r'' \<or> key = ''R'' then handleResetKey v
      else if key = ''f'' \<or> key = ''F'' then handleFitKey v
      else if key \<in> set [''w'', ''W'', ''a'', ''A'', ''s'', ''S'', ''d'', ''D'']
      then handleWASDKeys (to_lower key) v
      else v)"

section \<open>The settings of the ping\<close>

definition change_pingCount :: "string \<Rightarrow> app \<Rightarrow> app" where
  "change_pingCount text a =
     a\<lparr>pingCount := min 20 (max 1 (case parse_int_auto text of
         None \<Rightarrow> 1 | Some n \<Rightarrow> if n = 0 then 1 else n))\<rparr>"

definition change_pingDelay :: "string \<Rightarrow> app \<Rightarrow> app" where
  "change_pingDelay text a =
     a\<lparr>pingDelay := min 2000 (max 0 (case parse_int_auto text of
         None \<Rightarrow> 0 | Some n \<Rightarrow> if n = 0 then 0 else n))\<rparr>"

text \<open>The options of the selector, and the button that opens the settings.\<close>

definition PING_TYPES :: "string list" where
  "PING_TYPES = [''disco'', ''TSMP'', ''ICMP'', ''peerapi'']"

definition change_pingType :: "string \<Rightarrow> app \<Rightarrow> app" where
  "change_pingType ty a = (if ty \<in> set PING_TYPES then a\<lparr>pingType := ty\<rparr> else a)"

definition toggle_ping_settings :: "app \<Rightarrow> app" where
  "toggle_ping_settings a = a\<lparr>showPingSettings := \<not> showPingSettings a\<rparr>"

section \<open>Cycles\<close>

lemma index_of_nth: "distinct xs \<Longrightarrow> i < length xs \<Longrightarrow> index_of xs (xs ! i) = int i"
proof -
  assume d: "distinct xs" and i: "i < length xs"
  have "takeWhile (\<lambda>y. y \<noteq> xs ! i) xs = take i xs"
    by (rule takeWhile_eq_take_P_nth) (use d i in \<open>auto simp: nth_eq_iff_index_eq\<close>)
  then show ?thesis using i by (simp add: index_of_def)
qed

lemma index_of_bounds: "- 1 \<le> index_of xs x \<and> index_of xs x < int (length xs)"
  by (simp add: index_of_def Let_def)

lemma cycle_index_less: "0 < n \<Longrightarrow> cycle_index n back i < n"
  by (simp add: cycle_index_def nat_less_iff)

lemma cycle_forward: "0 < n \<Longrightarrow> cycle_index n False (int i) = Suc i mod n"
  by (simp add: cycle_index_def nat_mod_distrib nat_add_distrib)

lemma cycle_back: "i < n \<Longrightarrow> cycle_index n True (int (Suc i mod n)) = i"
proof (cases "Suc i = n")
  case False
  assume "i < n"
  with False have "Suc i mod n = Suc i" by simp
  then have "cycle_index n True (int (Suc i mod n)) = nat ((int i + int n) mod int n)"
    by (simp add: cycle_index_def)
  then show ?thesis using \<open>i < n\<close> by (simp add: nat_mod_distrib)
next
  case True
  then have "int (Suc i mod n) - 1 + int n = int i" by auto
  moreover assume "i < n"
  ultimately show ?thesis
    by (simp only: cycle_index_def if_True) (simp flip: of_nat_mod)
qed

text \<open>Repeated steps of a cycle: \<open>k\<close> steps from position \<open>i\<close> end at \<open>(i + k) mod n\<close>.\<close>

locale cyclic_choice =
  fixes options :: "'s \<Rightarrow> string list" and current :: "'s \<Rightarrow> string option"
    and stepf :: "bool \<Rightarrow> 's \<Rightarrow> 's" and ok :: "'s \<Rightarrow> bool"
  assumes distinct_options: "ok s \<Longrightarrow> distinct (options s)"
    and options_ne: "ok s \<Longrightarrow> options s \<noteq> []"
    and step_current: "\<lbrakk>ok s; current s = Some x; x \<in> set (options s)\<rbrakk> \<Longrightarrow>
      current (stepf back s) =
        Some (options s ! cycle_index (length (options s)) back (index_of (options s) x))"
    and step_ok: "\<lbrakk>ok s; current s = Some x; x \<in> set (options s)\<rbrakk> \<Longrightarrow> ok (stepf back s)"
    and step_options: "\<lbrakk>ok s; current s = Some x; x \<in> set (options s)\<rbrakk> \<Longrightarrow>
      options (stepf back s) = options s"
begin

lemma forward_steps:
  assumes "ok s" and "current s = Some (options s ! i)" and "i < length (options s)"
  shows "ok ((stepf False ^^ k) s) \<and> options ((stepf False ^^ k) s) = options s
    \<and> current ((stepf False ^^ k) s) = Some (options s ! ((i + k) mod length (options s)))"
proof (induction k)
  case (Suc k)
  let ?s = "(stepf False ^^ k) s" and ?n = "length (options s)"
  let ?j = "(i + k) mod ?n"
  have j: "?j < ?n" using options_ne [OF assms(1)] by simp
  from Suc have ok: "ok ?s" and opts: "options ?s = options s"
    and cur: "current ?s = Some (options s ! ?j)" by auto
  have pos: "0 < ?n" using options_ne [OF assms(1)] by simp
  have mem: "options s ! ?j \<in> set (options ?s)" using j opts by simp
  have "cycle_index ?n False (index_of (options s) (options s ! ?j)) = Suc ?j mod ?n"
    using j cycle_forward [OF pos] by (simp add: index_of_nth [OF distinct_options [OF assms(1)]])
  then show ?case
    using step_ok [OF ok cur mem] step_current [OF ok cur mem] step_options [OF ok cur mem] opts
    by (simp add: mod_Suc_eq)
qed (use assms in simp)

lemma full_cycle:
  "\<lbrakk>ok s; current s = Some x; x \<in> set (options s)\<rbrakk> \<Longrightarrow>
     current ((stepf False ^^ length (options s)) s) = Some x"
  using forward_steps [of s _ "length (options s)"] by (auto simp: in_set_conv_nth)

lemma back_inverse:
  assumes "ok s" and "current s = Some x" and "x \<in> set (options s)"
  shows "current (stepf True (stepf False s)) = Some x"
proof -
  from assms(3) obtain i where i: "i < length (options s)" "x = options s ! i"
    by (auto simp: in_set_conv_nth)
  let ?n = "length (options s)" and ?t = "stepf False s"
  have t: "ok ?t" "options ?t = options s" "current ?t = Some (options s ! (Suc i mod ?n))"
    using forward_steps [of s i 1] assms i by auto
  moreover have j: "Suc i mod ?n < ?n" using options_ne [OF assms(1)] by simp
  ultimately have "current (stepf True ?t) =
      Some (options s ! cycle_index ?n True (index_of (options s) (options s ! (Suc i mod ?n))))"
    using step_current [of ?t "options s ! (Suc i mod ?n)" True] by simp
  then show ?thesis
    using i j by (simp add: index_of_nth [OF distinct_options [OF assms(1)]] cycle_back)
qed

lemma reaches_all:
  assumes "ok s" and "current s = Some x" and "x \<in> set (options s)" and "y \<in> set (options s)"
  shows "\<exists>k < length (options s). current ((stepf False ^^ k) s) = Some y"
proof -
  let ?n = "length (options s)"
  from assms(3,4) obtain i j where i: "i < ?n" "x = options s ! i"
    and j: "j < ?n" "y = options s ! j" by (auto simp: in_set_conv_nth)
  let ?k = "(j + ?n - i) mod ?n"
  have "(i + ?k) mod ?n = j"
    using i(1) j(1) by (simp add: mod_add_right_eq)
  moreover have "?k < ?n" using options_ne [OF assms(1)] by simp
  ultimately show ?thesis
    using forward_steps [of s i ?k] assms(1,2) i j by auto
qed

end

lemma distinct_layouts: "distinct LAYOUT_OPTIONS" "LAYOUT_OPTIONS \<noteq> []" "length LAYOUT_OPTIONS = 15"
  by (simp_all add: LAYOUT_OPTIONS_def)

interpretation layouts: cyclic_choice "\<lambda>v. LAYOUT_OPTIONS" "\<lambda>v. Some (layoutType (v_app v))"
  handleBacktickKey "\<lambda>v. True"
  by unfold_locales
    (auto simp: distinct_layouts(1,2) handleBacktickKey_def prevent_def on_app_def)

definition output_hosts :: "view \<Rightarrow> string list" where
  "output_hosts v = obj_keys (outputData (v_app v))"

definition several_outputs :: "view \<Rightarrow> bool" where
  "several_outputs v \<longleftrightarrow>
     obj_wf (outputData (v_app v)) \<and> length (output_hosts v) > 1 \<and> [] \<notin> set (output_hosts v)"

lemma tab_step:
  assumes "several_outputs v" and "selectedOutputHost (v_app v) = Some x" and "x \<in> set (output_hosts v)"
  shows "handleTabKey back v =
    prevent (on_app (\<lambda>a. a\<lparr>selectedOutputHost :=
      Some (output_hosts v ! cycle_index (length (output_hosts v)) back (index_of (output_hosts v) x))\<rparr>) v)"
  using assms by (auto simp: handleTabKey_def Let_def several_outputs_def output_hosts_def)

interpretation tabs: cyclic_choice output_hosts "\<lambda>v. selectedOutputHost (v_app v)"
  handleTabKey several_outputs
proof
  fix v x bk
  assume ok: "several_outputs v"
  then show "distinct (output_hosts v)" "output_hosts v \<noteq> []"
    by (auto simp: several_outputs_def output_hosts_def distinct_obj_keys)
  assume cur: "selectedOutputHost (v_app v) = Some x" "x \<in> set (output_hosts v)"
  note step = tab_step [OF ok cur, of bk]
  show "selectedOutputHost (v_app (handleTabKey bk v)) =
      Some (output_hosts v ! cycle_index (length (output_hosts v)) bk (index_of (output_hosts v) x))"
    "several_outputs (handleTabKey bk v)" "output_hosts (handleTabKey bk v) = output_hosts v"
    using ok by (simp_all add: step prevent_def on_app_def several_outputs_def output_hosts_def)
qed

end
