(* ===== verification/StreamInvariant.thy ===== *)
theory StreamInvariant
  imports WebSocketStream
begin

text \<open>
  What every reachable state of the stream hook satisfies: the React state agrees with the
  refs, at most one keep-alive timer is live, the current socket is one the hook created
  and has not seen closed, and sockets only move forward in their life cycle.
\<close>

section \<open>Frames of the helper operations\<close>

lemma set_ready_frame [simp]:
  "wsRef (set_ready i r w) = wsRef w" "hostIdsRef (set_ready i r w) = hostIdsRef w"
  "lastPongTime (set_ready i r w) = lastPongTime w"
  "pingIntervalRef (set_ready i r w) = pingIntervalRef w"
  "streamTypeRef (set_ready i r w) = streamTypeRef w" "streamData (set_ready i r w) = streamData w"
  "isStreaming (set_ready i r w) = isStreaming w"
  "activeStreamType (set_ready i r w) = activeStreamType w"
  "timers (set_ready i r w) = timers w" "next_timer (set_ready i r w) = next_timer w"
  "mounted (set_ready i r w) = mounted w"
  "length (sockets (set_ready i r w)) = length (sockets w)"
  by (simp_all add: set_ready_def)

lemma sock_close_frame [simp]:
  "wsRef (sock_close i w) = wsRef w" "hostIdsRef (sock_close i w) = hostIdsRef w"
  "lastPongTime (sock_close i w) = lastPongTime w"
  "pingIntervalRef (sock_close i w) = pingIntervalRef w"
  "streamTypeRef (sock_close i w) = streamTypeRef w" "streamData (sock_close i w) = streamData w"
  "isStreaming (sock_close i w) = isStreaming w"
  "activeStreamType (sock_close i w) = activeStreamType w"
  "timers (sock_close i w) = timers w" "next_timer (sock_close i w) = next_timer w"
  "mounted (sock_close i w) = mounted w"
  "length (sockets (sock_close i w)) = length (sockets w)"
  by (simp_all add: sock_close_def)

lemma clear_timer_frame [simp]:
  "wsRef (clear_timer t w) = wsRef w" "hostIdsRef (clear_timer t w) = hostIdsRef w"
  "lastPongTime (clear_timer t w) = lastPongTime w"
  "pingIntervalRef (clear_timer t w) = pingIntervalRef w"
  "streamTypeRef (clear_timer t w) = streamTypeRef w" "streamData (clear_timer t w) = streamData w"
  "isStreaming (clear_timer t w) = isStreaming w"
  "activeStreamType (clear_timer t w) = activeStreamType w"
  "sockets (clear_timer t w) = sockets w" "next_timer (clear_timer t w) = next_timer w"
  "mounted (clear_timer t w) = mounted w"
  by (simp_all add: clear_timer_def split: option.splits)

lemma timers_clear_timer [simp]:
  "timers (clear_timer t w) = (case t of None \<Rightarrow> timers w | Some i \<Rightarrow> removeAll i (timers w))"
  by (simp add: clear_timer_def split: option.splits)

lemma sock_state_clear_timer [simp]: "sock_state (clear_timer t w) i = sock_state w i"
  by (simp add: sock_state_def)

lemma sock_state_set_ready:
  "sock_state (set_ready i r w) j = (if i = j \<and> i < length (sockets w) then r else sock_state w j)"
  by (simp add: sock_state_def set_ready_def)

lemma sock_handlers_set_ready [simp]:
  "j < length (sockets w) \<Longrightarrow> sk_type (sockets (set_ready i r w) ! j) = sk_type (sockets w ! j)"
  "j < length (sockets w) \<Longrightarrow> sk_hosts (sockets (set_ready i r w) ! j) = sk_hosts (sockets w ! j)"
  by (simp_all add: set_ready_def nth_update_total)

lemma sock_state_close:
  "sock_state (sock_close i w) j =
     (if i = j \<and> sock_state w i < CLOSING then CLOSING else sock_state w j)"
  by (auto simp: sock_close_def sock_state_set_ready)
    (simp add: sock_state_def less_ready_state_def)

lemma sock_handlers_close [simp]:
  "j < length (sockets w) \<Longrightarrow> sk_type (sockets (sock_close i w) ! j) = sk_type (sockets w ! j)"
  "j < length (sockets w) \<Longrightarrow> sk_hosts (sockets (sock_close i w) ! j) = sk_hosts (sockets w ! j)"
  by (simp_all add: sock_close_def)

lemma reset_refs_frame [simp]:
  "wsRef (reset_refs w) = None" "hostIdsRef (reset_refs w) = []"
  "lastPongTime (reset_refs w) = lastPongTime w"
  "pingIntervalRef (reset_refs w) = pingIntervalRef w"
  "streamTypeRef (reset_refs w) = None" "streamData (reset_refs w) = streamData w"
  "\<not> isStreaming (reset_refs w)" "activeStreamType (reset_refs w) = None"
  "sockets (reset_refs w) = sockets w" "timers (reset_refs w) = timers w"
  "next_timer (reset_refs w) = next_timer w" "mounted (reset_refs w) = mounted w"
  by (simp_all add: reset_refs_def)

lemma send_ping_frame [simp]:
  "wsRef (send_ping i w) = wsRef w" "hostIdsRef (send_ping i w) = hostIdsRef w"
  "lastPongTime (send_ping i w) = lastPongTime w"
  "pingIntervalRef (send_ping i w) = pingIntervalRef w"
  "streamTypeRef (send_ping i w) = streamTypeRef w" "streamData (send_ping i w) = streamData w"
  "isStreaming (send_ping i w) = isStreaming w"
  "activeStreamType (send_ping i w) = activeStreamType w"
  "timers (send_ping i w) = timers w" "next_timer (send_ping i w) = next_timer w"
  "mounted (send_ping i w) = mounted w"
  "length (sockets (send_ping i w)) = length (sockets w)"
  "sock_state (send_ping i w) j = sock_state w j"
  "j < length (sockets w) \<Longrightarrow> sk_type (sockets (send_ping i w) ! j) = sk_type (sockets w ! j)"
  "j < length (sockets w) \<Longrightarrow> sk_hosts (sockets (send_ping i w) ! j) = sk_hosts (sockets w ! j)"
  by (simp_all add: send_ping_def sock_state_def nth_update_total)

text \<open>Updates of the hook's own fields do not touch the sockets.\<close>

lemma sock_state_field_updates [simp]:
  "sock_state (w\<lparr>streamData := d\<rparr>) i = sock_state w i"
  "sock_state (w\<lparr>lastPongTime := n\<rparr>) i = sock_state w i"
  "sock_state (w\<lparr>pingIntervalRef := t\<rparr>) i = sock_state w i"
  "sock_state (w\<lparr>wsRef := s\<rparr>) i = sock_state w i"
  "sock_state (w\<lparr>hostIdsRef := h\<rparr>) i = sock_state w i"
  "sock_state (w\<lparr>streamTypeRef := y\<rparr>) i = sock_state w i"
  "sock_state (w\<lparr>isStreaming := b\<rparr>) i = sock_state w i"
  "sock_state (w\<lparr>activeStreamType := a\<rparr>) i = sock_state w i"
  "sock_state (w\<lparr>timers := ts\<rparr>) i = sock_state w i"
  "sock_state (w\<lparr>next_timer := k\<rparr>) i = sock_state w i"
  "sock_state (w\<lparr>mounted := m\<rparr>) i = sock_state w i"
  "sock_state (reset_refs w) i = sock_state w i"
  by (simp_all add: sock_state_def)

section \<open>What cancelling does to each field\<close>

lemma cancel_frame [simp]:
  "wsRef (cancelStreaming a w) = None" "hostIdsRef (cancelStreaming a w) = []"
  "lastPongTime (cancelStreaming a w) = 0" "pingIntervalRef (cancelStreaming a w) = None"
  "streamTypeRef (cancelStreaming a w) = None" "\<not> isStreaming (cancelStreaming a w)"
  "activeStreamType (cancelStreaming a w) = None"
  "next_timer (cancelStreaming a w) = next_timer w" "mounted (cancelStreaming a w) = mounted w"
  "length (sockets (cancelStreaming a w)) = length (sockets w)"
  "timers (cancelStreaming a w) =
     (case pingIntervalRef w of None \<Rightarrow> timers w | Some t \<Rightarrow> removeAll t (timers w))"
  by (simp_all add: cancelStreaming_def Let_def split: option.splits)

lemma sock_state_cancel:
  "sock_state (cancelStreaming a w) j =
     (if wsRef w = Some j \<and> sock_state w j = OPEN then CLOSING else sock_state w j)"
  by (auto simp: cancelStreaming_def Let_def sock_state_close less_ready_state_def
      split: option.splits)

lemma streamData_cancel:
  "streamData (cancelStreaming a w) =
     (case streamTypeRef w of
        Some ty \<Rightarrow>
          if a \<and> ws_is_open w then append_all (hostIdsRef w) (getDisconnectMessage ty) (streamData w)
          else streamData w
      | None \<Rightarrow> streamData w)"
  by (auto simp: cancelStreaming_def Let_def ws_is_open_def split: option.splits)

lemma sock_handlers_cancel [simp]:
  "j < length (sockets w) \<Longrightarrow>
     sk_type (sockets (cancelStreaming a w) ! j) = sk_type (sockets w ! j)"
  "j < length (sockets w) \<Longrightarrow>
     sk_hosts (sockets (cancelStreaming a w) ! j) = sk_hosts (sockets w ! j)"
  by (simp_all add: cancelStreaming_def Let_def split: option.splits)

section \<open>The invariant\<close>

definition ui_agrees :: "stream_world \<Rightarrow> bool" where
  "ui_agrees w \<longleftrightarrow>
     streamTypeRef w = activeStreamType w
     \<and> (isStreaming w \<longleftrightarrow> activeStreamType w \<noteq> None)
     \<and> (isStreaming w \<longleftrightarrow> hostIdsRef w \<noteq> [])
     \<and> (wsRef w \<noteq> None \<longrightarrow> isStreaming w)
     \<and> (isStreaming w \<longrightarrow> timers w \<noteq> [])"

definition one_timer :: "stream_world \<Rightarrow> bool" where
  "one_timer w \<longleftrightarrow> timers w = [] \<or> (\<exists>t. timers w = [t] \<and> pingIntervalRef w = Some t)"

definition current_socket_ok :: "stream_world \<Rightarrow> bool" where
  "current_socket_ok w \<longleftrightarrow>
     (case wsRef w of
        None \<Rightarrow> True
      | Some i \<Rightarrow>
          i < length (sockets w) \<and> sock_state w i < CLOSED
          \<and> streamTypeRef w = Some (sk_type (sockets w ! i))
          \<and> hostIdsRef w = sk_hosts (sockets w ! i))"

definition unmounted_idle :: "stream_world \<Rightarrow> bool" where
  "unmounted_idle w \<longleftrightarrow> wsRef w = None \<and> timers w = []"

definition ws_inv :: "stream_world \<Rightarrow> bool" where
  "ws_inv w \<longleftrightarrow>
     (if mounted w then ui_agrees w else unmounted_idle w)
     \<and> one_timer w \<and> current_socket_ok w"

lemmas ws_inv_defs =
  ws_inv_def ui_agrees_def one_timer_def current_socket_ok_def unmounted_idle_def

lemma ws_inv_init: "ws_inv stream_init"
  by (simp add: ws_inv_defs stream_init_def)

lemma ws_inv_cancel: "ws_inv w \<Longrightarrow> mounted w \<Longrightarrow> ws_inv (cancelStreaming a w)"
  by (auto simp: ws_inv_defs split: option.splits)

lemma start_timers: "ws_inv w \<Longrightarrow> timers (cancelStreaming a w) = []"
  by (auto simp: ws_inv_defs split: option.splits)

lemma ws_inv_start: "ws_inv w \<Longrightarrow> mounted w \<Longrightarrow> ws_inv (startStream ty hs ok w)"
  using ws_inv_cancel [of w False] start_timers [of w False]
  by (auto simp: startStream_def Let_def)
    (auto simp: ws_inv_defs sock_state_def less_ready_state_def nth_append split: option.splits)

lemma ws_inv_open: "ws_inv w \<Longrightarrow> ws_inv (ws_onopen i w)"
  by (auto simp: ws_onopen_def ws_inv_defs sock_state_set_ready less_ready_state_def
      split: if_splits option.splits)

lemma ws_inv_frame: "ws_inv w \<Longrightarrow> ws_inv (apply_frame now f w)"
  by (cases f) (auto simp: apply_frame_def ws_inv_defs split: if_splits option.splits)

lemma ws_inv_closing: "ws_inv w \<Longrightarrow> ws_inv (set_ready i CLOSING w)"
  by (auto simp: ws_inv_defs sock_state_set_ready less_ready_state_def split: if_splits option.splits)

lemma ws_inv_close: "ws_inv w \<Longrightarrow> ws_inv (ws_onclose i w)"
  by (auto simp: ws_onclose_def Let_def ws_inv_defs split: if_splits option.splits)

lemma ws_inv_tick: "ws_inv w \<Longrightarrow> ws_inv (ping_tick now w)"
  by (cases "wsRef w") (auto simp: ping_tick_def Let_def ws_inv_defs split: if_splits)

lemma ws_inv_unmount: "ws_inv w \<Longrightarrow> ws_inv (stream_unmount w)"
  by (auto simp: stream_unmount_def Let_def ws_inv_defs split: if_splits option.splits)

lemma ws_inv_step: "ws_inv w \<Longrightarrow> ws_step parse fmt w e w' \<Longrightarrow> ws_inv w'"
  by (cases e)
    (auto elim!: ws_stepE simp: ws_onmessage_def
      intro: ws_inv_cancel ws_inv_start ws_inv_open ws_inv_frame ws_inv_closing ws_inv_close
        ws_inv_tick ws_inv_unmount)

interpretation ws: step_invariant "ws_step parse fmt" "\<lambda>w. w = stream_init" ws_inv
  by unfold_locales (auto intro: ws_inv_init ws_inv_step)

section \<open>Sockets move forward\<close>

definition forward :: "stream_world \<Rightarrow> stream_world \<Rightarrow> bool" where
  "forward w w' \<longleftrightarrow>
     length (sockets w) \<le> length (sockets w')
     \<and> (\<forall>i < length (sockets w). sock_state w i \<le> sock_state w' i
          \<and> sk_type (sockets w' ! i) = sk_type (sockets w ! i)
          \<and> sk_hosts (sockets w' ! i) = sk_hosts (sockets w ! i))"

lemma forward_refl [simp]: "forward w w"
  by (simp add: forward_def)

lemma forward_trans: "forward u v \<Longrightarrow> forward v w \<Longrightarrow> forward u w"
  unfolding forward_def
  by (metis (no_types, lifting) order.trans order.strict_trans2)

lemma OPEN_le_CLOSING: "OPEN \<le> CLOSING" "r \<le> CLOSED" "CONNECTING \<le> r" "r < CLOSING \<Longrightarrow> r \<le> CLOSING"
  by (cases r; simp add: less_eq_ready_state_def less_ready_state_def)+

lemma forward_cancel: "forward w (cancelStreaming a w)"
  by (auto simp: forward_def sock_state_cancel OPEN_le_CLOSING)

lemma forward_set_ready: "sock_state w i \<le> r \<Longrightarrow> forward w (set_ready i r w)"
  by (auto simp: forward_def sock_state_set_ready)

lemma forward_close: "forward w (sock_close i w)"
  by (auto simp: forward_def sock_state_close OPEN_le_CLOSING)

lemma forward_start: "forward w (startStream ty hs ok w)"
proof (rule forward_trans)
  show "forward w (cancelStreaming False w)" by (rule forward_cancel)
  show "forward (cancelStreaming False w) (startStream ty hs ok w)"
    by (auto simp: startStream_def Let_def forward_def sock_state_def nth_append)
qed

lemma forward_fields:
  "sockets w' = sockets w \<Longrightarrow> forward w w'"
  by (simp add: forward_def sock_state_def)

lemma forward_extend: "forward w u \<Longrightarrow> sockets w' = sockets u \<Longrightarrow> forward w w'"
proof -
  assume f: "forward w u" and "sockets w' = sockets u"
  then have "sock_state w' = sock_state u" by (simp add: fun_eq_iff sock_state_def)
  with f \<open>sockets w' = sockets u\<close> show ?thesis by (simp add: forward_def)
qed

lemma forward_tick: "forward w (ping_tick now w)"
proof (cases "wsRef w")
  case (Some i)
  have "forward w (w\<lparr>streamData := d, lastPongTime := 0\<rparr>)" for d by (simp add: forward_fields)
  then have "forward w (reset_refs (sock_close i (w\<lparr>streamData := d, lastPongTime := 0\<rparr>)))" for d
    by (blast intro: forward_trans forward_close forward_fields reset_refs_frame)
  moreover have "forward w (send_ping i w)" "forward w ((send_ping i w)\<lparr>lastPongTime := now\<rparr>)"
    by (auto simp: forward_def)
  ultimately show ?thesis using Some by (simp add: ping_tick_def Let_def)
qed (simp add: ping_tick_def)

lemma forward_unmount: "forward w (stream_unmount w)"
  by (auto simp: stream_unmount_def Let_def forward_def sock_state_close OPEN_le_CLOSING
      split: option.splits)

lemma forward_step: "ws_step parse fmt w e w' \<Longrightarrow> forward w w'"
proof (erule ws_stepE)
  assume w': "w' = ws_handle parse fmt e w" and en: "ws_enabled e w"
  show "forward w w'"
  proof (cases e)
    case (SockOpen i)
    with en have "forward w (set_ready i OPEN w)" by (intro forward_set_ready) (simp add: OPEN_le_CLOSING)
    then show ?thesis using SockOpen w'
      by (auto simp: ws_onopen_def elim: forward_extend)
  next
    case (SockMessage i d now)
    with w' show ?thesis
      by (auto simp: ws_onmessage_def apply_frame_def split: frame.splits intro: forward_fields)
  next
    case (SockClosing i)
    with en w' show ?thesis by (auto intro: forward_set_ready simp: OPEN_le_CLOSING)
  next
    case (SockClose i)
    have "forward w (set_ready i CLOSED w)" by (intro forward_set_ready OPEN_le_CLOSING)
    with SockClose w' show ?thesis
      by (auto simp: ws_onclose_def Let_def elim: forward_extend)
  qed (use w' in \<open>auto simp: forward_start forward_cancel forward_tick forward_unmount\<close>)
qed

lemma forward_run: "run (ws_step parse fmt) w es w' \<Longrightarrow> forward w w'"
  by (induction rule: run.induct) (auto intro: forward_trans forward_step)

end
