(* ===== verification/Session.thy ===== *)
theory Session
  imports Keyboard StreamInvariant
begin

text \<open>
  The page as a whole: the state of \<open>App\<close> with the keyboard's view of it, and the commands
  whose response is still awaited. A step is a click, a key, a form change, a browser event
  of the stream, or the arrival of a response; so the interleavings of pending commands with
  everything else the user can do are runs of this step relation.
\<close>

section \<open>Pending commands\<close>

text \<open>What the continuation after the \<open>await\<close> of a handler has captured.\<close>

datatype pending =
    PHost host_cmd
  | PPing "(string \<times> string list) list"
  | PDNS
  | PPprof string

datatype reply = Json "jsv js_result" | Profiles "response js_result" "(string \<times> string js_result) list"

datatype command = Host host_cmd | PingCmd | DNSCmd | PprofCmd

definition idle :: "app \<Rightarrow> app" where
  "idle a = a\<lparr>statusLoading := False\<rparr>"

fun cmd_start :: "command \<Rightarrow> app \<Rightarrow> app \<times> pending list" where
  "cmd_start (Host c) a =
     (let b = command_begin (cmd_name c) a
      in if onlineSelectedHosts a = [] then (idle b, []) else (b, [PHost c]))"
| "cmd_start PingCmd a = (fetchPing_begin a, [PPing (group_targets (ping_combinations a))])"
| "cmd_start DNSCmd a =
     (if js_trim (dnsName a) = [] then (alert ''Please enter a DNS name to query'' a, [])
      else let b = command_begin ''Query DNS'' a
           in if onlineSelectedHosts a = [] then (idle (alert ''No online hosts selected'' b), [])
              else (b, [PDNS]))"
| "cmd_start PprofCmd a =
     (if duration_invalid (pprofType a) (pprofDuration a)
      then (alert (duration_message (pprofType a)) a, [])
      else let b = command_begin ''Pprof'' a
           in if onlineSelectedHosts a = [] then (idle (alert ''No online hosts selected'' b), [])
              else (b, [PPprof (pprofType a)]))"

fun cmd_deliver :: "pending \<Rightarrow> reply \<Rightarrow> app \<Rightarrow> app" where
  "cmd_deliver (PHost c) (Json out) a = command_finish (cmd_entry c) out a"
| "cmd_deliver (PPing ht) (Json out) a = fetchPing_finish ht out a"
| "cmd_deliver PDNS (Json out) a = fetchQueryDNS_finish out a"
| "cmd_deliver (PPprof ty) (Profiles out files) a = fetchPprof_finish ty out files a"
| "cmd_deliver _ _ a = a"

fun reply_fits :: "pending \<Rightarrow> reply \<Rightarrow> bool" where
  "reply_fits (PPprof _) r = (case r of Profiles _ _ \<Rightarrow> True | _ \<Rightarrow> False)"
| "reply_fits _ r = (case r of Json _ \<Rightarrow> True | _ \<Rightarrow> False)"

text \<open>The answer the network gives at once, and the whole handler.\<close>

fun answer :: "page_env \<Rightarrow> network \<Rightarrow> (string list \<Rightarrow> string list) \<Rightarrow> app \<Rightarrow> pending \<Rightarrow> reply" where
  "answer env net ord a (PHost c) =
     Json (fetchHostData env net (cmd_endpoint c) (onlineSelectedHosts a))"
| "answer env net ord a (PPing _) = Json (executePing env net (ping_request a))"
| "answer env net ord a PDNS = Json (executeQueryDNS env net (dns_query a))"
| "answer env net ord a (PPprof _) =
     Profiles (executePprof env net (pprof_request a))
       (map (\<lambda>h. (h, fetchPprofFile env net h)) (ord (onlineSelectedHosts a)))"

fun run_command :: "command \<Rightarrow> page_env \<Rightarrow> network \<Rightarrow> (string list \<Rightarrow> string list) \<Rightarrow> app \<Rightarrow> app" where
  "run_command (Host c) env net ord a = run_host_cmd c env net a"
| "run_command PingCmd env net ord a = fetchPing env net a"
| "run_command DNSCmd env net ord a = fetchQueryDNS env net a"
| "run_command PprofCmd env net ord a = fetchPprof env net ord a"

section \<open>The page\<close>

record page =
  pg_view :: view
  pg_pending :: "pending list"

datatype form_event =
    OpenDNS | OpenPprof | CloseDNS | ClosePprof
  | TypeName string | ChooseQueryType string
  | ChoosePprofType string | TypeDuration string
  | TypePingCount string | TypePingDelay string | ChoosePingType string | TogglePingSettings
  | SearchHosts string | SearchTargets string | ToggleRawJson | ToggleSidebar
  | ChooseOutput string | ChooseLayout string

text \<open>The options of the two selectors of the modals, and of the layout selector.\<close>

definition QUERY_TYPES :: "string list" where
  "QUERY_TYPES =
     [''A'', ''AAAA'', ''CNAME'', ''MX'', ''NS'', ''PTR'', ''SOA'', ''SRV'', ''TXT'']"

definition PPROF_TYPES :: "string list" where
  "PPROF_TYPES =
     [''profile'', ''heap'', ''allocs'', ''goroutine'', ''block'', ''mutex'', ''threadcreate'']"

fun form_enabled :: "form_event \<Rightarrow> app \<Rightarrow> bool" where
  "form_enabled OpenDNS a = (selectedHosts a \<noteq> [] \<and> \<not> statusLoading a)"
| "form_enabled OpenPprof a = (selectedHosts a \<noteq> [] \<and> \<not> statusLoading a)"
| "form_enabled CloseDNS a = showQueryDNSModal a"
| "form_enabled ClosePprof a = showPprofModal a"
| "form_enabled (TypeName _) a = showQueryDNSModal a"
| "form_enabled (ChooseQueryType t) a = (showQueryDNSModal a \<and> t \<in> set QUERY_TYPES)"
| "form_enabled (ChoosePprofType t) a = (showPprofModal a \<and> t \<in> set PPROF_TYPES)"
| "form_enabled (TypeDuration _) a = (showPprofModal a \<and> needsDuration (pprofType a))"
| "form_enabled (TypePingCount _) a = showPingSettings a"
| "form_enabled (TypePingDelay _) a = showPingSettings a"
| "form_enabled (ChoosePingType t) a = (showPingSettings a \<and> t \<in> set PING_TYPES)"
| "form_enabled (ChooseOutput h) a = (statusPanelOpen a \<and> h \<in> set (obj_keys (outputData a)))"
| "form_enabled (ChooseLayout l) a = (l \<in> set LAYOUT_OPTIONS)"
| "form_enabled ToggleRawJson a = statusPanelOpen a"
| "form_enabled _ a = True"

fun form_apply :: "form_event \<Rightarrow> app \<Rightarrow> app" where
  "form_apply OpenDNS a = a\<lparr>showQueryDNSModal := True\<rparr>"
| "form_apply OpenPprof a = a\<lparr>showPprofModal := True\<rparr>"
| "form_apply CloseDNS a = closeQueryDNSModal a"
| "form_apply ClosePprof a = closePprofModal a"
| "form_apply (TypeName s) a = a\<lparr>dnsName := s\<rparr>"
| "form_apply (ChooseQueryType t) a = a\<lparr>dnsQueryType := t\<rparr>"
| "form_apply (ChoosePprofType t) a = select_pprof_type t a"
| "form_apply (TypeDuration s) a = a\<lparr>pprofDuration := s\<rparr>"
| "form_apply (TypePingCount s) a = change_pingCount s a"
| "form_apply (TypePingDelay s) a = change_pingDelay s a"
| "form_apply (ChoosePingType t) a = change_pingType t a"
| "form_apply TogglePingSettings a = toggle_ping_settings a"
| "form_apply (SearchHosts s) a = a\<lparr>hostSearchFilter := s\<rparr>"
| "form_apply (SearchTargets s) a = a\<lparr>targetSearchFilter := s\<rparr>"
| "form_apply ToggleRawJson a = a\<lparr>showRawJson := \<not> showRawJson a\<rparr>"
| "form_apply ToggleSidebar a = a\<lparr>sidebarOpen := \<not> sidebarOpen a\<rparr>"
| "form_apply (ChooseOutput h) a = a\<lparr>selectedOutputHost := Some h\<rparr>"
| "form_apply (ChooseLayout l) a = a\<lparr>layoutType := l\<rparr>"

datatype event =
    Click command
  | Deliver nat reply
  | ClickLogs bool \<comment> \<open>whether the socket could be constructed\<close>
  | ClickBusEvents bool
  | Stream ws_event
  | Select sel_action
  | Form form_event
  | Panel panel_event
  | Key key_event

text \<open>
  Which commands the buttons offer, the submit handlers of the modals included. The stream's
  events are those of the browser, and the cancel button.
\<close>

fun click_enabled :: "command \<Rightarrow> app \<Rightarrow> bool" where
  "click_enabled (Host c) a =
     (if c = Goroutines
      then showPprofModal a \<and> pprofType a = ''goroutine'' \<and> \<not> statusLoading a
      else selectedHosts a \<noteq> [] \<and> \<not> statusLoading a)"
| "click_enabled PingCmd a = (\<not> ping_disabled a)"
| "click_enabled DNSCmd a = (showQueryDNSModal a \<and> js_trim (dnsName a) \<noteq> [] \<and> \<not> statusLoading a)"
| "click_enabled PprofCmd a = (showPprofModal a \<and> pprofType a \<noteq> ''goroutine'' \<and> \<not> statusLoading a)"

fun stream_event_enabled :: "ws_event \<Rightarrow> app \<Rightarrow> bool" where
  "stream_event_enabled (StartStream _ _ _) a = False"
| "stream_event_enabled Unmount a = False"
| "stream_event_enabled (CancelStreaming appendMessage) a =
     (appendMessage \<and> isStreaming (app_stream a))"
| "stream_event_enabled e a = ws_enabled e (app_stream a)"

fun page_enabled :: "event \<Rightarrow> page \<Rightarrow> bool" where
  "page_enabled (Click c) p = click_enabled c (v_app (pg_view p))"
| "page_enabled (Deliver i r) p = (i < length (pg_pending p) \<and> reply_fits (pg_pending p ! i) r)"
| "page_enabled (ClickLogs _) p =
     (selectedHosts (v_app (pg_view p)) \<noteq> [] \<and> \<not> isStreaming (app_stream (v_app (pg_view p))))"
| "page_enabled (ClickBusEvents _) p =
     (selectedHosts (v_app (pg_view p)) \<noteq> [] \<and> \<not> isStreaming (app_stream (v_app (pg_view p))))"
| "page_enabled (Stream e) p = stream_event_enabled e (v_app (pg_view p))"
| "page_enabled (Select s) p = sel_enabled s (v_app (pg_view p))"
| "page_enabled (Form f) p = form_enabled f (v_app (pg_view p))"
| "page_enabled _ p = True"

text \<open>
  The parameters of a page: the flag that redacts node titles, \<open>JSON.stringify\<close>, the parser
  and time format of the stream, and the height of the window.
\<close>

record page_params =
  pp_redact :: bool
  pp_stringify :: "jsv \<Rightarrow> string"
  pp_parse :: json_parser
  pp_time :: time_format
  pp_inner :: int

definition upd_app :: "(app \<Rightarrow> app) \<Rightarrow> page \<Rightarrow> page" where
  "upd_app f p = p\<lparr>pg_view := on_app f (pg_view p)\<rparr>"

definition remove_at :: "nat \<Rightarrow> 'a list \<Rightarrow> 'a list" where
  "remove_at i xs = take i xs @ drop (Suc i) xs"

fun page_handle :: "page_params \<Rightarrow> event \<Rightarrow> page \<Rightarrow> page" where
  "page_handle pp (Click c) p =
     (let (b, new) = cmd_start c (v_app (pg_view p));
          b' = (if c = Host Goroutines then closePprofModal b else b)
      in (upd_app (\<lambda>_. b') p)\<lparr>pg_pending := pg_pending p @ new\<rparr>)"
| "page_handle pp (Deliver i r) p =
     (upd_app (cmd_deliver (pg_pending p ! i) r) p)\<lparr>pg_pending := remove_at i (pg_pending p)\<rparr>"
| "page_handle pp (ClickLogs ok) p = upd_app (fetchLogs ok) p"
| "page_handle pp (ClickBusEvents ok) p = upd_app (fetchBusEvents ok) p"
| "page_handle pp (Stream e) p =
     upd_app (\<lambda>a. a\<lparr>app_stream := ws_handle (pp_parse pp) (pp_time pp) e (app_stream a)\<rparr>) p"
| "page_handle pp (Select s) p = upd_app (sel_handle (pp_redact pp) (pp_stringify pp) s) p"
| "page_handle pp (Form f) p = upd_app (form_apply f) p"
| "page_handle pp (Panel e) p =
     upd_app (\<lambda>a. a\<lparr>app_panel := panel_handle (pp_inner pp) (1/2) e (app_panel a)\<rparr>) p"
| "page_handle pp (Key e) p = p\<lparr>pg_view := handleKeyDown (pp_inner pp) e (pg_view p)\<rparr>"

inductive page_step :: "page_params \<Rightarrow> page \<Rightarrow> event \<Rightarrow> page \<Rightarrow> bool" for pp :: page_params where
  page_step: "page_enabled e p \<Longrightarrow> page_step pp p e (page_handle pp e p)"

inductive_simps page_step_iff: "page_step pp p e q"

definition page_init :: "int \<Rightarrow> page" where
  "page_init innerHeight =
     \<lparr>pg_view = \<lparr>v_app = app_init innerHeight, v_menu = False, v_graph = False, v_camera = [],
        v_prevented = False\<rparr>, pg_pending = []\<rparr>"

abbreviation pg_app :: "page \<Rightarrow> app" where
  "pg_app p \<equiv> v_app (pg_view p)"

end
