(* ===== verification/SessionInvariant.thy ===== *)
theory SessionInvariant
  imports Session
begin

text \<open>
  What holds of the page in every reachable state: the invariants of its components, the
  accounting of pending commands, the shape of the output and the ranges of the settings.
  Each operation is shown to leave alone the parts it does not own, so each invariant is
  checked only against the operations that touch its part.
\<close>

section \<open>The parts\<close>

definition sel_part ::
    "app \<Rightarrow> node list \<times> string list \<times> edge list \<times> string list \<times> string list \<times> bool" where
  "sel_part a = (app_nodes a, app_hosts a, app_edges a, selectedHosts a, selectedTargets a, hideOfflinePeers a)"

definition out_part :: "app \<Rightarrow> jsv jsobj \<times> string option" where
  "out_part a = (outputData a, selectedOutputHost a)"

definition set_part :: "app \<Rightarrow> int \<times> int \<times> string \<times> string" where
  "set_part a = (pingCount a, pingDelay a, pingType a, layoutType a)"

lemmas part_defs = sel_part_def out_part_def set_part_def

definition output_ok :: "app \<Rightarrow> bool" where
  "output_ok a \<longleftrightarrow>
     obj_wf (outputData a)
     \<and> (outputData a = [] \<or> obj_get (outputData a) [] \<noteq> None
        \<or> (\<exists>h. selectedOutputHost a = Some h \<and> obj_get (outputData a) h \<noteq> None))"

definition settings_ok :: "app \<Rightarrow> bool" where
  "settings_ok a \<longleftrightarrow>
     1 \<le> pingCount a \<and> pingCount a \<le> 20 \<and> 0 \<le> pingDelay a \<and> pingDelay a \<le> 2000
     \<and> pingType a \<in> set PING_TYPES \<and> layoutType a \<in> set LAYOUT_OPTIONS"

definition stream_ok :: "app \<Rightarrow> bool" where
  "stream_ok a \<longleftrightarrow> ws_inv (app_stream a) \<and> mounted (app_stream a)"

definition app_ok :: "app \<Rightarrow> bool" where
  "app_ok a \<longleftrightarrow> sel_inv a \<and> output_ok a \<and> settings_ok a \<and> stream_ok a"

lemma sel_inv_part: "sel_part b = sel_part a \<Longrightarrow> sel_inv b \<longleftrightarrow> sel_inv a"
  by (simp add: sel_part_def sel_inv_def app_reachable_def)

lemma output_ok_part: "out_part b = out_part a \<Longrightarrow> output_ok b \<longleftrightarrow> output_ok a"
  by (simp add: out_part_def output_ok_def)

lemma settings_ok_part: "set_part b = set_part a \<Longrightarrow> settings_ok b \<longleftrightarrow> settings_ok a"
  by (simp add: set_part_def settings_ok_def)

lemma stream_ok_part: "app_stream b = app_stream a \<Longrightarrow> stream_ok b \<longleftrightarrow> stream_ok a"
  by (simp add: stream_ok_def)

text \<open>
  An operation that leaves every part alone preserves all of it; one that touches some part
  owes the invariant of that part only.
\<close>

lemma app_ok_parts:
  "\<lbrakk>app_ok a; sel_part b = sel_part a; out_part b = out_part a; set_part b = set_part a;
    app_stream b = app_stream a\<rbrakk> \<Longrightarrow> app_ok b"
  using sel_inv_part [of b a] output_ok_part [of b a] settings_ok_part [of b a] stream_ok_part [of b a]
  by (simp add: app_ok_def)

lemma app_ok_output:
  "\<lbrakk>app_ok a; sel_part b = sel_part a; output_ok b; set_part b = set_part a;
    app_stream b = app_stream a\<rbrakk> \<Longrightarrow> app_ok b"
  using sel_inv_part [of b a] settings_ok_part [of b a] stream_ok_part [of b a]
  by (simp add: app_ok_def)

lemma app_ok_stream:
  "\<lbrakk>app_ok a; sel_part b = sel_part a; out_part b = out_part a; set_part b = set_part a;
    stream_ok b\<rbrakk> \<Longrightarrow> app_ok b"
  using sel_inv_part [of b a] output_ok_part [of b a] settings_ok_part [of b a]
  by (simp add: app_ok_def)

lemma app_ok_settings:
  "\<lbrakk>app_ok a; sel_part b = sel_part a; out_part b = out_part a; settings_ok b;
    app_stream b = app_stream a\<rbrakk> \<Longrightarrow> app_ok b"
  using sel_inv_part [of b a] output_ok_part [of b a] stream_ok_part [of b a]
  by (simp add: app_ok_def)

section \<open>Commands\<close>

lemma mounted_cancel [simp]: "mounted (cancelStreaming b w) = mounted w"
  by (simp add: cancelStreaming_def reset_refs_def clear_timer_def sock_close_def set_ready_def
      Let_def split: option.splits)

lemma stream_ok_cancel: "stream_ok a \<Longrightarrow> app_stream b = cancelStreaming c (app_stream a) \<Longrightarrow> stream_ok b"
  by (simp add: stream_ok_def ws_inv_cancel)

lemma command_begin_ok:
  assumes "app_ok a" shows "app_ok (command_begin n a)"
proof (rule app_ok_stream [OF assms])
  have "stream_ok a" using assms by (simp add: app_ok_def)
  then show "stream_ok (command_begin n a)"
    by (rule stream_ok_cancel) (simp add: command_begin_def)
qed (simp_all add: part_defs command_begin_def)

lemma untouched_ok:
  "app_ok (idle a) \<longleftrightarrow> app_ok a" "app_ok (alert s a) \<longleftrightarrow> app_ok a"
  "app_ok (closeQueryDNSModal a) \<longleftrightarrow> app_ok a" "app_ok (closePprofModal a) \<longleftrightarrow> app_ok a"
  "app_ok (a\<lparr>statusLoading := l\<rparr>) \<longleftrightarrow> app_ok a" "app_ok (a\<lparr>showPprofModal := m\<rparr>) \<longleftrightarrow> app_ok a"
  "app_ok (a\<lparr>edgeColors := c\<rparr>) \<longleftrightarrow> app_ok a"
  by (rule iffI; erule app_ok_parts; simp add: part_defs idle_def alert_def closeQueryDNSModal_def
      closePprofModal_def)+

lemma ping_begin_ok: "app_ok a \<Longrightarrow> app_ok (fetchPing_begin a)"
  using command_begin_ok [of a "''Ping''"] by (simp add: fetchPing_begin_def command_begin_def)

lemma start_ok: "app_ok a \<Longrightarrow> cmd_start c a = (b, ps) \<Longrightarrow> app_ok b"
  by (cases c)
    (auto simp: Let_def untouched_ok command_begin_ok ping_begin_ok split: if_splits)

lemma show_first_output:
  assumes "obj_wf m"
  shows "output_ok (show_first (obj_keys m) (a\<lparr>outputData := m\<rparr>))"
proof (cases "obj_keys m")
  case Nil
  then have "dom (obj_get m) = {}" using set_obj_keys [of m] by simp
  then have "map_of m = Map.empty" by (simp add: obj_get_def [abs_def])
  then have "m = []" by simp
  then show ?thesis using Nil by (simp add: show_first_def output_ok_def obj_simps)
next
  case (Cons k ks)
  then have "k \<in> dom (obj_get m)" using set_obj_keys [of m] by auto
  with Cons assms show ?thesis by (auto simp: show_first_def output_ok_def domIff)
qed

lemma show_first_parts [simp]:
  "sel_part (show_first ks a) = sel_part a" "set_part (show_first ks a) = set_part a"
  "app_stream (show_first ks a) = app_stream a"
  by (auto simp: show_first_def part_defs split: list.splits)

lemma show_results_ok: "app_ok a \<Longrightarrow> obj_wf m \<Longrightarrow> app_ok (show_results m a)"
proof (erule app_ok_output)
  assume wf: "obj_wf m"
  have "a\<lparr>outputData := m, statusPanelOpen := True\<rparr> = a\<lparr>statusPanelOpen := True, outputData := m\<rparr>"
    by simp
  then show "output_ok (show_results m a)"
    using show_first_output [OF wf, of "a\<lparr>statusPanelOpen := True\<rparr>"]
    by (simp only: show_results_def)
qed (simp_all add: show_results_def, simp_all add: part_defs)

lemma wf_collect: "exn_bind out (collect_results entry) = Inr m \<Longrightarrow> obj_wf m"
  by (auto simp: exn_bind_def collect_results_def obj_wf_nil obj.wf_assign_all
      split: sum.splits jsv.splits)

lemma add_ping_results_wf:
  "obj_wf r \<Longrightarrow> obj_wf (fst (snd (add_ping_results xs (r, c))))"
proof (induction xs arbitrary: r c)
  case (Cons x xs)
  have "obj_wf (fst st')" if "add_ping_result x (r, c) = Inr st'" for st'
    using that Cons.prems
    by (auto simp: add_ping_result_def put_result_def exn_bind_def obj_simps split: sum.splits)
  with Cons show ?case by (auto split: sum.splits)
qed simp

lemma mark_errored_wf: "obj_wf r \<Longrightarrow> obj_wf (mark_errored hts e r)"
proof (induction hts arbitrary: r)
  case (Cons x hts)
  obtain h ts where x: "x = (h, ts)" by (cases x)
  have "obj_wf (foldl (\<lambda>r' t. put_result h t v r') r ts)" if "obj_wf r" for r v
    using that by (induction ts arbitrary: r) (simp_all add: put_result_def obj_simps)
  with Cons show ?case by (simp add: mark_errored_def x)
qed (simp add: mark_errored_def)

lemma ping_outcome_wf: "obj_wf (fst (ping_outcome hts out))"
proof -
  have "obj_wf r" if "add_ping_results xs ([], []) = (e, r, c)" for xs e r c
    using add_ping_results_wf [OF obj_wf_nil, of xs "[]"] that by simp
  then show ?thesis
    by (auto simp: ping_outcome_def mark_errored_wf obj_wf_nil split: sum.splits jsv.splits option.splits prod.splits)
qed

lemma json_wf: "obj_wf r \<Longrightarrow> obj_wf (ping_results_json r)"
  by (simp add: obj_wf_def ping_results_json_def comp_def case_prod_unfold)

lemma json_keys: "obj_keys (ping_results_json r) = obj_keys r"
  by (simp add: obj_keys_def ping_results_json_def comp_def case_prod_unfold)

lemma ping_finish_ok: "app_ok a \<Longrightarrow> app_ok (fetchPing_finish hts out a)"
proof -
  assume ok: "app_ok a"
  obtain r c where rc: "ping_outcome hts out = (r, c)" by (cases "ping_outcome hts out")
  have wf: "obj_wf (ping_results_json r)"
    using ping_outcome_wf [of hts out] rc by (simp add: json_wf)
  have "fetchPing_finish hts out a =
      (show_results (ping_results_json r) (a\<lparr>edgeColors := obj_spread (edgeColors a) c\<rparr>))
        \<lparr>statusLoading := False\<rparr>"
    by (simp add: fetchPing_finish_def rc show_results_def json_keys)
  with ok wf show ?thesis by (simp add: untouched_ok show_results_ok)
qed

lemma deliver_ok: "app_ok a \<Longrightarrow> app_ok (cmd_deliver pd r a)"
  by (induction pd r a rule: cmd_deliver.induct)
    (auto simp: command_finish_def fetchQueryDNS_finish_def fetchPprof_finish_def alert_error_def
      untouched_ok show_results_ok ping_finish_ok obj.wf_assign_all obj_wf_nil
      dest: wf_collect split: sum.splits)

section \<open>The other events\<close>

lemma start_stream_ok: "stream_ok a \<Longrightarrow> app_stream b = startStream ty hs ok (app_stream a) \<Longrightarrow> stream_ok b"
  by (simp add: stream_ok_def ws_inv_start) (simp add: startStream_def Let_def)

lemma streaming_status_rows:
  "streaming_status hs = assign_all obj_set [] (map (\<lambda>h. (h, JObj [(''streaming'', JBool True)])) hs)"
  unfolding streaming_status_def assign_all_def by (induction hs rule: rev_induct) simp_all

lemma streaming_status_facts:
  "obj_wf (streaming_status hs)" "hs \<noteq> [] \<Longrightarrow> obj_get (streaming_status hs) (hd hs) \<noteq> None"
proof -
  note eq = streaming_status_rows [of hs]
  show "obj_wf (streaming_status hs)" by (simp add: eq obj.wf_assign_all obj_wf_nil)
  assume "hs \<noteq> []"
  then have "hd hs \<in> set (obj_keys (streaming_status hs))"
    by (simp add: eq obj.keys_assign_all image_image)
  then show "obj_get (streaming_status hs) (hd hs) \<noteq> None" by (simp add: set_obj_keys domIff)
qed

lemma fetch_stream_ok: "app_ok a \<Longrightarrow> app_ok (fetch_stream n ty ok a)"
proof (cases "onlineSelectedHosts a = []")
  case False
  assume ok: "app_ok a"
  let ?b = "fetch_stream n ty ok a" and ?hs = "onlineSelectedHosts a"
  have "sel_part ?b = sel_part a" "set_part ?b = set_part a"
    using False by (simp_all add: fetch_stream_def part_defs Let_def)
  moreover have "output_ok ?b"
    using False streaming_status_facts [of ?hs] by (simp add: fetch_stream_def output_ok_def Let_def)
  moreover have "stream_ok ?b"
    by (rule start_stream_ok [of a])
      (use False ok in \<open>simp_all add: fetch_stream_def Let_def app_ok_def\<close>)
  ultimately show ?thesis
    using ok sel_inv_part [of ?b a] settings_ok_part [of ?b a] by (simp add: app_ok_def)
qed (simp add: fetch_stream_def untouched_ok)

lemma mounted_handle: "stream_event_enabled e a \<Longrightarrow> mounted (ws_handle pr tm e w) = mounted w"
  by (cases e) (auto simp: ws_onopen_def ws_onmessage_def apply_frame_def ws_onclose_def ping_tick_def
      set_ready_def reset_refs_def send_ping_def sock_close_def Let_def split: frame.splits option.splits)

lemma stream_event_ok:
  assumes "app_ok a" and "stream_event_enabled e a"
  shows "app_ok (a\<lparr>app_stream := ws_handle pr tm e (app_stream a)\<rparr>)"
proof (rule app_ok_stream [OF assms(1)])
  have inv: "ws_inv (app_stream a)" "mounted (app_stream a)"
    using assms(1) by (simp_all add: app_ok_def stream_ok_def)
  have "ws_enabled e (app_stream a)" using assms(2) inv(2) by (cases e) auto
  from ws_inv_step [OF inv(1) ws_step [OF this]] mounted_handle [OF assms(2)] inv(2)
  show "stream_ok (a\<lparr>app_stream := ws_handle pr tm e (app_stream a)\<rparr>)" by (simp add: stream_ok_def)
qed (simp_all add: part_defs)

lemma effect_parts:
  "out_part (effect_select_all a) = out_part a" "out_part (effect_deselect_offline a) = out_part a"
  "out_part (effect_prune_unreachable a) = out_part a"
  "set_part (effect_select_all a) = set_part a" "set_part (effect_deselect_offline a) = set_part a"
  "set_part (effect_prune_unreachable a) = set_part a"
  "app_stream (effect_select_all a) = app_stream a" "app_stream (effect_deselect_offline a) = app_stream a"
  "app_stream (effect_prune_unreachable a) = app_stream a"
  "statusLoading (effect_select_all a) = statusLoading a"
  "statusLoading (effect_deselect_offline a) = statusLoading a"
  "statusLoading (effect_prune_unreachable a) = statusLoading a"
  by (simp_all add: part_defs effect_select_all_def effect_deselect_offline_def
      effect_prune_unreachable_def Let_def)

lemma settle_parts:
  "out_part (settle ad) = out_part (fst ad)" "set_part (settle ad) = set_part (fst ad)"
  "app_stream (settle ad) = app_stream (fst ad)" "statusLoading (settle ad) = statusLoading (fst ad)"
  by (simp_all add: settle_def Let_def effect_parts split: prod.splits)

lemma fetchData_parts:
  "out_part (fst (fetchData rd sf out a)) = out_part a"
  "set_part (fst (fetchData rd sf out a)) = set_part a"
  "app_stream (fst (fetchData rd sf out a)) = app_stream a"
  "statusLoading (fst (fetchData rd sf out a)) = statusLoading a"
  by (auto simp: fetchData_def Let_def part_defs split: sum.splits)

lemma sel_apply_parts:
  "out_part (fst (sel_apply rd sf s a)) = out_part a"
  "app_stream (fst (sel_apply rd sf s a)) = app_stream a"
  "statusLoading (fst (sel_apply rd sf s a)) = statusLoading a"
  "set_part (fst (sel_apply rd sf s a)) =
     (if s = ResetView then (pingCount a, pingDelay a, pingType a, DEFAULT_LAYOUT) else set_part a)"
  by (cases s; simp add: fetchData_parts; simp add: part_defs toggleHost_def toggleAllHosts_def
      toggleTarget_def toggleAllTargets_def filterToHost_def resetView_def)+

lemma sel_handle_parts:
  "out_part (sel_handle rd sf s a) = out_part a" "app_stream (sel_handle rd sf s a) = app_stream a"
  "statusLoading (sel_handle rd sf s a) = statusLoading a"
  "set_part (sel_handle rd sf s a) =
     (if s = ResetView then (pingCount a, pingDelay a, pingType a, DEFAULT_LAYOUT) else set_part a)"
  by (simp_all add: sel_handle_def settle_parts sel_apply_parts)

lemma select_ok:
  assumes "app_ok a" and "sel_enabled s a" shows "app_ok (sel_handle rd sf s a)"
proof -
  let ?b = "sel_handle rd sf s a"
  have "sel_inv a" using assms(1) by (simp add: app_ok_def)
  from sel_inv_step [OF this sel_step [OF assms(2)]] have "sel_inv ?b" .
  moreover have "output_ok ?b" "stream_ok ?b"
    using assms(1) output_ok_part [of ?b a] stream_ok_part [of ?b a]
    by (simp_all add: sel_handle_parts app_ok_def)
  moreover have "settings_ok ?b"
  proof (cases "s = ResetView")
    case True
    then have "set_part ?b = (pingCount a, pingDelay a, pingType a, DEFAULT_LAYOUT)"
      by (simp add: sel_handle_parts)
    moreover have "DEFAULT_LAYOUT \<in> set LAYOUT_OPTIONS" by (simp add: DEFAULT_LAYOUT_def LAYOUT_OPTIONS_def)
    ultimately show ?thesis using assms(1) by (simp add: set_part_def settings_ok_def app_ok_def)
  next
    case False
    then show ?thesis
      using assms(1) settings_ok_part [of ?b a] by (simp add: sel_handle_parts app_ok_def)
  qed
  ultimately show ?thesis by (simp add: app_ok_def)
qed

lemma form_ok:
  assumes "app_ok a" and "form_enabled f a" shows "app_ok (form_apply f a)"
proof -
  have s: "settings_ok a" and o: "output_ok a" using assms(1) by (simp_all add: app_ok_def)
  show ?thesis
  proof (cases f)
    case (TypePingCount x)
    show ?thesis unfolding TypePingCount form_apply.simps
      by (rule app_ok_settings [OF assms(1)])
        (use s in \<open>simp_all add: part_defs settings_ok_def change_pingCount_def\<close>)
  next
    case (TypePingDelay x)
    show ?thesis unfolding TypePingDelay form_apply.simps
      by (rule app_ok_settings [OF assms(1)])
        (use s in \<open>simp_all add: part_defs settings_ok_def change_pingDelay_def\<close>)
  next
    case (ChoosePingType x)
    show ?thesis unfolding ChoosePingType form_apply.simps
      by (rule app_ok_settings [OF assms(1)])
        (use s in \<open>simp_all add: part_defs settings_ok_def change_pingType_def\<close>)
  next
    case (ChooseLayout x)
    show ?thesis unfolding ChooseLayout form_apply.simps
      by (rule app_ok_settings [OF assms(1)])
        (use s assms(2) ChooseLayout in \<open>simp_all add: part_defs settings_ok_def\<close>)
  next
    case (ChooseOutput h)
    then have "obj_get (outputData a) h \<noteq> None" using assms(2) by (simp add: set_obj_keys domIff)
    then show ?thesis unfolding ChooseOutput form_apply.simps
      by (intro app_ok_output [OF assms(1)])
        (use o in \<open>simp_all add: part_defs output_ok_def\<close>)
  qed (use assms(1) in \<open>simp_all add: untouched_ok\<close>,
    (rule app_ok_parts [OF assms(1)]; simp add: part_defs select_pprof_type_def toggle_ping_settings_def Let_def)+)
qed

lemma panel_ok: "app_ok a \<Longrightarrow> app_ok (a\<lparr>app_panel := q\<rparr>)"
  by (erule app_ok_parts) (simp_all add: part_defs)

lemma v_app_simps [simp]:
  "v_app (prevent v) = v_app v" "v_app (on_app f v) = f (v_app v)" "v_app (camera cs v) = v_app v"
  by (simp_all add: prevent_def on_app_def camera_def)

lemma tab_ok: "app_ok (v_app v) \<Longrightarrow> app_ok (v_app (handleTabKey bk v))"
proof -
  assume ok: "app_ok (v_app v)"
  let ?ks = "obj_keys (outputData (v_app v))"
  have "app_ok ((v_app v)\<lparr>selectedOutputHost := Some (?ks ! cycle_index (length ?ks) bk i)\<rparr>)"
    if "1 < length ?ks" for i
  proof (rule app_ok_output [OF ok])
    let ?h = "?ks ! cycle_index (length ?ks) bk i"
    have "0 < length ?ks" using that by linarith
    then have "?h \<in> set ?ks" by (intro nth_mem cycle_index_less)
    then have "obj_get (outputData (v_app v)) ?h \<noteq> None" by (simp add: set_obj_keys domIff)
    with ok show "output_ok ((v_app v)\<lparr>selectedOutputHost := Some ?h\<rparr>)"
      by (simp add: output_ok_def app_ok_def)
  qed (simp_all add: part_defs)
  with ok show ?thesis by (simp add: handleTabKey_def Let_def split: option.splits)
qed

lemma backtick_ok: "app_ok (v_app v) \<Longrightarrow> app_ok (v_app (handleBacktickKey bk v))"
proof -
  assume ok: "app_ok (v_app v)"
  have "LAYOUT_OPTIONS ! cycle_index (length LAYOUT_OPTIONS) bk i \<in> set LAYOUT_OPTIONS" for i
    by (intro nth_mem cycle_index_less) (simp add: LAYOUT_OPTIONS_def)
  with ok show ?thesis
    unfolding handleBacktickKey_def v_app_simps
    by (intro app_ok_settings [OF ok]) (simp_all add: part_defs settings_ok_def app_ok_def)
qed

lemma reset_key_app: "v_app (handleResetKey v) = sel_handle rd sf ResetView (v_app v)"
  by (simp add: handleResetKey_def sel_handle_def resetView_def app_targetNodes_def)

lemma escape_ok: "app_ok (v_app v) \<Longrightarrow> app_ok (v_app (handleEscapeKey v))"
  by (simp add: handleEscapeKey_def Let_def untouched_ok)

lemma space_ok: "app_ok (v_app v) \<Longrightarrow> app_ok (v_app (handleSpacebarKey inner v))"
  by (simp add: handleSpacebarKey_def Let_def panel_ok)

lemma letters_app: "v_app (handleWASDKeys k v) = v_app v" "v_app (handleFitKey v) = v_app v"
  by (simp_all add: handleWASDKeys_def handleFitKey_def)

lemma key_ok: "app_ok (v_app v) \<Longrightarrow> app_ok (v_app (handleKeyDown inner e v))"
proof -
  assume ok: "app_ok (v_app v)"
  have "app_ok (v_app (handleResetKey v))"
    unfolding reset_key_app [of v False to_str] by (rule select_ok [OF ok]) simp
  with ok show ?thesis
    unfolding handleKeyDown_def Let_def
    by (simp add: escape_ok space_ok tab_ok backtick_ok letters_app)
qed

lemma key_loading: "statusLoading (v_app (handleKeyDown inner e v)) = statusLoading (v_app v)"
proof -
  have "statusLoading (v_app (handleResetKey v)) = statusLoading (v_app v)"
    unfolding reset_key_app [of v False to_str] by (rule sel_handle_parts)
  moreover have "statusLoading (v_app (handleTabKey bk v)) = statusLoading (v_app v)" for bk
    by (simp add: handleTabKey_def Let_def split: option.splits)
  moreover have "statusLoading (v_app (handleEscapeKey v)) = statusLoading (v_app v)"
    by (simp add: handleEscapeKey_def Let_def closeQueryDNSModal_def closePprofModal_def)
  moreover have "statusLoading (v_app (handleSpacebarKey inner v)) = statusLoading (v_app v)"
    by (simp add: handleSpacebarKey_def Let_def)
  moreover have "statusLoading (v_app (handleBacktickKey bk v)) = statusLoading (v_app v)" for bk
    by (simp add: handleBacktickKey_def)
  ultimately show ?thesis unfolding handleKeyDown_def Let_def by (simp add: letters_app)
qed

section \<open>The page\<close>

definition page_inv :: "page \<Rightarrow> bool" where
  "page_inv p \<longleftrightarrow>
     app_ok (pg_app p) \<and> length (pg_pending p) \<le> 1
     \<and> (statusLoading (pg_app p) \<longleftrightarrow> pg_pending p \<noteq> [])"

lemma upd_app_fields [simp]:
  "pg_app (upd_app f p) = f (pg_app p)" "pg_pending (upd_app f p) = pg_pending p"
  by (simp_all add: upd_app_def)

lemma start_loading:
  "click_enabled c a \<Longrightarrow> cmd_start c a = (b, ps) \<Longrightarrow>
     \<not> statusLoading a \<and> length ps \<le> 1 \<and> (statusLoading b \<longleftrightarrow> ps \<noteq> [])"
  by (cases c)
    (auto simp: Let_def idle_def alert_def command_begin_def fetchPing_begin_def ping_disabled_def
      split: if_splits)

lemma deliver_idle: "reply_fits pd r \<Longrightarrow> \<not> statusLoading (cmd_deliver pd r a)"
  by (induction pd r a rule: cmd_deliver.induct)
    (auto simp: command_finish_def fetchPing_finish_def fetchQueryDNS_finish_def fetchPprof_finish_def
      split: reply.splits prod.splits)

lemma form_loading: "statusLoading (form_apply f a) = statusLoading a"
  by (cases f) (simp_all add: closeQueryDNSModal_def closePprofModal_def select_pprof_type_def
      change_pingCount_def change_pingDelay_def change_pingType_def toggle_ping_settings_def Let_def)

lemma stream_loading: "statusLoading (fetch_stream n ty ok a) = statusLoading a"
  by (simp add: fetch_stream_def alert_def Let_def)

lemma page_inv_step: "page_inv p \<Longrightarrow> page_step pp p e q \<Longrightarrow> page_inv q"
proof -
  assume inv: "page_inv p" and step: "page_step pp p e q"
  then have q: "q = page_handle pp e p" and en: "page_enabled e p"
    and ok: "app_ok (pg_app p)" by (auto simp: page_step_iff page_inv_def)
  show "page_inv q"
  proof (cases e)
    case (Click c)
    obtain b ps where start: "cmd_start c (pg_app p) = (b, ps)" by fastforce
    have en': "click_enabled c (pg_app p)" using en Click by simp
    note l = start_loading [OF en' start]
    then have "pg_pending p = []" using inv by (simp add: page_inv_def)
    moreover have "statusLoading (closePprofModal b) = statusLoading b" by (simp add: closePprofModal_def)
    ultimately show ?thesis
      using q Click start l start_ok [OF ok start] by (simp add: page_inv_def untouched_ok)
  next
    case (Deliver i r)
    then have fits: "reply_fits (pg_pending p ! i) r" "i < length (pg_pending p)" using en by auto
    then have "i = 0" "length (pg_pending p) = 1" using inv by (auto simp: page_inv_def)
    then have "remove_at i (pg_pending p) = []" by (simp add: remove_at_def)
    then show ?thesis
      using q Deliver deliver_idle [OF fits(1)] deliver_ok [OF ok] by (simp add: page_inv_def)
  next
    case (Stream s)
    then show ?thesis using inv q en stream_event_ok [OF ok] by (simp add: page_inv_def)
  next
    case (Select s)
    then show ?thesis using inv q en select_ok [OF ok] by (simp add: page_inv_def sel_handle_parts)
  next
    case (Form f)
    then show ?thesis using inv q en form_ok [OF ok] by (simp add: page_inv_def form_loading)
  next
    case (Key k)
    then show ?thesis using inv q key_ok [OF ok] by (simp add: page_inv_def key_loading)
  qed (use inv q in \<open>simp_all add: page_inv_def fetchLogs_def fetchBusEvents_def stream_loading
      fetch_stream_ok panel_ok\<close>)
qed

lemma page_inv_init: "page_inv (page_init inner)"
  by (simp add: page_inv_def page_init_def app_ok_def sel_inv_def output_ok_def settings_ok_def
      stream_ok_def app_init_def obj_simps ws_inv_init PING_TYPES_def LAYOUT_OPTIONS_def
      DEFAULT_LAYOUT_def) (simp add: stream_init_def)

interpretation page: step_invariant "page_step pp" "\<lambda>p. p = page_init inner" page_inv
  by unfold_locales (auto intro: page_inv_init page_inv_step)

end
