(* ===== verification/SelectionProperties.thy ===== *)
theory SelectionProperties
  imports Selection
begin

text \<open>
  The properties of the selection: what is selected is always reachable, the two
  select-all buttons, the default selection after loading, and what toggling a host, hiding
  offline peers and resetting the view do to the selected targets.
\<close>

text \<open>
  C6. The selection stays consistent: from the first render on, after any sequence of the
  actions the controls offer (each followed by the effects it triggers), every selected
  host is a known host, and every selected target is reachable: a node that is no host, has
  an edge from a selected host, and is online when offline peers are hidden.
\<close>

theorem selection_within_reach:
  assumes "run (sel_step redact sf) (app_init inner) acts a"
  shows "set (selectedHosts a) \<subseteq> set (app_hosts a)
    \<and> distinct (selectedHosts a) \<and> distinct (selectedTargets a)
    \<and> (\<forall>t \<in> set (selectedTargets a).
         t \<in> n_id ` set (app_nodes a) \<and> t \<notin> set (app_hosts a)
         \<and> (\<exists>h \<in> set (selectedHosts a). has_edge (app_edges a) h t)
         \<and> (hideOfflinePeers a \<longrightarrow> isOnline (app_nodes a) t))"
  using sel.inv_reach [OF refl assms]
  by (auto simp: sel_inv_def app_reachable_def set_reachableTargets)

text \<open>A small network for the witnesses: host \<open>h\<close> sees \<open>p\<close> (online) and \<open>q\<close> (offline).\<close>

definition sample_node :: "string \<Rightarrow> bool \<Rightarrow> jsv" where
  "sample_node i online =
     JObj [(''id'', JStr i), (''label'', JStr i), (''data'', JObj [(''Online'', JBool online)])]"

definition sample_edge :: "string \<Rightarrow> string \<Rightarrow> jsv" where
  "sample_edge s t = JObj [(''id'', JStr (s @ ''->'' @ t)), (''source'', JStr s), (''target'', JStr t)]"

definition sample_peermap :: jsv where
  "sample_peermap =
     JObj [(''hosts'', JArr [JStr ''h'', JStr ''g'']),
           (''nodes'', JArr [sample_node ''p'' True, sample_node ''q'' False, sample_node ''g'' True]),
           (''edges'', JArr [sample_edge ''h'' ''p'', sample_edge ''h'' ''q'', sample_edge ''h'' ''g''])]"

definition loaded_app :: app where
  "loaded_app = sel_handle False to_str (Loaded (Inr sample_peermap)) (app_init 800)"

lemma loaded_step:
  "sel_step False to_str (app_init 800) (Loaded (Inr sample_peermap)) loaded_app"
  unfolding loaded_app_def by (rule sel_step) (simp add: app_init_def)

lemma loaded_run: "run (sel_step False to_str) (app_init 800) [Loaded (Inr sample_peermap)] loaded_app"
  by (rule run_cons, rule loaded_step, rule run_nil)

lemma loaded_inv: "sel_inv loaded_app"
  by (rule sel.inv_reach [OF refl loaded_run])

lemma loaded_facts:
  "selectedHosts loaded_app = [''h'', ''g'']" "app_hosts loaded_app = [''h'', ''g'']"
  "selectedTargets loaded_app = [''p'']" "map n_id (app_nodes loaded_app) = [''p'', ''q'', ''g'']"
  "app_reachable loaded_app = [''p'']" "app_loading (app_init 800)"
  by code_simp+

theorem selection_within_reach_witness:
  "\<exists>h \<in> set (selectedHosts loaded_app). has_edge (app_edges loaded_app) h ''p''"
  using selection_within_reach [OF loaded_run] by (simp add: loaded_facts)

text \<open>
  The select-all buttons compare sizes and are still exact: in every reachable state
  with distinct node ids, toggling all targets selects nothing when all reachable targets
  were selected and all of them otherwise; with distinct hosts the same holds of the hosts
  button.
\<close>

lemma toggle_all_correct:
  assumes "run (sel_step redact sf) (app_init inner) acts a"
    and "distinct (map n_id (app_nodes a))" and "distinct (app_hosts a)"
  shows "set (selectedTargets (sel_handle redact sf ToggleAllTargets a)) =
      (if set (selectedTargets a) = set (app_reachable a) then {} else set (app_reachable a))
    \<and> set (selectedHosts (sel_handle redact sf ToggleAllHosts a)) =
      (if set (selectedHosts a) = set (app_hosts a) then {} else set (app_hosts a))"
  using all_selected_iff [OF sel.inv_reach [OF refl assms(1)] assms(2)]
    all_hosts_selected_iff [OF sel.inv_reach [OF refl assms(1)] assms(3)]
  by (auto simp: sel_handle_def settle_untouched touched_def clean_def toggleAllTargets_def
      toggleAllHosts_def obj_simps)

lemma toggle_all_correct_example:
  "set (selectedTargets (sel_handle False to_str ToggleAllTargets loaded_app)) = {}"
  using toggle_all_correct [OF loaded_run] by (simp add: loaded_facts)

text \<open>
  The default selection: when a peer map loads with at least one host and one node,
  all its hosts are selected and exactly the targets reachable from them; the same happens
  to the targets whenever "Hide Offline" is toggled, whatever the user had deselected.
\<close>

lemma default_selection:
  assumes "sel_inv a" and "act = ToggleHideOffline \<or> act = Loaded out"
    and "sel_handle redact sf act a = b"
    and "act = Loaded out \<Longrightarrow> app_error b = None \<and> app_error a = None"
    and "app_nodes b \<noteq> []" and "app_hosts b \<noteq> []"
  shows "set (selectedTargets b) = set (app_reachable b)
    \<and> (act = Loaded out \<longrightarrow> set (selectedHosts b) = set (app_hosts b))"
  using assms(2)
proof
  assume act: "act = ToggleHideOffline"
  let ?c = "a\<lparr>hideOfflinePeers := \<not> hideOfflinePeers a\<rparr>"
  have b: "b = settle (?c, clean\<lparr>d_hide := True\<rparr>)" using assms(3) act by (simp add: sel_handle_def)
  have "set (selectedTargets (settle (?c, clean\<lparr>d_hide := True\<rparr>))) = set (app_reachable ?c)"
    by (rule settle_reselects) (use assms(1,5,6) b in \<open>auto simp: sel_inv_def\<close>)
  then show ?thesis using b act by simp
next
  assume act: "act = Loaded out"
  obtain c d where cd: "fetchData redact sf out a = (c, d)" by (cases "fetchData redact sf out a")
  then have b: "b = settle (c, d)" using assms(3) act by (simp add: sel_handle_def)
  have err: "app_error c = None"
    using assms(4) [OF act] b by (auto simp: settle_def Let_def effect_select_all_def
        effect_deselect_offline_def effect_prune_unreachable_def split: if_splits)
  with cd assms(4) [OF act] have d: "d_nodes d" "set (selectedHosts c) = set (app_hosts c)"
    "selectedTargets c = selectedTargets a"
    by (auto simp: fetchData_def Let_def obj_simps split: sum.splits if_splits)
  have "set (selectedTargets (settle (c, d))) = set (app_reachable c)"
    by (rule settle_reselects) (use assms(1,5,6) b d in \<open>auto simp: sel_inv_def\<close>)
  then show ?thesis using b d by simp
qed

lemma default_selection_example:
  "set (selectedTargets (sel_handle False to_str ToggleHideOffline
     (sel_handle False to_str (ToggleTarget ''p'') loaded_app))) = {''p'', ''q''}"
proof -
  let ?a = "sel_handle False to_str (ToggleTarget ''p'') loaded_app"
  have "sel_enabled (ToggleTarget ''p'') loaded_app" by code_simp
  from sel_inv_step [OF loaded_inv sel_step [OF this]]
  have inv: "sel_inv ?a" .
  have ne: "app_nodes (sel_handle False to_str ToggleHideOffline ?a) \<noteq> []"
    "app_hosts (sel_handle False to_str ToggleHideOffline ?a) \<noteq> []"
    "set (app_reachable (sel_handle False to_str ToggleHideOffline ?a)) = {''p'', ''q''}"
    by code_simp+
  show ?thesis
    using default_selection [OF inv _ refl _ ne(1,2), where out = "Inr JNull"] ne(3) by simp
qed

text \<open>
  Toggling a host keeps exactly the selected targets that some host selected afterwards
  has an edge to: deselecting a host drops what only it reached, and selecting one drops
  nothing and adds no target.
\<close>

lemma toggle_host_targets:
  assumes "sel_inv a"
  shows "set (selectedTargets (sel_handle redact sf (ToggleHost h) a)) =
    {t \<in> set (selectedTargets a).
       \<exists>g \<in> (if h \<in> set (selectedHosts a) then set (selectedHosts a) - {h}
              else insert h (set (selectedHosts a))). has_edge (app_edges a) g t}"
proof -
  have "set (selectedTargets (sel_handle redact sf (ToggleHost h) a)) =
      {t \<in> set (selectedTargets a). t \<in> set (app_reachable (toggleHost h a))}"
    using assms by (auto simp: sel_handle_def settle_def Let_def clean_def toggleHost_def
        prune_selected sel_inv_def)
  also have "\<dots> = {t \<in> set (selectedTargets a).
      \<exists>g \<in> set (selectedHosts (toggleHost h a)). has_edge (app_edges a) g t}"
    using assms by (auto simp: app_reachable_def set_reachableTargets toggleHost_def sel_inv_def)
  finally show ?thesis by (simp add: toggleHost_def set_set_toggle)
qed

lemma toggle_host_targets_example:
  "set (selectedTargets (sel_handle False to_str (ToggleHost ''h'') loaded_app)) = {}"
proof -
  have "\<not> has_edge (app_edges loaded_app) ''g'' ''p''" by code_simp
  then show ?thesis
    using toggle_host_targets [OF loaded_inv, of False to_str "''h''"]
    by (auto simp: loaded_facts)
qed

text \<open>
  Resetting the view selects all hosts and exactly the targets reachable from them
  (respecting "Hide Offline"), forgets dragged positions, restores the default layout and
  remounts the graph.
\<close>

lemma reset_view:
  assumes "sel_handle redact sf ResetView a = b"
  shows "set (selectedHosts b) = set (app_hosts b) \<and> set (selectedTargets b) = set (app_reachable b)
    \<and> layoutType b = DEFAULT_LAYOUT \<and> draggedNodes b = [] \<and> graphKey b = graphKey a + 1"
proof -
  have b: "b = effect_prune_unreachable (resetView a)"
    using assms by (simp add: sel_handle_def settle_def Let_def clean_def)
  have "distinct (selectedTargets (resetView a))" by (simp add: resetView_def distinct_new_set)
  then have "set (selectedTargets b) =
      {t \<in> set (app_targetNodes a). t \<in> set (app_reachable (resetView a))}"
    using b by (auto simp: prune_selected resetView_def set_new_set)
  also have "\<dots> = set (app_reachable b)"
    using b by (auto simp: app_targetNodes_def app_reachable_def resetView_def set_reachableTargets
        set_targetNodes)
  finally show ?thesis
    using b by (simp add: resetView_def set_new_set effect_prune_unreachable_def Let_def)
qed

lemma reset_view_example:
  "set (selectedTargets (sel_handle False to_str ResetView loaded_app))
     = set (app_reachable (sel_handle False to_str ResetView loaded_app))"
  using reset_view [OF refl, of False to_str loaded_app] by blast

end
