(* ===== verification/PingProperties.thy ===== *)
theory PingProperties
  imports Ping SelectionProperties
begin

text \<open>
  The properties of the ping command: which pairs it sends, when its button is offered, what
  a failure and a response store, and which colour an edge gets.
\<close>

section \<open>Grouping\<close>

lemma group_one_host:
  fixes h :: string and ts :: "string list"
  shows "h \<notin> fst ` set m \<Longrightarrow> ts \<noteq> [] \<Longrightarrow>
     foldl (\<lambda>m (hostId, peerId).
         map_set hostId ((case map_of m hostId of None \<Rightarrow> [] | Some ts \<Rightarrow> ts) @ [peerId]) m)
       m (map (Pair h) ts) = m @ [(h, ts)]"
proof (induction ts rule: rev_induct)
  case (snoc t ts)
  have new: "map_set h v m = m @ [(h, v)]" if "h \<notin> fst ` set m" for v and m :: "(string \<times> string list) list"
    using that by (induction m) (auto simp: map_set_def)
  have upd: "map_set h v (m @ [(h, ts)]) = m @ [(h, v)]" if "h \<notin> fst ` set m" for v and m :: "(string \<times> string list) list"
    using that by (induction m) (auto simp: map_set_def)
  have none: "map_of m h = None" using snoc.prems(1) by (simp add: map_of_eq_None_iff)
  then have look: "map_of (m @ [(h, ts)]) h = Some ts" by (simp add: map_add_def)
  show ?case
    by (cases "ts = []") (use snoc new upd look none in \<open>simp_all del: map_of_append\<close>)
qed simp

lemma group_blocks_acc:
  fixes hs :: "string list" and f :: "string \<Rightarrow> string list"
  shows "distinct hs \<Longrightarrow> fst ` set m \<inter> set hs = {} \<Longrightarrow>
     foldl (\<lambda>m (hostId, peerId).
         map_set hostId ((case map_of m hostId of None \<Rightarrow> [] | Some ts \<Rightarrow> ts) @ [peerId]) m)
       m (concat (map (\<lambda>h. map (Pair h) (f h)) hs))
     = m @ map (\<lambda>h. (h, f h)) (filter (\<lambda>h. f h \<noteq> []) hs)"
proof (induction hs arbitrary: m)
  case (Cons h hs)
  show ?case
  proof (cases "f h = []")
    case False
    with Cons.prems have "h \<notin> fst ` set m" by auto
    from group_one_host [OF this False] show ?thesis
      using Cons.IH [of "m @ [(h, f h)]"] Cons.prems False by auto
  qed (use Cons in auto)
qed simp

lemma group_blocks:
  "distinct hs \<Longrightarrow>
     group_targets (concat (map (\<lambda>h. map (Pair h) (f h)) hs)) =
       map (\<lambda>h. (h, f h)) (filter (\<lambda>h. f h \<noteq> []) hs)"
  using group_blocks_acc [of hs "[]" f] by (simp add: group_targets_def)

lemma group_targets_combinations:
  "distinct S \<Longrightarrow>
     group_targets (getTargetedCombinations S T E) =
       map (\<lambda>h. (h, filter (has_edge E h) (targets_for_host S T E h)))
         (filter (\<lambda>h. filter (has_edge E h) (targets_for_host S T E h) \<noteq> []) S)"
  unfolding getTargetedCombinations_def by (rule group_blocks)

lemma ungroup_targets:
  "concat (map (\<lambda>(h, ts). map (Pair h) ts) (map (\<lambda>h. (h, f h)) (filter (\<lambda>h. f h \<noteq> []) hs))) =
     concat (map (\<lambda>h. map (Pair h) (f h)) hs)"
  by (induction hs) auto

lemma ungroup_combinations:
  "distinct S \<Longrightarrow>
     concat (map (\<lambda>(h, ts). map (Pair h) ts) (group_targets (getTargetedCombinations S T E))) =
       getTargetedCombinations S T E"
  by (simp only: group_targets_combinations ungroup_targets)
    (simp add: getTargetedCombinations_def)

lemma group_targets_nonempty:
  "distinct S \<Longrightarrow> (h, ts) \<in> set (group_targets (getTargetedCombinations S T E)) \<Longrightarrow>
     ts \<noteq> [] \<and> distinct ts"
  by (auto simp: group_targets_combinations distinct_targets_for_host)

lemma group_targets_distinct:
  "distinct S \<Longrightarrow> distinct (map fst (group_targets (getTargetedCombinations S T E)))"
  by (simp add: group_targets_combinations comp_def)

lemma in_ping_combinations:
  "(h, p) \<in> set (ping_combinations a) \<longleftrightarrow>
     h \<in> set (selectedHosts a) \<and> isOnline (app_nodes a) h \<and> isOnline (app_nodes a) p
     \<and> has_edge (app_edges a) h p
     \<and> (p \<in> set (selectedTargets a) \<or> p \<in> set (selectedHosts a) \<and> p \<noteq> h)"
  by (auto simp: ping_combinations_def in_combinations set_new_set set_filterOnline)

text \<open>
  C7. A ping is sent to exactly the right pairs: the request lists a pair of a host and a
  target if and only if both are online, an edge leads from the host to the target, the
  host is selected, and the target is a selected target or another selected host. No pair
  is sent twice, every host has one entry, and no entry is without targets.
\<close>

theorem ping_request_pairs:
  "distinct (concat (map (\<lambda>(h, ts). map (Pair h) ts) (pi_args (ping_request a))))
   \<and> distinct (map fst (pi_args (ping_request a)))
   \<and> [] \<notin> snd ` set (pi_args (ping_request a))
   \<and> ((h, p) \<in> set (concat (map (\<lambda>(h, ts). map (Pair h) ts) (pi_args (ping_request a)))) \<longleftrightarrow>
       h \<in> set (selectedHosts a) \<and> isOnline (app_nodes a) h \<and> isOnline (app_nodes a) p
       \<and> has_edge (app_edges a) h p
       \<and> (p \<in> set (selectedTargets a) \<or> p \<in> set (selectedHosts a) \<and> p \<noteq> h))"
proof -
  have flat: "concat (map (\<lambda>(h, ts). map (Pair h) ts) (pi_args (ping_request a))) = ping_combinations a"
    by (simp add: ping_request_def ping_combinations_def ungroup_combinations distinct_new_set)
  have "distinct (ping_combinations a)"
    by (simp add: ping_combinations_def distinct_combinations distinct_new_set)
  moreover have "distinct (map fst (pi_args (ping_request a)))"
    by (simp add: ping_request_def ping_combinations_def group_targets_distinct distinct_new_set)
  moreover have "[] \<notin> snd ` set (pi_args (ping_request a))"
    using group_targets_nonempty [OF distinct_new_set]
    by (fastforce simp: ping_request_def ping_combinations_def)
  ultimately show ?thesis by (simp only: flat in_ping_combinations) simp
qed

section \<open>The button\<close>

lemma some_pair_linked_iff:
  "distinct hs \<Longrightarrow>
     some_pair_linked E hs \<longleftrightarrow> (\<exists>h \<in> set hs. \<exists>k \<in> set hs. h \<noteq> k \<and> has_edge E h k)"
proof (induction hs)
  case (Cons h hs)
  then have "some_pair_linked E (h # hs) \<longleftrightarrow>
      (\<exists>k \<in> set hs. has_edge E h k \<or> has_edge E k h)
      \<or> (\<exists>x \<in> set hs. \<exists>k \<in> set hs. x \<noteq> k \<and> has_edge E x k)"
    by (simp add: list_ex_iff del: has_edge_iff)
  with Cons.prems show ?case by auto
qed simp

lemma hosts_linked_iff:
  "distinct (selectedHosts a) \<Longrightarrow>
     selectedHostsHaveEdges a \<longleftrightarrow>
       (\<exists>h \<in> set (selectedHosts a). \<exists>k \<in> set (selectedHosts a). h \<noteq> k \<and> has_edge (app_edges a) h k)"
proof -
  assume d: "distinct (selectedHosts a)"
  have "length (selectedHosts a) < 2 \<Longrightarrow> h \<in> set (selectedHosts a) \<Longrightarrow> k \<in> set (selectedHosts a) \<Longrightarrow> h = k"
    for h k
    by (cases "selectedHosts a"; cases "tl (selectedHosts a)") auto
  with some_pair_linked_iff [OF d] show ?thesis by (auto simp: selectedHostsHaveEdges_def)
qed



section \<open>The stored results\<close>

text \<open>
  The nested record \<open>results[host][target]\<close> is a keyed collection over pairs, so the laws of
  a loop of writes hold of it.
\<close>

definition result_of :: "ping_results \<Rightarrow> string \<times> string \<Rightarrow> jsv option" where
  "result_of r ht = (case obj_get r (fst ht) of None \<Rightarrow> None | Some m \<Rightarrow> obj_get m (snd ht))"

definition put_pair :: "string \<times> string \<Rightarrow> jsv \<Rightarrow> ping_results \<Rightarrow> ping_results" where
  "put_pair ht v r = put_result (fst ht) (snd ht) v r"

definition pair_keys :: "ping_results \<Rightarrow> (string \<times> string) list" where
  "pair_keys r = concat (map (\<lambda>h. map (Pair h) (obj_keys (the (obj_get r h)))) (obj_keys r))"

definition results_wf :: "ping_results \<Rightarrow> bool" where
  "results_wf r \<longleftrightarrow> obj_wf r \<and> (\<forall>m \<in> snd ` set r. obj_wf m)"

lemma result_of_put:
  "result_of (put_pair ht v r) = (result_of r)(ht \<mapsto> v)"
  by (cases ht) (auto simp: fun_eq_iff result_of_def put_pair_def put_result_def obj_simps
      split: option.splits)

lemma values_update: "snd ` set (AList.update k v al) \<subseteq> insert v (snd ` set al)"
  by (induction al) auto

lemma inner_wf: "results_wf r \<Longrightarrow> obj_get r h = Some m \<Longrightarrow> obj_wf m"
  by (force simp: results_wf_def obj_get_def dest!: map_of_SomeD)

lemma results_wf_put: "results_wf r \<Longrightarrow> results_wf (put_pair ht v r)"
proof -
  assume wf: "results_wf r"
  let ?m = "case obj_get r (fst ht) of None \<Rightarrow> [] | Some m \<Rightarrow> m"
  have "obj_wf ?m" by (auto simp: obj_simps inner_wf [OF wf] split: option.splits)
  then have "obj_wf (obj_set (snd ht) v ?m)" by (rule obj_wf_set)
  then have "\<forall>m \<in> insert (obj_set (snd ht) v ?m) (snd ` set r). obj_wf m"
    using wf by (auto simp: results_wf_def)
  with values_update [of "fst ht" "obj_set (snd ht) v ?m" r]
  have "\<forall>m \<in> snd ` set (put_pair ht v r). obj_wf m"
    unfolding put_pair_def put_result_def obj_set_def [of "fst ht"] by blast
  moreover have "obj_wf (put_pair ht v r)"
    using wf by (simp add: results_wf_def put_pair_def put_result_def obj_simps)
  ultimately show ?thesis by (simp add: results_wf_def)
qed

interpretation pingmap: keyed_collection "[]" result_of put_pair pair_keys results_wf
proof
  fix m :: ping_results and k :: "string \<times> string" and v
  show "result_of [] k = None" by (simp add: result_of_def obj_simps)
  show "result_of (put_pair k v m) = (result_of m)(k \<mapsto> v)" by (rule result_of_put)
  show "results_wf []" by (simp add: results_wf_def obj_simps)
  show "results_wf m \<Longrightarrow> results_wf (put_pair k v m)" by (rule results_wf_put)
  show "distinct (pair_keys m)" if wf: "results_wf m"
    unfolding pair_keys_def
  proof (rule distinct_concat_pairs)
    show "distinct (obj_keys m)" using wf by (simp add: results_wf_def distinct_obj_keys)
    show "distinct (obj_keys (the (obj_get m h)))" if "h \<in> set (obj_keys m)" for h
      using that inner_wf [OF wf, of h] by (auto simp: set_obj_keys intro: distinct_obj_keys)
  qed
  show "set (pair_keys m) = dom (result_of m)"
  proof (rule set_eqI)
    fix ht :: "string \<times> string"
    obtain h t where ht: "ht = (h, t)" by (cases ht)
    have "ht \<in> set (pair_keys m) \<longleftrightarrow> h \<in> set (obj_keys m) \<and> t \<in> set (obj_keys (the (obj_get m h)))"
      by (auto simp: pair_keys_def ht)
    also have "\<dots> \<longleftrightarrow> ht \<in> dom (result_of m)"
      by (auto simp: set_obj_keys result_of_def ht split: option.splits)
    finally show "ht \<in> set (pair_keys m) \<longleftrightarrow> ht \<in> dom (result_of m)" .
  qed
qed

lemma result_of_json:
  "(case obj_get (ping_results_json r) h of Some (JObj m) \<Rightarrow> obj_get m t | _ \<Rightarrow> None) =
     result_of r (h, t)"
proof -
  have "obj_get (ping_results_json r) h = map_option JObj (obj_get r h)"
    by (induction r) (auto simp: ping_results_json_def obj_get_def)
  then show ?thesis by (simp add: result_of_def split: option.splits)
qed

text \<open>What the output panel holds for a pair.\<close>

definition pair_output :: "app \<Rightarrow> string \<times> string \<Rightarrow> jsv option" where
  "pair_output a ht =
     (case obj_get (outputData a) (fst ht) of Some (JObj m) \<Rightarrow> obj_get m (snd ht) | _ \<Rightarrow> None)"

lemma show_first_fields [simp]:
  "outputData (show_first ks a) = outputData a" "edgeColors (show_first ks a) = edgeColors a"
  "app_edges (show_first ks a) = app_edges a" "selectedHosts (show_first ks a) = selectedHosts a"
  by (auto simp: show_first_def split: list.splits)

lemma finish_fields:
  "pair_output (fetchPing_finish ht out a) = result_of (fst (ping_outcome ht out))"
  "edgeColors (fetchPing_finish ht out a) = obj_spread (edgeColors a) (snd (ping_outcome ht out))"
  "\<not> statusLoading (fetchPing_finish ht out a)"
  "app_edges (fetchPing_finish ht out a) = app_edges a"
  "selectedHosts (fetchPing_finish ht out a) = selectedHosts a"
  by (auto simp: fetchPing_finish_def fun_eq_iff pair_output_def result_of_json split: prod.splits)

lemma fold_assign_all: "foldl (\<lambda>r x. upd (f x) (g x) r) m xs = assign_all upd m (map (\<lambda>x. (f x, g x)) xs)"
  by (induction xs arbitrary: m) (simp_all add: assign_all_def)

lemma mark_errored_assign:
  "mark_errored hostTargets e r =
     assign_all put_pair r
       (map (\<lambda>ht. (ht, error_object (message_or e ''Unknown error'')))
         (concat (map (\<lambda>(h, ts). map (Pair h) ts) hostTargets)))"
proof (induction hostTargets arbitrary: r)
  case (Cons x hostTargets)
  obtain h ts where x: "x = (h, ts)" by (cases x)
  let ?err = "error_object (message_or e ''Unknown error'')"
  have "mark_errored (x # hostTargets) e r =
      mark_errored hostTargets e (foldl (\<lambda>r' t. put_pair (h, t) ?err r') r ts)"
    by (simp add: mark_errored_def x put_pair_def)
  also have "foldl (\<lambda>r' t. put_pair (h, t) ?err r') r ts =
      assign_all put_pair r (map (\<lambda>t. ((h, t), ?err)) ts)"
    by (rule fold_assign_all)
  finally show ?case
    by (simp add: Cons.IH x assign_all_def comp_def)
qed (simp add: mark_errored_def assign_all_def)

lemma map_of_const: "map_of (map (\<lambda>x. (x, c)) xs) k = (if k \<in> set xs then Some c else None)"
  by (induction xs) auto

text \<open>
  C35. A failed ping is shown as failed, pair by pair: when the request fails with an
  exception, exactly the pairs that were requested hold an error object with its message,
  no edge changes its colour, and the command is no longer pending.
\<close>

theorem ping_failure_marks_pairs:
  assumes "executePing env net (ping_request a) = Inl e"
  shows "pair_output (fetchPing env net a) (h, p) =
      (if (h, p) \<in> set (ping_combinations a)
       then Some (error_object (message_or e ''Unknown error'')) else None)
    \<and> edgeColors (fetchPing env net a) = edgeColors a
    \<and> \<not> statusLoading (fetchPing env net a)"
proof -
  have flat: "concat (map (\<lambda>(h, ts). map (Pair h) ts) (group_targets (ping_combinations a))) =
      ping_combinations a"
    by (simp add: ping_combinations_def ungroup_combinations distinct_new_set)
  have "edgeColors (fetchPing_begin a) = edgeColors a" by (simp add: fetchPing_begin_def)
  with assms show ?thesis
    by (simp add: fetchPing_def finish_fields ping_outcome_def mark_errored_assign flat
        pingmap.lookup_assign_all pingmap.lookup_empty rev_map map_of_const obj_spread_def)
qed

definition offline_net :: network where
  "offline_net rq = Rejected (Error ''Failed to fetch'')"

definition sample_env :: page_env where
  "sample_env =
     \<lparr>env_prod = False, env_protocol = ''http:'', env_host = ''x'', env_hostname = ''x''\<rparr>"

theorem ping_failure_marks_pairs_witness:
  "pair_output (fetchPing sample_env offline_net loaded_app) (''h'', ''p'')
     = Some (JObj [(''error'', JStr ''Failed to fetch'')])"
proof -
  have fails: "executePing e offline_net i = Inl (Error ''Failed to fetch'')" for e i
    by (simp add: executePing_def offline_net_def read_ok_json_def)
  have pair: "(''h'', ''p'') \<in> set (ping_combinations loaded_app)" by code_simp
  from ping_failure_marks_pairs [OF fails, of sample_env loaded_app "''h''" "''p''"] pair
  show ?thesis by (simp add: error_object_def message_or_def)
qed

section \<open>A response\<close>

definition entry_pair :: "jsv \<Rightarrow> string \<times> string" where
  "entry_pair x = (to_str (js_opt_prop x ''host''), to_str (js_opt_prop x ''target''))"

definition entry_results :: "jsv \<Rightarrow> jsv" where
  "entry_results x = js_opt_prop x ''results''"

definition entry_colors :: "jsv \<Rightarrow> (string \<times> string) list" where
  "entry_colors x =
     (case last_color (entry_results x) of
        None \<Rightarrow> [] | Some c \<Rightarrow> [(edge_key (fst (entry_pair x)) (snd (entry_pair x)), c)])"

lemma js_prop_opt: "x \<noteq> JUndef \<Longrightarrow> x \<noteq> JNull \<Longrightarrow> js_prop x k = Inr (js_opt_prop x k)"
  using js_prop_throws [of x k] by (auto simp: js_opt_prop_def split: sum.splits)

lemma add_ping_results_assign:
  "\<forall>x \<in> set xs. x \<noteq> JUndef \<and> x \<noteq> JNull \<Longrightarrow>
     add_ping_results xs (r, c) =
       (None, assign_all put_pair r (map (\<lambda>x. (entry_pair x, entry_results x)) xs),
        assign_all obj_set c (concat (map entry_colors xs)))"
proof (induction xs arbitrary: r c)
  case (Cons x xs)
  then have "add_ping_result x (r, c) =
      Inr (put_pair (entry_pair x) (entry_results x) r, assign_all obj_set c (entry_colors x))"
    by (simp add: add_ping_result_def js_prop_opt put_pair_def entry_pair_def entry_results_def
        entry_colors_def assign_all_def split: option.splits)
  then show ?case using Cons by (simp add: assign_all_def)
qed (simp add: assign_all_def)

lemma spread_assign: "obj_spread m upd = assign_all obj_set m upd"
  by (simp add: obj_spread_def assign_all_def)

lemma map_of_rev_last:
  "k \<notin> fst ` set zs \<Longrightarrow> map_of (rev (ys @ (k, v) # zs)) k = Some v"
proof -
  assume "k \<notin> fst ` set zs"
  then have "map_of (rev zs) k = None" by (simp add: map_of_eq_None_iff)
  then show ?thesis by (simp add: map_add_def)
qed

lemma fetched_ping:
  assumes "executePing env net (ping_request a) = Inr (JArr xs)"
    and "\<forall>x \<in> set xs. x \<noteq> JUndef \<and> x \<noteq> JNull"
  shows "pair_output (fetchPing env net a) ht =
      map_of (rev (map (\<lambda>x. (entry_pair x, entry_results x)) xs)) ht"
    and "obj_get (edgeColors (fetchPing env net a)) k =
      (case map_of (rev (concat (map entry_colors xs))) k of
         None \<Rightarrow> obj_get (edgeColors a) k | Some c \<Rightarrow> Some c)"
proof -
  show "pair_output (fetchPing env net a) ht =
      map_of (rev (map (\<lambda>x. (entry_pair x, entry_results x)) xs)) ht"
    using assms by (simp add: fetchPing_def finish_fields ping_outcome_def add_ping_results_assign
        pingmap.lookup_assign_all pingmap.lookup_empty split: option.splits)
  have "edgeColors (fetchPing_begin a) = edgeColors a" by (simp add: fetchPing_begin_def)
  moreover have "map_of (rev (assign_all obj_set [] es)) k = map_of (rev es) k"
    for es :: "(string \<times> string) list"
  proof -
    have "map_of (rev (assign_all obj_set [] es)) = map_of (assign_all obj_set [] es)"
      using obj.wf_assign_all [OF obj.wf_empty, of es]
      by (subst map_of_inject_set) (simp_all add: obj_wf_def rev_map [symmetric])
    then show ?thesis
      using obj.lookup_assign_all [of "[]" es k] by (simp add: obj_get_def split: option.splits)
  qed
  ultimately show "obj_get (edgeColors (fetchPing env net a)) k =
      (case map_of (rev (concat (map entry_colors xs))) k of
         None \<Rightarrow> obj_get (edgeColors a) k | Some c \<Rightarrow> Some c)"
    using assms by (simp add: fetchPing_def finish_fields ping_outcome_def add_ping_results_assign
        spread_assign obj.lookup_assign_all)
qed

lemma last_entry_color:
  assumes "xs = ys @ x # zs" and "last_color (entry_results x) = Some c"
    and "\<And>z. z \<in> set zs \<Longrightarrow>
      edge_key (fst (entry_pair z)) (snd (entry_pair z)) \<noteq> edge_key (fst (entry_pair x)) (snd (entry_pair x))"
  shows "map_of (rev (concat (map entry_colors xs)))
      (edge_key (fst (entry_pair x)) (snd (entry_pair x))) = Some c"
proof -
  let ?k = "edge_key (fst (entry_pair x)) (snd (entry_pair x))"
  have "concat (map entry_colors xs) =
      concat (map entry_colors ys) @ (?k, c) # concat (map entry_colors zs)"
    using assms(1,2) by (simp add: entry_colors_def)
  moreover have "?k \<notin> fst ` set (concat (map entry_colors zs))"
    by (auto simp: entry_colors_def split: option.splits) (metis assms(3))
  ultimately show ?thesis using map_of_rev_last by (metis (no_types))
qed

lemma edge_key_inj:
  assumes "CHR ''-'' \<notin> set h" and "CHR ''-'' \<notin> set h'" and "edge_key h t = edge_key h' t'"
  shows "h = h' \<and> t = t'"
proof -
  have "takeWhile (\<lambda>c. c \<noteq> CHR ''-'') (edge_key h t) = h"
    and "takeWhile (\<lambda>c. c \<noteq> CHR ''-'') (edge_key h' t') = h'"
    using assms(1,2) by (auto simp: edge_key_def takeWhile_tail)
  with assms(3) show ?thesis by (simp add: edge_key_def)
qed

lemma drawn_edge:
  "e \<in> set (app_edges a) \<Longrightarrow> e_source e \<in> set (selectedHosts a) \<Longrightarrow>
     obj_get (edgeColors a) (edge_key (e_source e) (e_target e)) = Some c \<Longrightarrow> c \<noteq> [] \<Longrightarrow>
     (e, Some c) \<in> set (filteredEdges a)"
  by (force simp: filteredEdges_def set_elems)

lemma last_color_nonempty: "last_color v = Some c \<Longrightarrow> c \<noteq> []"
  by (auto simp: last_color_def edge_color_nonempty split: jsv.splits if_splits)

lemma fetchPing_graph:
  "app_edges (fetchPing env net a) = app_edges a"
  "selectedHosts (fetchPing env net a) = selectedHosts a"
  by (simp_all add: fetchPing_def finish_fields fetchPing_begin_def)

text \<open>
  C22. A response is shown faithfully: the panel holds, for the pair of each entry that no
  later entry repeats, its results; and when no host name contains a dash, the drawn edge
  between them has the colour of its last result.
\<close>

theorem ping_results_shown:
  assumes "executePing env net (ping_request a) = Inr (JArr (ys @ x # zs))"
    and "\<forall>z \<in> set (ys @ x # zs). z \<noteq> JUndef \<and> z \<noteq> JNull"
    and "entry_pair x = (h, t)" and "(h, t) \<notin> entry_pair ` set zs"
    and "\<forall>z \<in> set (x # zs). CHR ''-'' \<notin> set (fst (entry_pair z))"
    and "entry_results x = JArr rs" and "rs \<noteq> []"
    and "e \<in> set (app_edges a)" and "e_source e = h" and "e_target e = t"
    and "h \<in> set (selectedHosts a)"
  shows "pair_output (fetchPing env net a) (h, t) = Some (JArr rs)
    \<and> (e, Some (ci_edgeColor (render_connection (classify (last rs)))))
        \<in> set (filteredEdges (fetchPing env net a))"
proof
  show "pair_output (fetchPing env net a) (h, t) = Some (JArr rs)"
    unfolding fetched_ping(1) [OF assms(1,2)] map_append list.map assms(3,6)
    by (rule map_of_rev_last) (use assms(4) in \<open>force\<close>)
  let ?c = "ci_edgeColor (render_connection (classify (last rs)))"
  have c: "last_color (entry_results x) = Some ?c"
    using assms(6,7) by (simp add: last_color_def getEdgeColorFromResult_def connection_refines)
  have "edge_key (fst (entry_pair z)) (snd (entry_pair z)) \<noteq> edge_key (fst (entry_pair x)) (snd (entry_pair x))"
    if "z \<in> set zs" for z
    using edge_key_inj [of "fst (entry_pair z)" "fst (entry_pair x)"] that assms(3,4,5)
    by (metis image_eqI list.set_intros prod.collapse)
  from last_entry_color [OF refl c this] assms(3)
  have "obj_get (edgeColors (fetchPing env net a)) (edge_key h t) = Some ?c"
    by (simp add: fetched_ping(2) [OF assms(1,2)])
  with assms(8-11) show "(e, Some ?c) \<in> set (filteredEdges (fetchPing env net a))"
    by (intro drawn_edge) (auto simp: fetchPing_graph last_color_nonempty [OF c])
qed

definition sample_entry :: "string \<Rightarrow> string \<Rightarrow> jsv \<Rightarrow> jsv" where
  "sample_entry h t r = JObj [(''host'', JStr h), (''target'', JStr t), (''results'', JArr [r])]"

definition reply_net :: "jsv \<Rightarrow> network" where
  "reply_net v rq =
     Responded \<lparr>rsp_status = 200, rsp_json = Inr v, rsp_bytes = []\<rparr>"

lemma reply_ping: "executePing env (reply_net v) i = Inr v"
  by (simp add: executePing_def reply_net_def read_ok_json_def rsp_ok_def)

theorem ping_results_shown_witness:
  "\<exists>e. (e, Some EDGE_DERP) \<in> set (filteredEdges (fetchPing sample_env
      (reply_net (JArr [sample_entry ''h'' ''p'' (JObj [(''DERPRegionID'', JNum 3)])])) loaded_app))"
proof -
  let ?r = "JObj [(''DERPRegionID'', JNum 3)]"
  let ?x = "sample_entry ''h'' ''p'' ?r"
  have x: "entry_pair ?x = (''h'', ''p'')" "entry_results ?x = JArr [?r]" "?x \<noteq> JUndef" "?x \<noteq> JNull"
    by (simp_all add: sample_entry_def entry_pair_def entry_results_def js_opt_prop_def obj_get_def)
  have "app_edges loaded_app \<noteq> []" "e_source (hd (app_edges loaded_app)) = ''h''"
    "e_target (hd (app_edges loaded_app)) = ''p''" by code_simp+
  then obtain e where e: "e \<in> set (app_edges loaded_app)" "e_source e = ''h''" "e_target e = ''p''"
    by (metis hd_in_set)
  have derp: "ci_edgeColor (render_connection (classify (last [?r]))) = EDGE_DERP" by code_simp
  have exec: "executePing sample_env (reply_net (JArr [?x])) (ping_request loaded_app) =
      Inr (JArr ([] @ ?x # []))"
    by (simp add: reply_ping)
  have sel: "''h'' \<in> set (selectedHosts loaded_app)" by (simp add: loaded_facts)
  have "(e, Some (ci_edgeColor (render_connection (classify (last [?r])))))
      \<in> set (filteredEdges (fetchPing sample_env (reply_net (JArr [?x])) loaded_app))"
    by (rule ping_results_shown [OF exec _ x(1) _ _ x(2) _ e sel, THEN conjunct2])
      (use x in simp_all)
  then show ?thesis unfolding derp by blast
qed

text \<open>
  The colour key of an edge is ambiguous: host and target are joined with a dash, so
  the results for host \<open>x\<close>, target \<open>y-z\<close> and for host \<open>x-y\<close>, target \<open>z\<close> share one key, and
  both edges are drawn with the colour of whichever result came last.
\<close>

lemma ping_edge_key_collision:
  assumes "executePing env net (ping_request a) = Inr (JArr [e1, e2])"
    and "e1 \<noteq> JUndef \<and> e1 \<noteq> JNull" and "e2 \<noteq> JUndef \<and> e2 \<noteq> JNull"
    and "entry_pair e1 = (x, y @ ''-'' @ z)" and "entry_pair e2 = (x @ ''-'' @ y, z)"
    and "entry_results e2 = JArr rs" and "rs \<noteq> []"
    and "f \<in> set (app_edges a)" and "e_source f = x" and "e_target f = y @ ''-'' @ z"
    and "x \<in> set (selectedHosts a)"
  shows "(f, Some (getEdgeColorFromResult (last rs))) \<in> set (filteredEdges (fetchPing env net a))"
proof -
  have c: "last_color (entry_results e2) = Some (getEdgeColorFromResult (last rs))"
    using assms(6,7) by (simp add: last_color_def)
  have nn: "\<forall>v \<in> set [e1, e2]. v \<noteq> JUndef \<and> v \<noteq> JNull" using assms(2,3) by simp
  have "map_of (rev (concat (map entry_colors [e1, e2])))
      (edge_key (fst (entry_pair e2)) (snd (entry_pair e2))) = Some (getEdgeColorFromResult (last rs))"
    by (rule last_entry_color [of _ "[e1]" e2 "[]", OF _ c]) simp_all
  then have "obj_get (edgeColors (fetchPing env net a)) (edge_key x (y @ ''-'' @ z)) =
      Some (getEdgeColorFromResult (last rs))"
    using assms(5) by (simp add: fetched_ping(2) [OF assms(1) nn] edge_key_def)
  with assms(8-11) show ?thesis
    by (intro drawn_edge) (auto simp: fetchPing_graph edge_color_nonempty)
qed

definition dashed_app :: app where
  "dashed_app = (app_init 800)\<lparr>app_edges := [\<lparr>e_id = ''e'', e_source = ''a'', e_target = ''b-c''\<rparr>],
     selectedHosts := [''a'']\<rparr>"

lemma ping_edge_key_collision_example:
  "(\<lparr>e_id = ''e'', e_source = ''a'', e_target = ''b-c''\<rparr>, Some EDGE_DERP)
     \<in> set (filteredEdges (fetchPing sample_env
        (reply_net (JArr [sample_entry ''a'' ''b-c'' (JObj []),
           sample_entry ''a-b'' ''c'' (JObj [(''DERPRegionID'', JNum 3)])])) dashed_app))"
proof -
  let ?r = "JObj [(''DERPRegionID'', JNum 3)]"
  have x: "entry_pair (sample_entry h t r) = (h, t)" "entry_results (sample_entry h t r) = JArr [r]"
    "sample_entry h t r \<noteq> JUndef \<and> sample_entry h t r \<noteq> JNull" for h t r
    by (simp_all add: sample_entry_def entry_pair_def entry_results_def js_opt_prop_def obj_get_def)
  have derp: "getEdgeColorFromResult (last [?r]) = EDGE_DERP" by code_simp
  show ?thesis
    unfolding derp [symmetric]
    by (rule ping_edge_key_collision [where x = "''a''" and y = "''b''" and z = "''c''",
        OF reply_ping x(3) x(3)]) (simp_all add: x dashed_app_def)
qed

end
