(* ===== verification/CommandProperties.thy ===== *)
theory CommandProperties
  imports Commands PingProperties
begin

text \<open>
  The properties of the commands: what they send, what an answer and a failure leave in the
  output panel, the decoding of goroutine dumps, the DNS query and the profiles.
\<close>

text \<open>
  A host command asks only the selected hosts that are online, in one request: its
  whole effect depends on the network only through the answer to that one request, it never
  stays pending, it is the last command, and it stops a running stream.
\<close>

lemma host_command_request:
  assumes "net (fetchHostData_request env (cmd_endpoint c)
        (filter (isOnline (app_nodes a)) (selectedHosts a))) =
      net' (fetchHostData_request env (cmd_endpoint c)
        (filter (isOnline (app_nodes a)) (selectedHosts a)))"
  shows "run_host_cmd c env net a = run_host_cmd c env net' a
    \<and> \<not> statusLoading (run_host_cmd c env net a)
    \<and> lastCommand (run_host_cmd c env net a) = cmd_name c
    \<and> \<not> isStreaming (app_stream (run_host_cmd c env net a))"
proof -
  have "isStreaming (cancelStreaming False w) = False" for w
    by (simp add: cancelStreaming_def reset_refs_def Let_def)
  then show ?thesis
    using hc.one_request [of net env c a net'] hc.ends [of c env net a] assms
    by (simp add: onlineSelectedHosts_def filterOnline_def)
qed

lemma host_command_request_example:
  "run_host_cmd Prefs sample_env (\<lambda>rq. if rq_url rq = ''http://x:3621/api/Prefs''
      then offline_net rq else reply_net JNull rq) loaded_app
   = run_host_cmd Prefs sample_env offline_net loaded_app"
proof (rule host_command_request [THEN conjunct1])
  have "rq_url (fetchHostData_request sample_env (cmd_endpoint Prefs) hs) = ''http://x:3621/api/Prefs''"
    for hs by (simp add: fetchHostData_request_def sample_env_def getApiBaseUrl_def)
  then show "(if rq_url (fetchHostData_request sample_env (cmd_endpoint Prefs)
          (filter (isOnline (app_nodes loaded_app)) (selectedHosts loaded_app))) = ''http://x:3621/api/Prefs''
      then offline_net (fetchHostData_request sample_env (cmd_endpoint Prefs)
          (filter (isOnline (app_nodes loaded_app)) (selectedHosts loaded_app)))
      else reply_net JNull (fetchHostData_request sample_env (cmd_endpoint Prefs)
          (filter (isOnline (app_nodes loaded_app)) (selectedHosts loaded_app)))) =
      offline_net (fetchHostData_request sample_env (cmd_endpoint Prefs)
          (filter (isOnline (app_nodes loaded_app)) (selectedHosts loaded_app)))"
    by simp
qed

section \<open>An answer\<close>

lemma rows_lookup:
  "obj_get (assign_all obj_set [] rows) k = map_of (rev rows) k"
  by (simp add: obj.lookup_assign_all obj.lookup_empty split: option.splits)

text \<open>
  An answer is stored host by host: the output has exactly the hosts the entries name
  (\<open>unknown\<close> for an entry without one); the last entry of a host decides, an entry with an
  error giving that error; and when some entry arrived, an output host is selected for which
  there is output, unless that host has an empty name.
\<close>

lemma host_command_answer:
  assumes "filter (isOnline (app_nodes a)) (selectedHosts a) \<noteq> []"
    and "fetchHostData env net (cmd_endpoint c) (filter (isOnline (app_nodes a)) (selectedHosts a))
      = Inr (JArr xs)"
    and "\<forall>x \<in> set xs. x \<noteq> JUndef \<and> x \<noteq> JNull"
    and "xs = ys @ x # zs" and "host_key x \<notin> host_key ` set zs"
  shows "set (obj_keys (outputData (run_host_cmd c env net a))) = host_key ` set xs
    \<and> (truthy (js_opt_prop x ''error'') \<longrightarrow>
        obj_get (outputData (run_host_cmd c env net a)) (host_key x) =
          Some (JObj [(''error'', js_opt_prop x ''error'')]))
    \<and> (\<not> truthy (js_opt_prop x ''error'') \<and> c \<noteq> Goroutines \<longrightarrow>
        obj_get (outputData (run_host_cmd c env net a)) (host_key x) = Some (js_opt_prop x ''result''))
    \<and> ((\<forall>x \<in> set xs. host_key x \<noteq> []) \<longrightarrow>
        (\<exists>h v. selectedOutputHost (run_host_cmd c env net a) = Some h
           \<and> obj_get (outputData (run_host_cmd c env net a)) h = Some v))"
proof -
  let ?rows = "map (\<lambda>x. (host_key x, snd (projr (cmd_entry c x)))) xs"
  let ?b = "run_host_cmd c env net a"
  note b = hc.answered [of a env net c xs, unfolded onlineSelectedHosts_def filterOnline_def, OF assms(1-3)]
  then have out: "outputData ?b = assign_all obj_set [] ?rows" by simp
  have keys: "set (obj_keys (outputData ?b)) = host_key ` set xs"
    by (simp add: out obj.keys_assign_all image_image)
  have "x \<noteq> JUndef" "x \<noteq> JNull" using assms(3,4) by auto
  then obtain v where v: "cmd_entry c x = Inr (host_key x, v)" using cmd_entry_total by blast
  have "map_of (rev ?rows) (host_key x) = Some v"
    unfolding assms(4) map_append list.map v snd_conv sum.sel
    by (rule map_of_rev_last) (use assms(5) in force)
  then have at: "obj_get (outputData ?b) (host_key x) = Some v" by (simp add: out rows_lookup)
  have err: "truthy (js_opt_prop x ''error'') \<Longrightarrow> v = JObj [(''error'', js_opt_prop x ''error'')]"
    using hc.entry_error [OF v] .
  have res: "v = js_opt_prop x ''result''" if "\<not> truthy (js_opt_prop x ''error'')" "c \<noteq> Goroutines"
    using that v by (cases c) (auto simp: host_entry_def Let_def exn_bind_def split: sum.splits)
  have sel: "\<exists>h w. selectedOutputHost ?b = Some h \<and> obj_get (outputData ?b) h = Some w"
    if ne: "\<forall>x \<in> set xs. host_key x \<noteq> []"
  proof (cases "obj_keys (outputData ?b)")
    case Nil
    with keys assms(4) show ?thesis by auto
  next
    case (Cons k ks)
    then have "k \<in> host_key ` set xs" using keys by auto
    with ne have "k \<noteq> []" by auto
    with Cons b out have "selectedOutputHost ?b = Some k" by simp
    moreover have "\<exists>w. obj_get (outputData ?b) k = Some w"
      using obj.first_key_bound [of ?rows k ks] Cons out by simp
    ultimately show ?thesis by blast
  qed
  show ?thesis by (intro conjI impI) (use keys at err res sel in \<open>simp_all\<close>)
qed

lemma reply_host_data: "fetchHostData env (reply_net v) ep hs = Inr v"
  by (simp add: fetchHostData_def reply_net_def read_ok_json_def rsp_ok_def)

definition host_reply :: "string \<Rightarrow> string \<Rightarrow> jsv \<Rightarrow> jsv" where
  "host_reply h field v = JObj [(''host'', JStr h), (field, v)]"

lemma host_command_answer_example:
  "obj_get (outputData (run_host_cmd Prefs sample_env (reply_net (JArr
      [host_reply ''h'' ''result'' (JNum 1), host_reply ''g'' ''error'' (JStr ''down'')])) loaded_app)) ''g''
   = Some (JObj [(''error'', JStr ''down'')])"
proof -
  let ?x = "host_reply ''h'' ''result'' (JNum 1)" and ?y = "host_reply ''g'' ''error'' (JStr ''down'')"
  have on: "filter (isOnline (app_nodes loaded_app)) (selectedHosts loaded_app) \<noteq> []" by code_simp
  have y: "host_key ?y = ''g''" "js_opt_prop ?y ''error'' = JStr ''down''" by code_simp+
  have "\<forall>x \<in> set [?x, ?y]. x \<noteq> JUndef \<and> x \<noteq> JNull" by (simp add: host_reply_def)
  from host_command_answer [OF on reply_host_data this, where ys = "[?x]" and x = ?y and zs = "[]" and c = Prefs]
  show ?thesis using y by simp
qed

text \<open>
  A failed host command shows old output under its own name: when no selected host is
  online, or the request fails, or an entry of the answer is null, the output, its host and
  the alerts are left as they were, while the last command is already the new one.
\<close>

lemma host_command_failure_keeps_output:
  assumes "(\<forall>h \<in> set (selectedHosts a). \<not> isOnline (app_nodes a) h)
    \<or> fetchHostData env net (cmd_endpoint c) (filter (isOnline (app_nodes a)) (selectedHosts a)) = Inl e"
  shows "outputData (run_host_cmd c env net a) = outputData a
    \<and> selectedOutputHost (run_host_cmd c env net a) = selectedOutputHost a
    \<and> alerts (run_host_cmd c env net a) = alerts a
    \<and> lastCommand (run_host_cmd c env net a) = cmd_name c
    \<and> \<not> statusLoading (run_host_cmd c env net a)"
proof -
  have "run_host_cmd c env net a = (command_begin (cmd_name c) a)\<lparr>statusLoading := False\<rparr>"
    by (rule hc.not_answered)
      (use assms in \<open>auto simp: onlineSelectedHosts_def filterOnline_def filter_empty_conv\<close>)
  then show ?thesis by (simp add: command_begin_def)
qed

lemma host_command_failure_keeps_output_example:
  "outputData (run_host_cmd Prefs sample_env offline_net
      (run_host_cmd Status sample_env (reply_net (JArr [host_reply ''h'' ''result'' (JNum 1)])) loaded_app))
   = [(''h'', JNum 1)]
   \<and> lastCommand (run_host_cmd Prefs sample_env offline_net
      (run_host_cmd Status sample_env (reply_net (JArr [host_reply ''h'' ''result'' (JNum 1)])) loaded_app))
   = ''Prefs''"
proof -
  let ?a = "run_host_cmd Status sample_env (reply_net (JArr [host_reply ''h'' ''result'' (JNum 1)])) loaded_app"
  have fails: "fetchHostData sample_env offline_net (cmd_endpoint Prefs) hs = Inl (Error ''Failed to fetch'')"
    for hs by (simp add: fetchHostData_def offline_net_def read_ok_json_def)
  have "outputData ?a = [(''h'', JNum 1)]" by code_simp
  with host_command_failure_keeps_output [OF disjI2, OF fails, of ?a] show ?thesis by simp
qed

section \<open>Goroutine dumps\<close>

text \<open>
  A goroutine dump survives its transport: for an entry whose result is the base64
  encoding of a non-empty text, as the server sends it, the output of its host is that text.
\<close>

lemma goroutines_decoded:
  assumes "filter (isOnline (app_nodes a)) (selectedHosts a) \<noteq> []" and "dump \<noteq> []" and "h \<noteq> []"
  shows "obj_get (outputData (fetchGoroutines env
      (reply_net (JArr [host_reply h ''result'' (JStr (b64_encode dump))])) a)) h = Some (JStr dump)"
proof -
  let ?x = "host_reply h ''result'' (JStr (b64_encode dump))"
  have ne: "b64_encode dump \<noteq> []" using assms(2) by (cases dump rule: b64_encode.cases) (auto simp: Let_def)
  have x: "host_key ?x = h" "?x \<noteq> JUndef" "?x \<noteq> JNull"
    using assms(3) by (simp_all add: host_reply_def host_key_def js_or_def js_opt_prop_def obj_get_def)
  have "goroutines_entry ?x = Inr (h, JStr dump)"
    using ne assms(3) by (simp add: goroutines_entry_def host_reply_def host_key_def js_or_def
        js_opt_prop_def obj_get_def atob_encode)
  with hc.answered [of a env "reply_net (JArr [?x])" Goroutines "[?x]"] x assms(1)
  show ?thesis
    by (simp add: reply_host_data onlineSelectedHosts_def filterOnline_def assign_all_def obj_simps)
qed

lemma goroutines_decoded_example:
  "obj_get (outputData (fetchGoroutines sample_env
      (reply_net (JArr [host_reply ''h'' ''result'' (JStr (b64_encode ''goroutine 1''))])) loaded_app)) ''h''
    = Some (JStr ''goroutine 1'')"
proof -
  have "filter (isOnline (app_nodes loaded_app)) (selectedHosts loaded_app) \<noteq> []" by code_simp
  then show ?thesis by (rule goroutines_decoded) simp_all
qed

section \<open>DNS queries\<close>

lemma dns_rows:
  "exn_map dns_entry (map (\<lambda>h. JObj [(''host'', JStr h), (''error'', v)]) hs) =
     Inr (map (\<lambda>h. (if h = [] then ''unknown'' else h,
       JObj [(''error'', v), (''header'', JUndef), (''responses'', JUndef), (''resolvers'', JUndef)])) hs)"
  by (induction hs) (simp_all add: dns_entry_def host_key_def js_or_def js_opt_prop_def obj_get_def)

lemma lookup_rows:
  "k \<in> fst ` set rows \<Longrightarrow> (\<And>v. (k, v) \<in> set rows \<Longrightarrow> v = w) \<Longrightarrow> map_of (rev rows) k = Some w"
  by (cases "map_of (rev rows) k") (auto simp: map_of_eq_None_iff dest!: map_of_SomeD)


definition status_net :: "nat \<Rightarrow> network" where
  "status_net n rq = Responded \<lparr>rsp_status = n, rsp_json = Inr JNull, rsp_bytes = []\<rparr>"


section \<open>Profiles\<close>

text \<open>
  The profile form checks its duration: an invalid one raises an alert and changes
  nothing else; an accepted one is sent as a number of seconds between the minimum of the
  type and 300, and a decimal number in that range is accepted; types without a duration
  send none.
\<close>

lemma pprof_duration:
  "(duration_invalid (pprofType a) (pprofDuration a) \<longrightarrow>
      fetchPprof env net ord a = a\<lparr>alerts := alerts a @ [duration_message (pprofType a)]\<rparr>)
   \<and> (\<not> duration_invalid (pprofType a) (pprofDuration a) \<longrightarrow>
      (if needsDuration (pprofType a)
       then \<exists>d. pp_seconds (pprof_request a) = Some d \<and> minDuration (pprofType a) \<le> d \<and> d \<le> 300
       else pp_seconds (pprof_request a) = None))
   \<and> (pprofDuration a = show_nat n \<longrightarrow>
      (duration_invalid (pprofType a) (pprofDuration a) \<longleftrightarrow>
        needsDuration (pprofType a) \<and> \<not> (minDuration (pprofType a) \<le> int n \<and> n \<le> 300)))"
  by (auto simp: fetchPprof_def alert_def duration_invalid_def pprof_request_def parse_int10_show
      split: option.splits)

lemma pprof_duration_example:
  "fetchPprof sample_env offline_net (\<lambda>hs. hs) (loaded_app\<lparr>pprofDuration := ''301''\<rparr>) =
     loaded_app\<lparr>pprofDuration := ''301'', alerts := [''Duration must be between 1 and 300 seconds'']\<rparr>
   \<and> pp_seconds (pprof_request loaded_app) = Some 30
   \<and> duration_invalid ''profile'' ''0''"
proof -
  have bad: "duration_invalid (pprofType (loaded_app\<lparr>pprofDuration := ''301''\<rparr>))
      (pprofDuration (loaded_app\<lparr>pprofDuration := ''301''\<rparr>))" by code_simp
  have msg: "duration_message (pprofType loaded_app) = ''Duration must be between 1 and 300 seconds''"
    "alerts loaded_app = []" by code_simp+
  have good: "\<not> duration_invalid (pprofType loaded_app) (pprofDuration loaded_app)"
    "needsDuration (pprofType loaded_app)" "pp_seconds (pprof_request loaded_app) = Some 30" by code_simp+
  have zero: "''0'' = show_nat 0" "needsDuration ''profile''" "minDuration ''profile'' = 1" by code_simp+
  show ?thesis
    using pprof_duration [of "loaded_app\<lparr>pprofDuration := ''301''\<rparr>" sample_env offline_net "\<lambda>hs. hs"] bad msg
      pprof_duration [of loaded_app] good
      pprof_duration [of "loaded_app\<lparr>pprofType := ''profile'', pprofDuration := ''0''\<rparr>" _ _ _ 0] zero
    by simp
qed

text \<open>
  What the profile command shows comes from the files alone: whatever a successful
  answer says, even an error for each host, is not read, and every online host shows the
  file the server has under its name, or the failure to fetch it. The test of the status
  after the request never fails.
\<close>

lemma pprof_ignores_answer:
  assumes "\<not> duration_invalid (pprofType a) (pprofDuration a)" and "onlineSelectedHosts a \<noteq> []"
    and "executePprof env net (pprof_request a) = Inr r" and "set (ord (onlineSelectedHosts a)) = set (onlineSelectedHosts a)"
    and "h \<in> set (onlineSelectedHosts a)"
  shows "alerts (fetchPprof env net ord a) = alerts a
    \<and> obj_get (outputData (fetchPprof env net ord a)) h =
        Some (case fetchPprofFile env net h of
            Inr bytes \<Rightarrow> JObj [(''data'', JBuf bytes), (''hostname'', JStr h), (''pprofType'', JStr (pprofType a))]
          | Inl e \<Rightarrow> JObj [(''error'', JStr (message_or e ''Failed to fetch pprof file'')),
                           (''pprofType'', JStr (pprofType a))])"
proof -
  let ?files = "map (\<lambda>h. (h, fetchPprofFile env net h)) (ord (onlineSelectedHosts a))"
  let ?rows = "map (pprof_entry (pprofType a)) ?files"
  have b: "fetchPprof env net ord a =
      (show_results (assign_all obj_set [] ?rows) (command_begin ''Pprof'' a))
        \<lparr>showPprofModal := False, statusLoading := False\<rparr>"
    using assms(1-3) executePprof_ok [OF assms(3)]
    by (simp add: fetchPprof_def fetchPprof_finish_def Let_def)
  let ?v = "\<lambda>h. snd (pprof_entry (pprofType a) (h, fetchPprofFile env net h))"
  have rows: "?rows = map (\<lambda>h. (h, ?v h)) (ord (onlineSelectedHosts a))"
    by (simp add: pprof_entry_def comp_def)
  have "map_of (rev (map (\<lambda>h. (h, ?v h)) hs)) h = Some (?v h)" if "h \<in> set hs" for hs
    by (rule lookup_rows) (use that in force)+
  with assms(4,5) have "obj_get (outputData (fetchPprof env net ord a)) h = Some (?v h)"
    unfolding b rows by (simp add: rows_lookup)
  moreover have "alerts (fetchPprof env net ord a) = alerts a"
    by (simp add: b command_begin_def)
  ultimately show ?thesis by (simp add: pprof_entry_def)
qed

lemma pprof_ignores_answer_example:
  "alerts (fetchPprof sample_env (reply_net (JArr [host_reply ''h'' ''error'' (JStr ''no profile'')]))
     rev loaded_app) = []"
proof -
  let ?net = "reply_net (JArr [host_reply ''h'' ''error'' (JStr ''no profile'')])"
  have pre: "\<not> duration_invalid (pprofType loaded_app) (pprofDuration loaded_app)"
    "onlineSelectedHosts loaded_app \<noteq> []" "''h'' \<in> set (onlineSelectedHosts loaded_app)"
    "alerts loaded_app = []" by code_simp+
  have "\<exists>r. executePprof sample_env ?net (pprof_request loaded_app) = Inr r"
    by (simp add: executePprof_def reply_net_def rsp_ok_def)
  then obtain r where r: "executePprof sample_env ?net (pprof_request loaded_app) = Inr r" ..
  from pprof_ignores_answer [OF pre(1,2) r _ pre(3), where ord = rev] pre(4) show ?thesis by simp
qed

end
