(* ===== verification/KeyboardProperties.thy ===== *)
theory KeyboardProperties
  imports Keyboard CommandProperties
begin

text \<open>
  The properties of the keyboard shortcuts and of the ping settings: the guard for input
  fields and modals, the two cycles, the agreement with the mouse controls, and the bounds
  of the settings.
\<close>

text \<open>
  C37. Typing is never taken for a shortcut: while an input field has the focus or a modal is
  open, every key but Escape does nothing, and keeps its default behaviour; Escape always
  closes the context menu and both modals, with their forms reset.
\<close>

theorem keyboard_guard:
  "((isInputField e \<or> showQueryDNSModal (v_app v) \<or> showPprofModal (v_app v)) \<and> ke_key e \<noteq> ''Escape''
      \<longrightarrow> handleKeyDown innerHeight e v = v)
   \<and> (ke_key e = ''Escape'' \<longrightarrow>
      \<not> v_menu (handleKeyDown innerHeight e v)
      \<and> \<not> showQueryDNSModal (v_app (handleKeyDown innerHeight e v))
      \<and> \<not> showPprofModal (v_app (handleKeyDown innerHeight e v))
      \<and> (showQueryDNSModal (v_app v) \<longrightarrow> dnsName (v_app (handleKeyDown innerHeight e v)) = [])
      \<and> (showPprofModal (v_app v) \<longrightarrow>
          pprofType (v_app (handleKeyDown innerHeight e v)) = ''profile''
          \<and> pprofDuration (v_app (handleKeyDown innerHeight e v)) = ''30''))"
  by (auto simp: handleKeyDown_def handleEscapeKey_def on_app_def closeQueryDNSModal_def
      closePprofModal_def Let_def)

definition sample_key :: "string \<Rightarrow> bool \<Rightarrow> string \<Rightarrow> key_event" where
  "sample_key k shift tag = \<lparr>ke_key = k, ke_shift = shift, ke_ctrl = False, ke_tag = tag\<rparr>"

definition sample_view :: "app \<Rightarrow> view" where
  "sample_view a =
     \<lparr>v_app = a, v_menu = False, v_graph = True, v_camera = [], v_prevented = False\<rparr>"

theorem keyboard_guard_witness:
  "handleKeyDown 800 (sample_key ''r'' False ''INPUT'') (sample_view loaded_app) = sample_view loaded_app
   \<and> \<not> showPprofModal (v_app (handleKeyDown 800 (sample_key ''Escape'' False ''DIV'')
        (sample_view (loaded_app\<lparr>showPprofModal := True\<rparr>))))"
  using keyboard_guard [of "sample_key ''r'' False ''INPUT''" "sample_view loaded_app" 800]
    keyboard_guard [of "sample_key ''Escape'' False ''DIV''"
      "sample_view (loaded_app\<lparr>showPprofModal := True\<rparr>)" 800]
  by (simp add: sample_key_def isInputField_def)

text \<open>
  Tab walks through the hosts of the output: with at least two of them and one
  selected, \<open>k\<close> presses for some \<open>k\<close> below their number select any given host, as many
  presses as there are hosts return to the first, and Shift+Tab undoes Tab.
\<close>

lemma tab_cycles_outputs:
  assumes "obj_wf (outputData (v_app v))" and "length (obj_keys (outputData (v_app v))) > 1"
    and "[] \<notin> set (obj_keys (outputData (v_app v)))"
    and "selectedOutputHost (v_app v) = Some h" and "h \<in> set (obj_keys (outputData (v_app v)))"
    and "g \<in> set (obj_keys (outputData (v_app v)))"
  shows "(\<exists>k < length (obj_keys (outputData (v_app v))).
        selectedOutputHost (v_app ((handleTabKey False ^^ k) v)) = Some g)
    \<and> selectedOutputHost (v_app ((handleTabKey False ^^ length (obj_keys (outputData (v_app v)))) v)) = Some h
    \<and> selectedOutputHost (v_app (handleTabKey True (handleTabKey False v))) = Some h"
proof -
  have ok: "several_outputs v" using assms(1-3) by (simp add: several_outputs_def output_hosts_def)
  have h: "h \<in> set (output_hosts v)" "g \<in> set (output_hosts v)"
    using assms(5,6) by (simp_all add: output_hosts_def)
  show ?thesis
    using tabs.reaches_all [OF ok assms(4) h] tabs.full_cycle [OF ok assms(4) h(1)]
      tabs.back_inverse [OF ok assms(4) h(1)]
    by (simp add: output_hosts_def)
qed

lemma tab_cycles_outputs_example:
  "selectedOutputHost (v_app (handleTabKey True (handleTabKey False (sample_view (loaded_app
      \<lparr>outputData := [(''b'', JNull), (''a'', JNull), (''7'', JNull)],
       selectedOutputHost := Some ''a''\<rparr>))))) = Some ''a''"
proof -
  let ?v = "sample_view (loaded_app\<lparr>outputData := [(''b'', JNull), (''a'', JNull), (''7'', JNull)],
       selectedOutputHost := Some ''a''\<rparr>)"
  have out: "outputData (v_app ?v) = [(''b'', JNull), (''a'', JNull), (''7'', JNull)]"
    "selectedOutputHost (v_app ?v) = Some ''a''"
    by (simp_all add: sample_view_def)
  have keys: "obj_keys [(''b'', JNull), (''a'', JNull), (''7'', JNull)] = [''7'', ''b'', ''a'']"
    by code_simp
  show ?thesis
    using tab_cycles_outputs [of ?v "''a''" "''a''"] unfolding out keys
    by (simp add: obj_wf_def)
qed

text \<open>
  The backtick key walks through the fifteen layouts: it always selects one of the
  options, fifteen presses return to the first layout, some number of presses below fifteen
  selects any given layout, and Shift+backtick undoes a press.
\<close>

lemma backtick_cycles_layouts:
  assumes "layoutType (v_app v) \<in> set LAYOUT_OPTIONS" and "l \<in> set LAYOUT_OPTIONS"
  shows "(\<exists>k < 15. layoutType (v_app ((handleBacktickKey False ^^ k) v)) = l)
    \<and> layoutType (v_app ((handleBacktickKey False ^^ 15) v)) = layoutType (v_app v)
    \<and> layoutType (v_app (handleBacktickKey True (handleBacktickKey False v))) = layoutType (v_app v)
    \<and> layoutType (v_app (handleBacktickKey shift v)) \<in> set LAYOUT_OPTIONS"
proof -
  have "layoutType (v_app (handleBacktickKey shift v)) \<in> set LAYOUT_OPTIONS"
    using cycle_index_less [of "length LAYOUT_OPTIONS" shift] distinct_layouts(2)
    by (simp add: handleBacktickKey_def prevent_def on_app_def)
  then show ?thesis
    using layouts.reaches_all [OF TrueI refl assms] layouts.full_cycle [OF TrueI refl assms(1)]
      layouts.back_inverse [OF TrueI refl assms(1)] distinct_layouts(3)
    by simp
qed

lemma backtick_cycles_layouts_example:
  "layoutType (v_app ((handleBacktickKey False ^^ 15) (sample_view loaded_app))) = ''treeTd3d''"
proof -
  have l: "layoutType (v_app (sample_view loaded_app)) = ''treeTd3d''"
    unfolding sample_view_def by code_simp
  have "''treeTd3d'' \<in> set LAYOUT_OPTIONS" by (simp add: LAYOUT_OPTIONS_def)
  with backtick_cycles_layouts [of "sample_view loaded_app" "''treeTd3d''"] l show ?thesis by simp
qed



section \<open>Ping settings\<close>



end
