(* ===== verification/SessionProperties.thy ===== *)
theory SessionProperties
  imports SessionInvariant KeyboardProperties
begin

text \<open>
  The properties of the page as a whole: one command at a time, the handlers as the
  composition of their two halves, what every reachable page guarantees, and the one
  interleaving the buttons do not exclude.
\<close>

section \<open>Sample runs\<close>

definition sample_params :: page_params where
  "sample_params =
     \<lparr>pp_redact = False, pp_stringify = to_str, pp_parse = (\<lambda>s. Inl NonError),
      pp_time = (\<lambda>v. []), pp_inner = 800\<rparr>"

fun page_exec :: "page_params \<Rightarrow> event list \<Rightarrow> page \<Rightarrow> page" where
  "page_exec pp [] p = p"
| "page_exec pp (e # es) p = page_exec pp es (page_handle pp e p)"

fun page_all_enabled :: "page_params \<Rightarrow> event list \<Rightarrow> page \<Rightarrow> bool" where
  "page_all_enabled pp [] p = True"
| "page_all_enabled pp (e # es) p = (page_enabled e p \<and> page_all_enabled pp es (page_handle pp e p))"

lemma run_page_exec:
  "page_all_enabled pp es p \<Longrightarrow> run (page_step pp) p es (page_exec pp es p)"
  by (induction es arbitrary: p) (auto intro: run.intros page_step)

definition status_events :: "event list" where
  "status_events = [Select (Loaded (Inr sample_peermap)), Click (Host Status)]"

definition status_page :: page where
  "status_page = page_exec sample_params status_events (page_init 800)"

lemma status_page_run: "run (page_step sample_params) (page_init 800) status_events status_page"
proof -
  have "page_all_enabled sample_params status_events (page_init 800)" by code_simp
  then show ?thesis unfolding status_page_def by (rule run_page_exec)
qed

lemma status_page_pending: "pg_pending status_page = [PHost Status]"
  by code_simp

section \<open>One command at a time\<close>

text \<open>
  C3. At most one command is in flight: in every reachable state of the page, "loading" is
  shown exactly while a response is awaited, then no button or form offers another request,
  and the arrival of the response, whatever it is, ends the loading.
\<close>

theorem single_command_in_flight:
  assumes "run (page_step pp) (page_init inner) es p"
  shows "length (pg_pending p) \<le> 1
    \<and> (statusLoading (pg_app p) \<longleftrightarrow> pg_pending p \<noteq> [])
    \<and> (pg_pending p \<noteq> [] \<longrightarrow> \<not> click_enabled c (pg_app p))
    \<and> (page_enabled (Deliver i r) p \<longrightarrow>
        \<not> statusLoading (pg_app (page_handle pp (Deliver i r) p))
        \<and> pg_pending (page_handle pp (Deliver i r) p) = [])"
proof -
  have inv: "page_inv p" by (rule page.inv_reach [OF refl assms])
  then have shape: "length (pg_pending p) \<le> 1" "statusLoading (pg_app p) \<longleftrightarrow> pg_pending p \<noteq> []"
    by (simp_all add: page_inv_def)
  have "\<not> click_enabled c (pg_app p)" if "pg_pending p \<noteq> []"
    using start_loading [of c "pg_app p"] that shape(2) by (metis surj_pair)
  moreover have "\<not> statusLoading (pg_app (page_handle pp (Deliver i r) p))
      \<and> pg_pending (page_handle pp (Deliver i r) p) = []" if en: "page_enabled (Deliver i r) p"
  proof -
    have "page_inv (page_handle pp (Deliver i r) p)"
      by (rule page_inv_step [OF inv page_step [OF en]])
    moreover have "\<not> statusLoading (pg_app (page_handle pp (Deliver i r) p))"
      using en deliver_idle by simp
    ultimately show ?thesis by (simp add: page_inv_def)
  qed
  ultimately show ?thesis using shape by blast
qed

theorem single_command_in_flight_witness:
  "statusLoading (pg_app status_page) \<and> \<not> click_enabled PingCmd (pg_app status_page)
   \<and> \<not> statusLoading (pg_app (page_handle sample_params (Deliver 0 (Json (Inl NonError))) status_page))"
proof -
  have "page_enabled (Deliver 0 (Json (Inl NonError))) status_page"
    by (simp add: status_page_pending)
  then show ?thesis
    using single_command_in_flight [OF status_page_run, of PingCmd 0 "Json (Inl NonError)"]
    by (simp only: status_page_pending) simp
qed


section \<open>Every reachable page\<close>

text \<open>
  C14. However the user's clicks, keys, form changes, drags, the stream's events and the
  responses interleave, every reachable page is consistent: the selected targets are
  reachable, the output panel has a selected host with output whenever there is output (or
  output under an empty host name), the ping settings are in range, the layout is one of the
  options, and a stream is shown as running exactly when the hook believes it is.
\<close>

theorem page_consistent:
  assumes "run (page_step pp) (page_init inner) es p"
  shows "(\<forall>t \<in> set (selectedTargets (pg_app p)). t \<in> set (app_reachable (pg_app p)))
    \<and> (outputData (pg_app p) = [] \<or> obj_get (outputData (pg_app p)) [] \<noteq> None
        \<or> (\<exists>h. selectedOutputHost (pg_app p) = Some h \<and> obj_get (outputData (pg_app p)) h \<noteq> None))
    \<and> 1 \<le> pingCount (pg_app p) \<and> pingCount (pg_app p) \<le> 20
    \<and> 0 \<le> pingDelay (pg_app p) \<and> pingDelay (pg_app p) \<le> 2000
    \<and> layoutType (pg_app p) \<in> set LAYOUT_OPTIONS
    \<and> ws_inv (app_stream (pg_app p))"
  using page.inv_reach [OF refl assms]
  by (auto simp: page_inv_def app_ok_def sel_inv_def output_ok_def settings_ok_def stream_ok_def)

theorem page_consistent_witness: "pingCount (pg_app status_page) \<le> 20"
  using page_consistent [OF status_page_run] by blast

text \<open>
  A stream may overtake a command: while a host command is pending the stream buttons
  stay enabled, and the answer that arrives after "Logs" was clicked replaces the output of
  the stream, although "Logs" is the last command and the stream keeps running.
\<close>

lemma stream_overtakes_command:
  assumes "pg_pending p = [PHost c]" and "\<not> isStreaming (app_stream (pg_app p))"
    and "h \<in> set (selectedHosts (pg_app p))" and "isOnline (app_nodes (pg_app p)) h"
    and "\<forall>x \<in> set xs. x \<noteq> JUndef \<and> x \<noteq> JNull"
  defines "es \<equiv> [ClickLogs True, Deliver 0 (Json (Inr (JArr xs)))]"
  shows "run (page_step pp) p es (page_exec pp es p)
    \<and> lastCommand (pg_app (page_exec pp es p)) = ''Logs''
    \<and> isStreaming (app_stream (pg_app (page_exec pp es p)))
    \<and> set (obj_keys (outputData (pg_app (page_exec pp es p)))) = host_key ` set xs"
proof -
  let ?a = "pg_app p"
  have on: "onlineSelectedHosts ?a \<noteq> []"
    using assms(3,4) by (auto simp: onlineSelectedHosts_def filterOnline_def filter_empty_conv)
  have en: "page_all_enabled pp es p"
    using assms(1-3) by (auto simp: es_def fetchLogs_def)
  let ?b = "fetchLogs True ?a"
  let ?rows = "map (\<lambda>x. (host_key x, snd (projr (cmd_entry c x)))) xs"
  have fin: "pg_app (page_exec pp es p) = idle (show_results (assign_all obj_set [] ?rows) ?b)"
    using assms(1) hc.entry_rows [OF assms(5)]
    by (simp add: es_def command_finish_def collect_results_def idle_def)
  have b: "lastCommand ?b = ''Logs''" "isStreaming (app_stream ?b)"
    using on by (simp_all add: fetchLogs_def fetch_stream_def Let_def startStream_def)
  show ?thesis
    using run_page_exec [OF en] b
    by (simp add: fin idle_def obj.keys_assign_all image_image)
qed

lemma stream_overtakes_command_example:
  "lastCommand (pg_app (page_exec sample_params
      [ClickLogs True, Deliver 0 (Json (Inr (JArr [host_reply ''h'' ''result'' JNull])))] status_page)) = ''Logs''"
proof -
  have pre: "\<not> isStreaming (app_stream (pg_app status_page))" "''h'' \<in> set (selectedHosts (pg_app status_page))"
    "isOnline (app_nodes (pg_app status_page)) ''h''" by code_simp+
  have "\<forall>x \<in> set [host_reply ''h'' ''result'' JNull]. x \<noteq> JUndef \<and> x \<noteq> JNull"
    by (simp add: host_reply_def)
  from stream_overtakes_command [OF status_page_pending pre this] show ?thesis by blast
qed

end
