(* ===== verification/StreamProperties.thy ===== *)
theory StreamProperties
  imports StreamInvariant
begin

text \<open>
  The properties of the stream hook: consistency of the interface state over every run,
  the keep-alive timer, the detection of a dead connection, the transcript each host gets,
  the effect of cancelling, and when sockets can and cannot be left behind.
\<close>

section \<open>Texts per host\<close>

definition old_text :: "string jsobj \<Rightarrow> string \<Rightarrow> string" where
  "old_text m h = (case obj_get m h of None \<Rightarrow> [] | Some s \<Rightarrow> s)"

lemma get_append_to: "obj_get (append_to h s m) = (obj_get m)(h \<mapsto> old_text m h @ s)"
  by (simp add: append_to_def obj_simps old_text_def)

lemma get_append_all:
  "distinct hs \<Longrightarrow>
     obj_get (append_all hs s m) h = (if h \<in> set hs then Some (old_text m h @ s) else obj_get m h)"
proof (induction hs arbitrary: m)
  case (Cons a hs)
  then show ?case
    using Cons.IH [of "append_to a s m"]
    by (auto simp: append_all_def get_append_to old_text_def)
qed (simp add: append_all_def)

lemma get_fill_all: "obj_get (fill_all hs s) h = (if h \<in> set hs then Some s else None)"
proof -
  have "obj_get (foldl (\<lambda>acc h. obj_set h s acc) m hs) h
      = (if h \<in> set hs then Some s else obj_get m h)" for m
    by (induction hs arbitrary: m) (auto simp: obj_simps)
  then show ?thesis by (simp add: fill_all_def obj_simps)
qed

text \<open>The text the frames of a connection carry for one host, in arrival order.\<close>

fun frame_text :: "string \<Rightarrow> frame \<Rightarrow> string" where
  "frame_text h (Text g s) = (if g = h then s else [])"
| "frame_text h _ = []"

definition transcript :: "string \<Rightarrow> frame list \<Rightarrow> string" where
  "transcript h fs = concat (map (frame_text h) fs)"

definition message_events :: "nat \<Rightarrow> (string \<times> int) list \<Rightarrow> ws_event list" where
  "message_events i ms = map (\<lambda>(d, now). SockMessage i d now) ms"

definition frames_of ::
    "json_parser \<Rightarrow> time_format \<Rightarrow> stream_type \<Rightarrow> (string \<times> int) list \<Rightarrow> frame list" where
  "frames_of parse fmt ty ms = map (\<lambda>(d, now). read_frame parse fmt ty d) ms"

lemma sockets_message [simp]: "sockets (ws_onmessage parse fmt i d now w) = sockets w"
  by (simp add: ws_onmessage_def apply_frame_def split: frame.splits)

lemma old_text_message:
  "old_text (streamData (ws_onmessage parse fmt i d now w)) h =
     old_text (streamData w) h @ frame_text h (read_frame parse fmt (sk_type (sockets w ! i)) d)"
  by (auto simp: ws_onmessage_def apply_frame_def old_text_def get_append_to split: frame.splits)

lemma old_text_messages:
  "old_text (streamData (ws_exec parse fmt (message_events i ms) w)) h =
     old_text (streamData w) h @ transcript h (frames_of parse fmt (sk_type (sockets w ! i)) ms)"
proof (induction ms arbitrary: w)
  case (Cons m ms)
  obtain d now where m: "m = (d, now)" by (cases m)
  from Cons [of "ws_onmessage parse fmt i d now w"] show ?case
    by (simp add: m ws_exec_def message_events_def frames_of_def transcript_def old_text_message)
qed (simp add: ws_exec_def message_events_def frames_of_def transcript_def)

section \<open>Consistency over every run\<close>


text \<open>A concrete run for the witnesses: a stream is started, opens, and is restarted.\<close>

definition no_parse :: json_parser where
  "no_parse s = Inl NonError"

definition no_time :: time_format where
  "no_time v = []"

definition restart_events :: "ws_event list" where
  "restart_events =
     [StartStream Logs [''a''] True, SockOpen 0, Tick 1 1000, CancelStreaming False,
      StartStream BusEvents [''b''] True, SockOpen 1]"

definition restart_world :: stream_world where
  "restart_world = ws_exec no_parse no_time restart_events stream_init"

definition late_close_world :: stream_world where
  "late_close_world = ws_exec no_parse no_time [SockClose 0] restart_world"

definition start_world :: stream_world where
  "start_world = ws_exec no_parse no_time [StartStream Logs [''a'', ''b''] True] stream_init"

definition open_world :: stream_world where
  "open_world = ws_exec no_parse no_time [StartStream Logs [''a'', ''b''] True, SockOpen 0] stream_init"

lemma restart_run: "run (ws_step no_parse no_time) stream_init restart_events restart_world"
  unfolding restart_world_def by (rule run_ws_exec) code_simp

lemma late_close_run: "run (ws_step no_parse no_time) restart_world [SockClose 0] late_close_world"
  unfolding late_close_world_def by (rule run_ws_exec) code_simp

lemma open_run:
  "run (ws_step no_parse no_time) stream_init [StartStream Logs [''a'', ''b''] True, SockOpen 0] open_world"
  unfolding open_world_def by (rule run_ws_exec) code_simp

lemma restart_end:
  "mounted restart_world" "wsRef restart_world = Some 1" "isStreaming restart_world"
  "sock_state restart_world 0 = CLOSING" "sock_state restart_world 1 = OPEN"
  "0 < length (sockets restart_world)"
  by code_simp+

lemma start_end:
  "wsRef start_world = Some 0" "sock_state start_world 0 = CONNECTING"
  "0 < length (sockets start_world)" "sk_hosts (sockets start_world ! 0) = [''a'', ''b'']"
  "sk_type (sockets start_world ! 0) = Logs"
  by code_simp+

lemma open_end:
  "mounted open_world" "wsRef open_world = Some 0" "sock_state open_world 0 = OPEN"
  "lastPongTime open_world = 0" "hostIdsRef open_world = [''a'', ''b'']"
  "streamTypeRef open_world = Some Logs"
  by code_simp+


text \<open>
  No timer leaks: in every reachable state at most one keep-alive interval is live, it
  is the one the hook holds a handle of, and none survives unmounting.
\<close>

lemma stream_single_timer:
  assumes "run (ws_step parse fmt) stream_init es w"
  shows "length (timers w) \<le> 1 \<and> (\<forall>t \<in> set (timers w). pingIntervalRef w = Some t)
    \<and> (mounted w \<or> timers w = [])"
  using ws.inv_reach [OF refl assms] by (auto simp: ws_inv_defs split: if_splits)

lemma stream_single_timer_example:
  "Some ` set (timers restart_world) \<subseteq> {pingIntervalRef restart_world}"
  using stream_single_timer [OF restart_run] by auto

text \<open>
  Sockets only move forward in their life cycle: over any run no socket of the start
  disappears, its state never decreases in the order connecting, open, closing, closed,
  and the stream type and hosts its handlers captured never change.
\<close>

lemma stream_sockets_forward:
  assumes "run (ws_step parse fmt) w es w'" and "i < length (sockets w)"
  shows "i < length (sockets w') \<and> sock_state w i \<le> sock_state w' i
    \<and> sk_type (sockets w' ! i) = sk_type (sockets w ! i)
    \<and> sk_hosts (sockets w' ! i) = sk_hosts (sockets w ! i)"
  using forward_run [OF assms(1)] assms(2) by (auto simp: forward_def)

lemma stream_sockets_forward_example: "CLOSING \<le> sock_state late_close_world 0"
  using stream_sockets_forward [OF late_close_run restart_end(6)] restart_end(4) by simp

section \<open>Keep-alive\<close>

lemma tick_open:
  "wsRef w = Some i \<Longrightarrow> sock_state w i = OPEN \<Longrightarrow>
   \<not> (lastPongTime w > 0 \<and> now - lastPongTime w > PONG_TIMEOUT) \<Longrightarrow>
     ping_tick now w =
       (send_ping i w)\<lparr>lastPongTime := (if lastPongTime w = 0 then now else lastPongTime w)\<rparr>"
  by (auto simp: ping_tick_def Let_def)

lemma tick_dead:
  "wsRef w = Some i \<Longrightarrow> lastPongTime w > 0 \<Longrightarrow> now - lastPongTime w > PONG_TIMEOUT \<Longrightarrow>
     ping_tick now w =
       reset_refs (sock_close i
         (w\<lparr>streamData := append_all (hostIdsRef w) connection_timeout_message (streamData w),
            lastPongTime := 0\<rparr>))"
  by (simp add: ping_tick_def)



section \<open>What the user reads\<close>

text \<open>
  C19. Every host's pane shows exactly its own messages, in the order they arrived: after a
  socket opens and receives any list of frames, the text of a streamed host is the
  concatenation of the texts addressed to it; keep-alive answers, unreadable frames and
  messages of other hosts add nothing.
\<close>

theorem stream_transcript:
  assumes "h \<in> set (sk_hosts (sockets w ! i))" and "i < length (sockets w)"
  shows "obj_get (streamData (ws_exec parse fmt (message_events i ms) (ws_onopen i w))) h =
    Some (transcript h (frames_of parse fmt (sk_type (sockets w ! i)) ms))"
proof -
  let ?w = "ws_exec parse fmt (message_events i ms) (ws_onopen i w)"
  have opened: "old_text (streamData (ws_onopen i w)) h = []" "h \<in> dom (obj_get (streamData (ws_onopen i w)))"
    using assms(1) by (auto simp: ws_onopen_def old_text_def get_fill_all)
  have keeps: "h \<in> dom (obj_get (streamData v)) \<Longrightarrow>
      h \<in> dom (obj_get (streamData (ws_exec parse fmt (message_events i ms) v)))" for v
  proof (induction ms arbitrary: v)
    case (Cons m ms)
    have "h \<in> dom (obj_get (streamData (ws_onmessage parse fmt i (fst m) (snd m) v)))"
      using Cons.prems
      by (auto simp: ws_onmessage_def apply_frame_def get_append_to split: frame.splits)
    from Cons.IH [OF this] show ?case
      by (simp add: ws_exec_def message_events_def case_prod_beta)
  qed (simp add: ws_exec_def message_events_def)
  have "old_text (streamData ?w) h = transcript h (frames_of parse fmt (sk_type (sockets w ! i)) ms)"
    using old_text_messages [of parse fmt i ms "ws_onopen i w" h] opened(1) assms(2)
    by (simp add: ws_onopen_def)
  with keeps [OF opened(2)] show ?thesis by (auto simp: old_text_def)
qed

text \<open>A parser for the witness: it knows one outer frame and one log entry.\<close>

definition sample_parse :: json_parser where
  "sample_parse s =
     (if s = ''F'' then Inr (JObj [(''Host'', JStr ''b''), (''Message'', JStr (b64_encode ''E''))])
      else if s = ''E'' then Inr (JObj [(''text'', JStr ''line'')])
      else Inl NonError)"

theorem stream_transcript_witness:
  "obj_get (streamData (ws_exec sample_parse no_time (message_events 0 [(''F'', 5), (''F'', 6)])
     (ws_onopen 0 start_world))) ''b'' = Some ''lineline''"
proof -
  have "transcript ''b'' (frames_of sample_parse no_time Logs [(''F'', 5), (''F'', 6)]) = ''lineline''"
    by code_simp
  moreover have "''b'' \<in> set (sk_hosts (sockets start_world ! 0))" by (simp add: start_end)
  ultimately show ?thesis
    using stream_transcript [of "''b''" start_world 0 sample_parse no_time] start_end(3,5) by simp
qed

text \<open>
  Cancelling ends the stream. From any reachable mounted state the refs and the
  interface are reset and no timer stays; an open current socket starts closing, and, when
  the user asked for the notice, each of its hosts gets it appended exactly once, the texts
  of all other hosts being kept.
\<close>

lemma stream_cancel:
  assumes "run (ws_step parse fmt) stream_init es w" and "mounted w"
    and "wsRef w = Some i" and "sock_state w i = OPEN" and "distinct (hostIdsRef w)"
    and "streamTypeRef w = Some ty"
  shows "wsRef (cancelStreaming a w) = None \<and> \<not> isStreaming (cancelStreaming a w)
    \<and> timers (cancelStreaming a w) = [] \<and> sock_state (cancelStreaming a w) i = CLOSING
    \<and> (\<forall>h. obj_get (streamData (cancelStreaming a w)) h =
         (if a \<and> h \<in> set (hostIdsRef w)
          then Some (old_text (streamData w) h @ getDisconnectMessage ty)
          else obj_get (streamData w) h))"
  using assms start_timers [OF ws.inv_reach [OF refl assms(1)]]
  by (auto simp: sock_state_cancel streamData_cancel ws_is_open_def get_append_all
      simp del: cancel_frame(11))

lemma stream_cancel_example: "timers (cancelStreaming True open_world) = []"
proof -
  have "distinct (hostIdsRef open_world)" by (simp add: open_end)
  then show ?thesis
    using stream_cancel [OF open_run open_end(1,2,3) _ open_end(6), of True] by blast
qed

section \<open>Sockets left behind\<close>

text \<open>
  The schedules on which the hook keeps hold of its sockets: no stream is started or
  cancelled while its socket is still connecting, and a close event of an earlier socket
  does not arrive while a later one is held.
\<close>

fun serialised :: "ws_event \<Rightarrow> stream_world \<Rightarrow> bool" where
  "serialised (StartStream _ _ _) w = (\<forall>i \<in> set_option (wsRef w). sock_state w i \<noteq> CONNECTING)"
| "serialised (CancelStreaming _) w = (\<forall>i \<in> set_option (wsRef w). sock_state w i \<noteq> CONNECTING)"
| "serialised (SockClose i) w = (\<forall>j \<in> set_option (wsRef w). j = i)"
| "serialised _ w = True"

inductive serial_step ::
    "json_parser \<Rightarrow> time_format \<Rightarrow> stream_world \<Rightarrow> ws_event \<Rightarrow> stream_world \<Rightarrow> bool"
  for parse :: json_parser and fmt_time :: time_format where
  serial_step: "ws_step parse fmt_time w e w' \<Longrightarrow> serialised e w \<Longrightarrow>
     serial_step parse fmt_time w e w'"

inductive_cases serial_stepE: "serial_step parse fmt_time w e w'"

definition no_orphan :: "stream_world \<Rightarrow> bool" where
  "no_orphan w \<longleftrightarrow> (\<forall>i < length (sockets w). wsRef w = Some i \<or> CLOSING \<le> sock_state w i)"

lemma ready_le [simp]:
  "CLOSING \<le> CLOSED" "\<not> CLOSING \<le> OPEN" "\<not> CLOSING \<le> CONNECTING" "OPEN < CLOSING"
  "CONNECTING < CLOSING"
  by (simp_all add: less_eq_ready_state_def less_ready_state_def)

lemma no_orphan_mono:
  "no_orphan w \<Longrightarrow> wsRef w' = wsRef w \<Longrightarrow> length (sockets w') = length (sockets w) \<Longrightarrow>
     (\<And>i. CLOSING \<le> sock_state w i \<Longrightarrow> CLOSING \<le> sock_state w' i) \<Longrightarrow> no_orphan w'"
  by (auto simp: no_orphan_def)

lemma no_orphan_release:
  "no_orphan w \<Longrightarrow> length (sockets w') = length (sockets w) \<Longrightarrow>
     (\<And>i. CLOSING \<le> sock_state w i \<or> wsRef w = Some i \<Longrightarrow> CLOSING \<le> sock_state w' i) \<Longrightarrow> no_orphan w'"
  by (auto simp: no_orphan_def)

lemma no_orphan_cancel:
  assumes "no_orphan w" and "\<forall>i \<in> set_option (wsRef w). sock_state w i \<noteq> CONNECTING"
  shows "no_orphan (cancelStreaming a w)"
proof (rule no_orphan_release [OF assms(1)])
  fix i
  assume "CLOSING \<le> sock_state w i \<or> wsRef w = Some i"
  then show "CLOSING \<le> sock_state (cancelStreaming a w) i"
    using assms(2) by (cases "sock_state w i") (auto simp: sock_state_cancel)
qed simp

lemma no_orphan_start:
  assumes "no_orphan w" and "\<forall>i \<in> set_option (wsRef w). sock_state w i \<noteq> CONNECTING"
  shows "no_orphan (startStream ty hs ok w)"
  using no_orphan_cancel [OF assms, of False]
  by (auto simp: startStream_def Let_def no_orphan_def sock_state_def nth_append less_Suc_eq)

lemma no_orphan_tick: "no_orphan w \<Longrightarrow> no_orphan (ping_tick now w)"
proof (cases "wsRef w")
  case (Some i)
  assume no: "no_orphan w"
  have "no_orphan (reset_refs (sock_close i (w\<lparr>streamData := d, lastPongTime := 0\<rparr>)))" for d
    by (rule no_orphan_release [OF no]) (auto simp: sock_state_close Some)
  moreover have "no_orphan (send_ping i w)" "no_orphan ((send_ping i w)\<lparr>lastPongTime := now\<rparr>)"
    by (rule no_orphan_mono [OF no]; simp)+
  ultimately show ?thesis using no Some by (simp add: ping_tick_def Let_def)
qed (simp add: ping_tick_def)

lemma no_orphan_unmount: "no_orphan w \<Longrightarrow> no_orphan (stream_unmount w)"
  by (rule no_orphan_release, assumption)
    (auto simp: stream_unmount_def Let_def sock_state_close split: option.splits)

lemma no_orphan_step: "no_orphan w \<Longrightarrow> serial_step parse fmt w e w' \<Longrightarrow> no_orphan w'"
proof (elim serial_stepE ws_stepE)
  assume no: "no_orphan w" and ser: "serialised e w" and en: "ws_enabled e w"
    and w': "w' = ws_handle parse fmt e w"
  show "no_orphan w'"
  proof (cases e)
    case (SockOpen i)
    with en have "sock_state w i = CONNECTING" by simp
    then have "no_orphan (ws_onopen i w)"
      unfolding ws_onopen_def
      by (intro no_orphan_mono [OF no]) (auto simp: sock_state_set_ready)
    then show ?thesis using SockOpen w' by simp
  next
    case (SockMessage i d now)
    with w' show ?thesis
      by (auto simp: ws_onmessage_def apply_frame_def no intro: no_orphan_mono [OF no]
          split: frame.splits)
  next
    case (SockClosing i)
    with w' show ?thesis by (auto simp: sock_state_set_ready intro: no_orphan_mono [OF no])
  next
    case (SockClose i)
    with ser have "wsRef w = None \<or> wsRef w = Some i" by (cases "wsRef w") auto
    moreover from SockClose en have "i < length (sockets w)" by simp
    ultimately have "no_orphan (ws_onclose i w)"
      by (intro no_orphan_release [OF no]) (auto simp: ws_onclose_def Let_def sock_state_set_ready)
    with SockClose w' show ?thesis by simp
  qed (use no ser w' in \<open>auto simp: no_orphan_start no_orphan_cancel no_orphan_tick no_orphan_unmount\<close>)
qed

interpretation serial: step_invariant "serial_step parse fmt" "\<lambda>w. w = stream_init" no_orphan
  by unfold_locales (simp add: no_orphan_def stream_init_def, erule (1) no_orphan_step)

text \<open>
  C20. On those schedules no connection is left behind: every socket that is connecting or
  open is the one the hook holds, so cancelling, the timeout and unmounting reach it.
\<close>

theorem stream_no_orphan:
  assumes "run (serial_step parse fmt) stream_init es w"
    and "i < length (sockets w)" and "sock_state w i < CLOSING"
  shows "wsRef w = Some i"
  using serial.inv_reach [OF refl assms(1)] assms(2,3) by (auto simp: no_orphan_def)

theorem stream_no_orphan_witness: "wsRef open_world = Some 0"
proof -
  let ?e = "StartStream Logs [''a'', ''b''] True"
  have a: "ws_enabled ?e stream_init" "serialised ?e stream_init" "ws_enabled (SockOpen 0) start_world"
    by code_simp+
  have b: "start_world = ws_handle no_parse no_time ?e stream_init"
    "open_world = ws_handle no_parse no_time (SockOpen 0) start_world"
    by (simp_all add: start_world_def open_world_def ws_exec_def)
  have "serial_step no_parse no_time stream_init ?e start_world"
    unfolding b(1) by (intro serial_step ws_step a)
  moreover have "serial_step no_parse no_time start_world (SockOpen 0) open_world"
    unfolding b(2) by (intro serial_step ws_step a(3)) simp
  ultimately have r: "run (serial_step no_parse no_time) stream_init [?e, SockOpen 0] open_world"
    by (blast intro: run.intros)
  have "0 < length (sockets open_world)" by code_simp
  then show ?thesis by (rule stream_no_orphan [OF r]) (simp add: open_end less_ready_state_def)
qed

text \<open>
  C40. Both conditions are needed; first the late close event. In any reachable state that
  holds a socket, the close event of another, earlier socket resets the hook: the held
  socket keeps its state (it stays open) while the interface shows no stream and no
  callback can reach the socket any more.
\<close>

theorem stream_late_close_detaches:
  assumes "wsRef w = Some j" and "i \<noteq> j" and "ws_step parse fmt w (SockClose i) w'"
  shows "wsRef w' = None \<and> \<not> isStreaming w' \<and> sock_state w' j = sock_state w j
    \<and> (\<forall>now. ping_tick now w' = w')"
  using assms
  by (auto elim!: ws_stepE simp: ws_onclose_def Let_def sock_state_set_ready ping_tick_def)

theorem stream_late_close_detaches_witness:
  "\<not> isStreaming late_close_world \<and> sock_state late_close_world 1 = OPEN"
proof -
  have "ws_step no_parse no_time restart_world (SockClose 0) late_close_world"
    using late_close_run by (auto elim!: run_consE elim: run.cases)
  from stream_late_close_detaches [OF restart_end(2) _ this] restart_end(5) show ?thesis by simp
qed

text \<open>
  The other condition: cancelling (and so restarting) does not close a socket that is
  still connecting. It stays connecting with no handle on it, and when it opens later its
  handler replaces the texts of whatever stream is then shown by empty texts of its own
  hosts.
\<close>

lemma stream_cancel_keeps_connecting:
  assumes "wsRef w = Some i" and "sock_state w i = CONNECTING" and "i < length (sockets w)"
  shows "sock_state (cancelStreaming a w) i = CONNECTING \<and> wsRef (cancelStreaming a w) = None
    \<and> ws_enabled (SockOpen i) (startStream ty hs True (cancelStreaming a w))
    \<and> streamData (ws_onopen i (startStream ty hs True (cancelStreaming a w)))
        = fill_all (sk_hosts (sockets w ! i)) []"
proof -
  let ?u = "startStream ty hs True (cancelStreaming a w)"
  have "sock_state (cancelStreaming False (cancelStreaming a w)) i = CONNECTING"
    using assms by (simp add: sock_state_cancel)
  then have "sock_state ?u i = CONNECTING" "i < length (sockets ?u)"
    "sk_hosts (sockets ?u ! i) = sk_hosts (sockets w ! i)"
    using assms by (auto simp: startStream_def Let_def sock_state_def nth_append)
  then show ?thesis using assms by (simp add: sock_state_cancel ws_onopen_def)
qed

lemma stream_cancel_keeps_connecting_example:
  "sock_state (cancelStreaming False start_world) 0 = CONNECTING"
  using stream_cancel_keeps_connecting [OF start_end(1,2,3), of False] by blast

section \<open>The stream URL\<close>

text \<open>
  C34. The server reads back the hosts the client asked for: for a page address without a
  question mark and a non-empty list of ASCII host names without commas, splitting the
  decoded query parameter of the stream URL gives exactly that list.
\<close>

theorem stream_url_roundtrip:
  assumes "CHR ''?'' \<notin> set (env_protocol env)" "CHR ''?'' \<notin> set (env_host env)"
    "CHR ''?'' \<notin> set (env_hostname env)"
    and "hs \<noteq> []" "hs \<noteq> [[]]" "\<forall>h \<in> set hs. ascii h \<and> CHR '','' \<notin> set h"
  shows "server_targets (getStreamWebSocketUrl env ty hs) = Some hs"
proof -
  define base where "base =
    replace_scheme (if env_protocol env = ''https:'' then ''wss:'' else ''ws:'') (getApiBaseUrl env)
    @ ''/api/'' @ stream_name ty"
  have "CHR ''?'' \<notin> set (getApiBaseUrl env)" using assms by (simp add: getApiBaseUrl_def)
  then have "CHR ''?'' \<notin> set base"
    by (cases ty) (auto simp: base_def replace_scheme_def dest: in_set_dropD)
  then have "query_param ''hosts'' (base @ ''?hosts='' @ encodeURIComponent (js_join '','' hs))
      = query_unescape (encodeURIComponent (js_join '','' hs))"
    by (rule query_param_single [OF _ encode_safe])
  also have "\<dots> = js_join '','' hs" using assms(6) by (simp add: unescape_encode ascii_join)
  finally have "query_param ''hosts'' (getStreamWebSocketUrl env ty hs) = js_join '','' hs"
    by (simp add: getStreamWebSocketUrl_def base_def Let_def)
  then show ?thesis
    using assms by (simp add: server_targets_def js_join_nonempty js_split_join)
qed

definition stream_env :: page_env where
  "stream_env = \<lparr>env_prod = True, env_protocol = ''https:'', env_host = ''ui.ts.net'',
     env_hostname = ''ui.ts.net''\<rparr>"

theorem stream_url_roundtrip_witness:
  "server_targets (getStreamWebSocketUrl stream_env Logs [''web-1'', ''db 2'']) = Some [''web-1'', ''db 2'']"
  by (rule stream_url_roundtrip) (simp_all add: stream_env_def ascii_def code_of_def)

end
