(* ===== verification/StreamTermination.thy ===== *)
theory StreamTermination
  imports StreamProperties
begin

text \<open>
  Streaming comes to an end: the events of the sockets are bounded by a measure that every one
  of them consumes, and after the component is unmounted nothing but those events remains.
\<close>

section \<open>The measure\<close>

text \<open>How far the sockets have moved in their life cycles, all together.\<close>

definition progress :: "stream_world \<Rightarrow> nat" where
  "progress w = (\<Sum>i < length (sockets w). ready_code (sock_state w i))"

fun socket_event :: "ws_event \<Rightarrow> bool" where
  "socket_event (SockOpen i) = True"
| "socket_event (SockClosing i) = True"
| "socket_event (SockClose i) = True"
| "socket_event _ = False"

fun starts_socket :: "ws_event \<Rightarrow> bool" where
  "starts_socket (StartStream ty hs ok) = (ok \<and> hs \<noteq> [])"
| "starts_socket _ = False"

lemma ready_code_le: "ready_code r \<le> 3"
  by (cases r) auto

lemma progress_le: "progress w \<le> 3 * length (sockets w)"
  using sum_bounded_above [of "{..<length (sockets w)}" "\<lambda>i. ready_code (sock_state w i)" 3]
  by (simp add: progress_def ready_code_le mult.commute)

lemma progress_mono:
  assumes "forward w w'" shows "progress w \<le> progress w'"
proof -
  have "progress w \<le> (\<Sum>i < length (sockets w). ready_code (sock_state w' i))"
    using assms unfolding progress_def
    by (intro sum_mono) (auto simp: forward_def less_eq_ready_state_def)
  also have "\<dots> \<le> progress w'"
    using assms unfolding progress_def by (intro sum_mono2) (auto simp: forward_def)
  finally show ?thesis .
qed

lemma progress_strict:
  assumes "forward w w'" and "i < length (sockets w)" and "sock_state w i < sock_state w' i"
  shows "progress w < progress w'"
proof -
  have "progress w < (\<Sum>i < length (sockets w). ready_code (sock_state w' i))"
    using assms unfolding progress_def
    by (intro sum_strict_mono_ex1)
      (auto simp: forward_def less_eq_ready_state_def less_ready_state_def)
  also have "\<dots> \<le> progress w'"
    using assms unfolding progress_def by (intro sum_mono2) (auto simp: forward_def)
  finally show ?thesis .
qed

lemma progress_step:
  assumes "ws_step parse fmt w e w'"
  shows "progress w + (if socket_event e then 1 else 0) \<le> progress w'"
proof (cases "socket_event e")
  case True
  from assms have en: "ws_enabled e w" and w': "w' = ws_handle parse fmt e w"
    by (auto elim: ws_stepE)
  from True en w' obtain i where "i < length (sockets w)" "sock_state w i < sock_state w' i"
    by (cases e) (auto simp: ws_onopen_def ws_onclose_def Let_def sock_state_set_ready less_ready_state_def)
  with progress_strict [OF forward_step [OF assms]] True show ?thesis by (simp add: Suc_le_eq)
qed (use progress_mono [OF forward_step [OF assms]] in simp)

lemma sockets_step:
  assumes "ws_step parse fmt w e w'"
  shows "length (sockets w') = length (sockets w) + (if starts_socket e then 1 else 0)"
proof -
  from assms have w': "w' = ws_handle parse fmt e w" by (auto elim: ws_stepE)
  show ?thesis
    unfolding w'
    by (cases e)
      (auto simp: startStream_def Let_def ws_onopen_def ws_onclose_def ws_onmessage_def apply_frame_def
        ping_tick_def stream_unmount_def split: frame.splits option.splits)
qed

lemma socket_events_run:
  "run (ws_step parse fmt) w es w' \<Longrightarrow>
     progress w + length (filter socket_event es) \<le> progress w'
     \<and> length (sockets w') = length (sockets w) + length (filter starts_socket es)"
proof (induction rule: run.induct)
  case (run_cons w e u es w')
  with progress_step [OF run_cons.hyps(1)] sockets_step [OF run_cons.hyps(1)] show ?case
    by (auto split: if_splits)
qed simp

section \<open>After the unmount\<close>

text \<open>The events that need the component or its timer.\<close>

fun needs_component :: "ws_event \<Rightarrow> bool" where
  "needs_component (StartStream _ _ _) = True"
| "needs_component (CancelStreaming _) = True"
| "needs_component (Tick _ _) = True"
| "needs_component Unmount = True"
| "needs_component _ = False"

definition gone :: "stream_world \<Rightarrow> bool" where
  "gone w \<longleftrightarrow> \<not> mounted w \<and> timers w = []"

lemma gone_step: "ws_step parse fmt w e w' \<Longrightarrow> gone w \<Longrightarrow> gone w' \<and> \<not> needs_component e"
  by (erule ws_stepE, cases e)
    (auto simp: gone_def ws_onopen_def ws_onclose_def ws_onmessage_def apply_frame_def Let_def
      split: frame.splits)

lemma gone_run: "run (ws_step parse fmt) w es w' \<Longrightarrow> gone w \<Longrightarrow> filter needs_component es = []"
  by (induction rule: run.induct) (auto dest: gone_step)


definition unmount_events :: "ws_event list" where
  "unmount_events = [StartStream Logs [''a''] True, SockOpen 0, Tick 1 1000, Unmount]"

lemma unmount_run:
  "run (ws_step no_parse no_time) stream_init unmount_events (ws_exec no_parse no_time unmount_events stream_init)"
  by (rule run_ws_exec) code_simp

lemma unmount_end:
  "\<not> mounted (ws_exec no_parse no_time unmount_events stream_init)"
  "ws_all_enabled no_parse no_time [SockClose 0] (ws_exec no_parse no_time unmount_events stream_init)"
  by code_simp+


end
