(* ===== verification/StreamSession.thy ===== *)
theory StreamSession
  imports StreamProperties
begin

text \<open>
  What the hook promises its page, without its refs, timers and browser objects: a stream is
  off, or it runs for a type and some hosts over a link that is set up, live and closed in that
  order, or the component is gone. The hook refines this machine, and allows all of it.
\<close>

section \<open>The specification\<close>

datatype link = Unlinked | Linking | Live | Closing

datatype session = Off | On stream_type "string list" link | Gone

datatype session_event =
    Begin stream_type "string list" bool \<comment> \<open>the last: whether a link could be created\<close>
  | Stop
  | Opened
  | Handshake
  | Lost
  | Leave
  | Quiet \<comment> \<open>an event the session does not notice\<close>

inductive session_step :: "session \<Rightarrow> session_event \<Rightarrow> session \<Rightarrow> bool" where
  begins: "s \<noteq> Gone \<Longrightarrow> hs \<noteq> [] \<Longrightarrow> session_step s (Begin ty hs True) (On ty hs Linking)"
| unlinked: "s \<noteq> Gone \<Longrightarrow> hs \<noteq> [] \<Longrightarrow> session_step s (Begin ty hs False) (On ty hs Unlinked)"
| no_hosts: "s \<noteq> Gone \<Longrightarrow> session_step s (Begin ty [] ok) Off"
| stops: "s \<noteq> Gone \<Longrightarrow> session_step s Stop Off"
| opens: "session_step (On ty hs Linking) Opened (On ty hs Live)"
| handshakes: "session_step (On ty hs Live) Handshake (On ty hs Closing)"
| loses: "l \<noteq> Unlinked \<Longrightarrow> session_step (On ty hs l) Lost Off"
| leaves: "s \<noteq> Gone \<Longrightarrow> session_step s Leave Gone"
| rests: "session_step s Quiet s"

inductive_simps session_step_iff:
  "session_step s (Begin ty hs ok) t" "session_step s Stop t" "session_step s Opened t"
  "session_step s Handshake t" "session_step s Lost t" "session_step s Leave t"
  "session_step s Quiet t"

section \<open>The hook as a session\<close>

fun link_of :: "ready_state \<Rightarrow> link" where
  "link_of CONNECTING = Linking"
| "link_of OPEN = Live"
| "link_of CLOSING = Closing"
| "link_of CLOSED = Closing"

definition session_of :: "stream_world \<Rightarrow> session" where
  "session_of w =
     (if mounted w
      then case activeStreamType w of
             None \<Rightarrow> Off
           | Some ty \<Rightarrow>
               On ty (hostIdsRef w)
                 (case wsRef w of None \<Rightarrow> Unlinked | Some i \<Rightarrow> link_of (sock_state w i))
      else Gone)"

text \<open>
  What the session sees of an event. The life cycle of a socket that is not the current one is
  not seen, with the exception of its close event: the handler does not look at whose it is.
\<close>

fun session_label :: "stream_world \<Rightarrow> ws_event \<Rightarrow> session_event" where
  "session_label w (StartStream ty hs ok) = Begin ty hs ok"
| "session_label w (CancelStreaming a) = Stop"
| "session_label w (SockOpen i) = (if wsRef w = Some i then Opened else Quiet)"
| "session_label w (SockMessage i d now) = Quiet"
| "session_label w (SockError i) = Quiet"
| "session_label w (SockClosing i) = (if wsRef w = Some i then Handshake else Quiet)"
| "session_label w (SockClose i) = (if wsRef w = None then Quiet else Lost)"
| "session_label w (Tick t now) =
     (if wsRef w \<noteq> None \<and> lastPongTime w > 0 \<and> now - lastPongTime w > PONG_TIMEOUT
      then Lost else Quiet)"
| "session_label w Unmount = Leave"

section \<open>The simulation\<close>

lemma session_off: "mounted w \<Longrightarrow> activeStreamType w = None \<Longrightarrow> session_of w = Off"
  by (simp add: session_of_def)

lemma session_current:
  assumes "ws_inv w" and "wsRef w = Some i"
  obtains ty where "mounted w" "session_of w = On ty (hostIdsRef w) (link_of (sock_state w i))"
    "i < length (sockets w)" "sock_state w i < CLOSED"
  using assms by (auto simp: ws_inv_defs session_of_def split: if_splits)

lemma link_of_linked [simp]: "link_of r \<noteq> Unlinked"
  by (cases r) auto

lemma session_lost: "ws_inv w \<Longrightarrow> wsRef w = Some i \<Longrightarrow> session_step (session_of w) Lost Off"
  by (erule (1) session_current) (simp add: loses)

lemma session_start:
  "mounted w \<Longrightarrow>
     session_of (startStream ty hs ok w) =
       (if hs = [] then Off else On ty hs (if ok then Linking else Unlinked))"
  by (auto simp: session_of_def startStream_def Let_def sock_state_def nth_append)

text \<open>The session depends on the streaming state, the refs and the current socket only.\<close>

lemma session_cong:
  assumes "mounted v = mounted w" "activeStreamType v = activeStreamType w"
    "hostIdsRef v = hostIdsRef w" "wsRef v = wsRef w"
    "\<And>i. wsRef w = Some i \<Longrightarrow> sock_state v i = sock_state w i"
  shows "session_of v = session_of w"
  using assms by (auto simp: session_of_def split: option.splits)

lemma session_frame: "session_of (apply_frame now f w) = session_of w"
  by (rule session_cong; cases f; simp add: apply_frame_def)

lemma session_set_ready:
  "wsRef w \<noteq> Some i \<Longrightarrow> session_of (set_ready i r w) = session_of w"
  by (rule session_cong) (simp_all add: sock_state_set_ready)

lemma session_open:
  assumes "ws_inv w" "sock_state w i = CONNECTING" "i < length (sockets w)"
  shows "session_step (session_of w) (session_label w (SockOpen i)) (session_of (ws_onopen i w))"
proof (cases "wsRef w = Some i")
  case True
  with assms(1) obtain ty where "session_of w = On ty (hostIdsRef w) (link_of (sock_state w i))"
    and "mounted w" by (rule session_current)
  with True assms show ?thesis
    by (auto simp: session_of_def ws_onopen_def sock_state_set_ready session_step_iff split: option.splits)
next
  case False
  then have "session_of (ws_onopen i w) = session_of w"
    by (intro session_cong) (auto simp: ws_onopen_def sock_state_set_ready)
  with False show ?thesis by (simp add: session_step_iff)
qed

lemma session_closing:
  assumes "ws_inv w" "sock_state w i = OPEN" "i < length (sockets w)"
  shows "session_step (session_of w) (session_label w (SockClosing i)) (session_of (set_ready i CLOSING w))"
proof (cases "wsRef w = Some i")
  case True
  with assms(1) obtain ty where "session_of w = On ty (hostIdsRef w) (link_of (sock_state w i))"
    and "mounted w" by (rule session_current)
  with True assms show ?thesis
    by (auto simp: session_of_def sock_state_set_ready session_step_iff split: option.splits)
qed (simp add: session_set_ready session_step_iff)

lemma session_close:
  assumes "ws_inv w"
  shows "session_step (session_of w) (session_label w (SockClose i)) (session_of (ws_onclose i w))"
proof (cases "wsRef w")
  case None
  then show ?thesis by (simp add: ws_onclose_def Let_def session_set_ready session_step_iff)
next
  case (Some j)
  with assms have "mounted w" by (rule session_current)
  with Some show ?thesis
    using session_lost [OF assms Some] by (simp add: ws_onclose_def Let_def session_off)
qed

lemma session_tick:
  assumes "ws_inv w"
  shows "session_step (session_of w) (session_label w (Tick t now)) (session_of (ping_tick now w))"
proof (cases "session_label w (Tick t now) = Lost")
  case True
  then obtain j where j: "wsRef w = Some j" by (auto split: if_splits)
  with assms have "mounted w" by (rule session_current)
  with True show ?thesis
    using session_lost [OF assms j] by (auto simp: ping_tick_def j session_off split: if_splits)
next
  case False
  then have "session_of (ping_tick now w) = session_of w"
    by (intro session_cong; cases "wsRef w") (auto simp: ping_tick_def Let_def)
  moreover from False have "session_label w (Tick t now) = Quiet" by (simp split: if_splits)
  ultimately show ?thesis by (simp only: session_step_iff)
qed

lemma session_mounted: "mounted w \<longleftrightarrow> session_of w \<noteq> Gone"
  by (simp add: session_of_def split: option.splits)

lemma session_simulates:
  assumes inv: "ws_inv w" and step: "ws_step parse fmt w e w'"
  shows "session_step (session_of w) (session_label w e) (session_of w')"
proof -
  from step have en: "ws_enabled e w" and w': "w' = ws_handle parse fmt e w"
    by (auto elim: ws_stepE)
  show ?thesis
  proof (cases e)
    case (StartStream ty hs ok)
    with en w' show ?thesis
      by (auto simp: session_start session_step_iff session_mounted)
  next
    case (SockOpen i)
    with en w' inv show ?thesis by (simp only: ws_handle.simps session_open ws_enabled.simps)
  next
    case (SockClosing i)
    with en w' inv show ?thesis by (simp only: ws_handle.simps session_closing ws_enabled.simps)
  next
    case (SockClose i)
    with w' inv show ?thesis by (simp only: ws_handle.simps session_close)
  next
    case (Tick t now)
    with w' inv show ?thesis by (simp only: ws_handle.simps session_tick)
  qed (use en w' in \<open>simp_all add: session_step_iff session_off session_mounted session_frame
      ws_onmessage_def, simp_all add: stream_unmount_def Let_def session_of_def\<close>)
qed

interpretation session: simulation "ws_step parse fmt" "\<lambda>w. w = stream_init" ws_inv
  "ws_handle parse fmt" session_step session_label session_of
  by unfold_locales (auto intro: session_simulates elim: ws_stepE)

text \<open>Conversely, whatever the session may do, some event makes the hook do.\<close>

lemma session_deterministic: "session_step s l t \<Longrightarrow> session_step s l u \<Longrightarrow> t = u"
  by (erule session_step.cases) (auto simp: session_step_iff)

lemma session_current_exists:
  assumes "session_of w = On ty hs l" and "l \<noteq> Unlinked"
  shows "\<exists>i. wsRef w = Some i \<and> link_of (sock_state w i) = l"
  using assms by (auto simp: session_of_def split: if_splits option.splits)

lemma link_of_eq: "link_of r = Linking \<longleftrightarrow> r = CONNECTING" "link_of r = Live \<longleftrightarrow> r = OPEN"
  by (cases r; simp)+

lemma session_enabled:
  assumes inv: "ws_inv w" and step: "session_step (session_of w) l s" and "l \<noteq> Quiet"
  shows "\<exists>e. ws_enabled e w \<and> session_label w e = l"
  using step
proof (cases rule: session_step.cases)
  case (opens ty hs)
  then obtain i where i: "wsRef w = Some i" "sock_state w i = CONNECTING"
    by (auto dest: session_current_exists simp: link_of_eq)
  with inv opens show ?thesis
    by (intro exI [of _ "SockOpen i"]) (auto simp: ws_inv_def current_socket_ok_def)
next
  case (handshakes ty hs)
  then obtain i where i: "wsRef w = Some i" "sock_state w i = OPEN"
    by (auto dest: session_current_exists simp: link_of_eq)
  with inv handshakes show ?thesis
    by (intro exI [of _ "SockClosing i"]) (auto simp: ws_inv_def current_socket_ok_def)
next
  case (loses k ty hs)
  then obtain i where "wsRef w = Some i" by (auto dest: session_current_exists)
  with inv loses show ?thesis
    by (intro exI [of _ "SockClose i"]) (auto simp: ws_inv_def current_socket_ok_def)
next
  case (begins hs ty)
  then show ?thesis by (intro exI [of _ "StartStream ty hs True"]) (simp add: session_mounted)
next
  case (unlinked hs ty)
  then show ?thesis by (intro exI [of _ "StartStream ty hs False"]) (simp add: session_mounted)
next
  case (no_hosts ty ok)
  then show ?thesis by (intro exI [of _ "StartStream ty [] ok"]) (simp add: session_mounted)
next
  case stops
  then show ?thesis by (intro exI [of _ "CancelStreaming False"]) (simp add: session_mounted)
next
  case leaves
  then show ?thesis by (intro exI [of _ Unmount]) (simp add: session_mounted)
qed (use \<open>l \<noteq> Quiet\<close> in simp)

lemma session_realised:
  assumes "ws_inv w" "session_step (session_of w) l s" "l \<noteq> Quiet"
  shows "\<exists>e w'. ws_step parse fmt w e w' \<and> session_label w e = l \<and> session_of w' = s"
proof -
  obtain e where e: "ws_enabled e w" "session_label w e = l" using session_enabled [OF assms] by blast
  then have step: "ws_step parse fmt w e (ws_handle parse fmt e w)" by (simp add: ws_step)
  from session_simulates [OF assms(1) this] e assms(2)
  have "session_of (ws_handle parse fmt e w) = s" by (auto intro: session_deterministic)
  with step e show ?thesis by blast
qed

section \<open>The hook implements the session\<close>

abbreviation stream_labels :: "json_parser \<Rightarrow> time_format \<Rightarrow> ws_event list \<Rightarrow> session_event list" where
  "stream_labels parse fmt es \<equiv> label_trace session_label (ws_handle parse fmt) es stream_init"

text \<open>
  C13. The stream hook implements the session. In any run, what the session sees of the events is
  a run of the specification that ends in the session the state shows: a stream runs only after a
  start, for the type and hosts it was started with, is set up, live and closed in that order,
  and every loss, stop or empty start turns it off. Conversely everything the session may do
  next, the hook does on some event that can occur.
\<close>

theorem stream_session_refines:
  assumes "run (ws_step parse fmt) stream_init es w"
  shows "run session_step Off (stream_labels parse fmt es) (session_of w)
    \<and> (session_step (session_of w) l s \<and> l \<noteq> Quiet \<longrightarrow>
         (\<exists>e w'. ws_step parse fmt w e w' \<and> session_label w e = l \<and> session_of w' = s))"
proof -
  have "session_of stream_init = Off" by (simp add: session_of_def stream_init_def)
  with session.spec_reach [OF refl assms] have "run session_step Off (stream_labels parse fmt es) (session_of w)"
    by simp
  moreover have "ws_inv w" by (rule ws.inv_reach [OF refl assms])
  ultimately show ?thesis by (auto intro: session_realised)
qed

lemma restart_labels:
  "stream_labels no_parse no_time restart_events =
     [Begin Logs [''a''] True, Opened, Quiet, Stop, Begin BusEvents [''b''] True, Opened]"
  by code_simp

lemma restart_session: "session_of restart_world = On BusEvents [''b''] Live"
  by code_simp

theorem stream_session_refines_witness:
  "run session_step Off
     [Begin Logs [''a''] True, Opened, Quiet, Stop, Begin BusEvents [''b''] True, Opened]
     (On BusEvents [''b''] Live)
   \<and> (\<exists>e w'. ws_step no_parse no_time restart_world e w'
        \<and> session_label restart_world e = Lost \<and> session_of w' = Off)"
  using stream_session_refines [OF restart_run, of Lost Off]
  unfolding restart_labels restart_session by (simp add: session_step_iff)

end
