(* ===== verification/Jsx.thy ===== *)
theory Jsx
  imports JsValue
begin

text \<open>
  Rendering in React as a function into trees. A component maps its properties to a list of
  nodes, or to the exception its evaluation throws; an exception in any component takes the
  page down, since the application has no error boundary. Fixed styling (class names that
  do not depend on data, icons) is left out of the trees; a class that depends on data is an
  attribute.
\<close>

section \<open>Trees\<close>

datatype ui =
    Text string
  | Elem string "(string \<times> string) list" "ui list"
  | RawHtml string \<comment> \<open>\<open>dangerouslySetInnerHTML\<close>\<close>

type_synonym rendered = "ui list js_result"

definition str_node :: "string \<Rightarrow> rendered" where
  "str_node s = Inr [Text s]"

fun nodes_of :: "rendered list \<Rightarrow> rendered" where
  "nodes_of [] = Inr []"
| "nodes_of (k # ks) = exn_bind k (\<lambda>u. exn_bind (nodes_of ks) (\<lambda>us. Inr (u @ us)))"

definition ela :: "string \<Rightarrow> (string \<times> string) list \<Rightarrow> rendered list \<Rightarrow> rendered" where
  "ela tag attrs ks = exn_bind (nodes_of ks) (\<lambda>us. Inr [Elem tag attrs us])"

definition el :: "string \<Rightarrow> rendered list \<Rightarrow> rendered" where
  "el tag ks = ela tag [] ks"

section \<open>Expressions in braces\<close>

text \<open>
  \<open>{v}\<close>: nothing for \<open>undefined\<close>, \<open>null\<close> and booleans, text for strings and numbers (so a
  zero shows), the elements of an array; an object throws.
\<close>

definition bad_child :: exn where
  "bad_child = Error ''Objects are not valid as a React child''"

fun child :: "jsv \<Rightarrow> rendered" where
  "child JUndef = Inr []"
| "child JNull = Inr []"
| "child (JBool b) = Inr []"
| "child (JNum n) = str_node (num_str n)"
| "child (JStr s) = (if s = [] then Inr [] else str_node s)"
| "child (JArr xs) = nodes_of (map child xs)"
| "child (JObj m) = Inl bad_child"
| "child (JBuf b) = Inl bad_child"

definition child_of :: "jsv js_result \<Rightarrow> rendered" where
  "child_of r = exn_bind r child"

text \<open>\<open>{v && f(v)}\<close>: a falsy value is itself the child.\<close>

definition and_then :: "jsv js_result \<Rightarrow> (jsv \<Rightarrow> rendered) \<Rightarrow> rendered" where
  "and_then r f = exn_bind r (\<lambda>v. if truthy v then f v else child v)"

definition render_if :: "bool \<Rightarrow> rendered \<Rightarrow> rendered" where
  "render_if c r = (if c then r else Inr [])"

text \<open>\<open>v > 0\<close>; only numbers and booleans are compared, everything else is taken for \<open>NaN\<close>.\<close>

fun positive :: "jsv \<Rightarrow> bool" where
  "positive (JNum n) = (n > 0)"
| "positive (JBool b) = b"
| "positive _ = False"

text \<open>\<open>v && v.length > 0\<close> and \<open>v && Object.keys(v).length > 0\<close>\<close>

definition some_items :: "jsv js_result \<Rightarrow> jsv js_result" where
  "some_items r =
     exn_bind r (\<lambda>v. if truthy v then exn_bind (js_prop v ''length'') (\<lambda>n. Inr (JBool (positive n)))
                     else Inr v)"

text \<open>\<open>Object.entries(v)\<close>, in the order of the keys\<close>

fun js_entries :: "jsv \<Rightarrow> (string \<times> jsv) list js_result" where
  "js_entries JUndef = Inl (Error ''Cannot convert undefined or null to object'')"
| "js_entries JNull = Inl (Error ''Cannot convert undefined or null to object'')"
| "js_entries (JObj m) =
     Inr (map (\<lambda>k. (k, case obj_get m k of None \<Rightarrow> JUndef | Some v \<Rightarrow> v)) (obj_keys m))"
| "js_entries (JArr xs) = Inr (map (\<lambda>i. (show_nat i, xs ! i)) [0..<length xs])"
| "js_entries (JStr s) = Inr (map (\<lambda>i. (show_nat i, JStr [s ! i])) [0..<length s])"
| "js_entries _ = Inr []"

definition js_keys :: "jsv \<Rightarrow> string list js_result" where
  "js_keys v = exn_bind (js_entries v) (\<lambda>es. Inr (map fst es))"

definition some_keys :: "jsv js_result \<Rightarrow> jsv js_result" where
  "some_keys r =
     exn_bind r (\<lambda>v. if truthy v then exn_bind (js_keys v) (\<lambda>ks. Inr (JBool (ks \<noteq> []))) else Inr v)"

text \<open>\<open>v.map(f)\<close> as children\<close>

definition map_child :: "jsv js_result \<Rightarrow> (jsv \<Rightarrow> rendered) \<Rightarrow> rendered" where
  "map_child r f =
     exn_bind r (\<lambda>v. case v of
         JArr xs \<Rightarrow> nodes_of (map f xs)
       | JUndef \<Rightarrow> Inl (type_error ''undefined'' ''map'')
       | JNull \<Rightarrow> Inl (type_error ''null'' ''map'')
       | _ \<Rightarrow> Inl (Error ''map is not a function''))"

definition entries_child :: "jsv js_result \<Rightarrow> (string \<Rightarrow> jsv \<Rightarrow> rendered) \<Rightarrow> rendered" where
  "entries_child r f =
     exn_bind r (\<lambda>v. exn_bind (js_entries v) (\<lambda>es. nodes_of (map (\<lambda>(k, w). f k w) es)))"

definition keys_child :: "jsv js_result \<Rightarrow> (string \<Rightarrow> rendered) \<Rightarrow> rendered" where
  "keys_child r f = exn_bind r (\<lambda>v. exn_bind (js_keys v) (\<lambda>ks. nodes_of (map f ks)))"

text \<open>\<open>r.k\<close>, \<open>r?.k\<close> and \<open>r !== undefined && f(r)\<close>\<close>

definition dot :: "jsv js_result \<Rightarrow> string \<Rightarrow> jsv js_result" where
  "dot r k = exn_bind r (\<lambda>v. js_prop v k)"

definition opt_dot :: "jsv js_result \<Rightarrow> string \<Rightarrow> jsv js_result" where
  "opt_dot r k = exn_bind r (\<lambda>v. Inr (js_opt_prop v k))"

definition if_defined :: "jsv js_result \<Rightarrow> (jsv \<Rightarrow> rendered) \<Rightarrow> rendered" where
  "if_defined r f = exn_bind r (\<lambda>v. render_if (v \<noteq> JUndef) (f v))"

text \<open>An attribute with a value from the data is left out when that is missing.\<close>

definition js_attr :: "string \<Rightarrow> jsv \<Rightarrow> (string \<times> string) list" where
  "js_attr name v = (if v \<in> {JUndef, JNull} then [] else [(name, to_str v)])"

section \<open>What a tree shows\<close>

fun ui_text :: "ui \<Rightarrow> string" where
  "ui_text (Text s) = s"
| "ui_text (Elem _ _ ks) = concat (map ui_text ks)"
| "ui_text (RawHtml _) = []"

fun raw_html :: "ui \<Rightarrow> string list" where
  "raw_html (Text s) = []"
| "raw_html (Elem _ _ ks) = concat (map raw_html ks)"
| "raw_html (RawHtml h) = [h]"

section \<open>Rendering without exceptions\<close>

definition renders :: "'a js_result \<Rightarrow> bool" where
  "renders r \<longleftrightarrow> (\<exists>u. r = Inr u)"

named_theorems render_intros \<open>rules that show that a component renders\<close>

lemma renders_bind: "renders r \<Longrightarrow> (\<And>v. r = Inr v \<Longrightarrow> renders (f v)) \<Longrightarrow> renders (exn_bind r f)"
  by (auto simp: renders_def)

lemma renders_Inr [render_intros]: "renders (Inr u)"
  by (simp add: renders_def)

lemma renders_str_node [render_intros]: "renders (str_node s)"
  by (simp add: renders_def str_node_def)

lemma renders_nodes: "(\<And>k. k \<in> set ks \<Longrightarrow> renders k) \<Longrightarrow> renders (nodes_of ks)"
  by (induction ks) (auto intro!: renders_bind renders_Inr)

lemma renders_ela: "(\<And>k. k \<in> set ks \<Longrightarrow> renders k) \<Longrightarrow> renders (ela tag attrs ks)"
  unfolding ela_def by (intro renders_bind renders_nodes renders_Inr)

text \<open>The rules over explicit lists of children, for the steps of \<open>intro\<close>.\<close>

definition all_render :: "rendered list \<Rightarrow> bool" where
  "all_render ks \<longleftrightarrow> (\<forall>k \<in> set ks. renders k)"

lemma all_render_Nil [render_intros]: "all_render []"
  by (simp add: all_render_def)

lemma all_render_Cons [render_intros]: "renders k \<Longrightarrow> all_render ks \<Longrightarrow> all_render (k # ks)"
  by (simp add: all_render_def)

lemma all_render_map [render_intros]:
  "(\<And>x. x \<in> set xs \<Longrightarrow> renders (f x)) \<Longrightarrow> all_render (map f xs)"
  by (auto simp: all_render_def)

lemma all_render_append [render_intros]: "all_render ks \<Longrightarrow> all_render ls \<Longrightarrow> all_render (ks @ ls)"
  by (auto simp: all_render_def)

lemma renders_nodes_all [render_intros]: "all_render ks \<Longrightarrow> renders (nodes_of ks)"
  by (simp add: all_render_def renders_nodes)

lemma renders_ela_all [render_intros]: "all_render ks \<Longrightarrow> renders (ela tag attrs ks)"
  by (simp add: all_render_def renders_ela)

lemma renders_el_all [render_intros]: "all_render ks \<Longrightarrow> renders (el tag ks)"
  by (simp add: el_def renders_ela_all)

lemma renders_if [render_intros]: "(c \<Longrightarrow> renders r) \<Longrightarrow> renders (render_if c r)"
  by (simp add: render_if_def renders_Inr)

lemma falsy_renders: "\<not> truthy v \<Longrightarrow> renders (child v)"
  by (cases v) (auto intro: render_intros)

lemma renders_and_then:
  "r = Inr v \<Longrightarrow> (truthy v \<Longrightarrow> renders (f v)) \<Longrightarrow> renders (and_then r f)"
  by (simp add: and_then_def falsy_renders)

lemma renders_map_child:
  "r = Inr (JArr xs) \<Longrightarrow> (\<And>x. x \<in> set xs \<Longrightarrow> renders (f x)) \<Longrightarrow> renders (map_child r f)"
  by (auto simp: map_child_def intro!: renders_nodes)

text \<open>The other direction: a tree renders only where all its parts do.\<close>

lemma renders_bind_iff: "renders (exn_bind r f) \<longleftrightarrow> (\<exists>v. r = Inr v \<and> renders (f v))"
  by (cases r) (auto simp: renders_def)

lemma renders_nodes_iff: "renders (nodes_of ks) \<longleftrightarrow> (\<forall>k \<in> set ks. renders k)"
proof (induction ks)
  case (Cons k ks)
  have "renders (nodes_of (k # ks)) \<longleftrightarrow> renders k \<and> renders (nodes_of ks)"
    by (auto simp: renders_bind_iff renders_Inr) (auto simp: renders_def)
  with Cons show ?case by simp
qed (simp add: renders_Inr)

lemma renders_ela_iff: "renders (ela tag attrs ks) \<longleftrightarrow> (\<forall>k \<in> set ks. renders k)"
  using renders_nodes_iff [of ks] by (auto simp: ela_def renders_bind_iff renders_Inr) (auto simp: renders_def)

lemma renders_el_iff: "renders (el tag ks) \<longleftrightarrow> (\<forall>k \<in> set ks. renders k)"
  by (simp add: el_def renders_ela_iff)

lemmas renders_iffs = renders_bind_iff renders_nodes_iff renders_ela_iff renders_el_iff

end
