(* ===== verification/Format.thy ===== *)
theory Format
  imports JsValue
begin

text \<open>
  The formatting helpers of \<open>components/UIComponents.tsx\<close>: sizes, latencies and times.
  Logarithms are exact, as all numbers here; dates (parsing and the locale's format) belong to
  the browser and are a parameter, \<open>clock\<close>.
\<close>

section \<open>Decimals\<close>

text \<open>
  \<open>x.toFixed(2)\<close>: the nearest multiple of one hundredth, the larger one of two, of the
  magnitude, below the \<open>10 ^ 21\<close> from which an exponent is printed.
\<close>

definition hundredths :: "rat \<Rightarrow> nat" where
  "hundredths x = nat \<lfloor>100 * \<bar>x\<bar> + 1 / 2\<rfloor>"

definition two_digits :: "nat \<Rightarrow> string" where
  "two_digits n = [digit_char (n div 10 mod 10), digit_char (n mod 10)]"

definition toFixed2 :: "rat \<Rightarrow> string" where
  "toFixed2 x =
     (if x < 0 then ''-'' else []) @
     show_nat (hundredths x div 100) @ ''.'' @ two_digits (hundredths x mod 100)"

lemma hundredths_close: "\<bar>of_nat (hundredths x) / 100 - \<bar>x\<bar>\<bar> \<le> 1 / 200"
proof -
  have "0 \<le> 100 * \<bar>x\<bar> + 1 / 2" by simp
  then have "of_nat (hundredths x) = (of_int \<lfloor>100 * \<bar>x\<bar> + 1 / 2\<rfloor> :: rat)"
    by (simp add: hundredths_def)
  moreover have "of_int \<lfloor>100 * \<bar>x\<bar> + 1 / 2\<rfloor> \<le> 100 * \<bar>x\<bar> + 1 / 2"
    "100 * \<bar>x\<bar> + 1 / 2 < of_int \<lfloor>100 * \<bar>x\<bar> + 1 / 2\<rfloor> + 1" by linarith+
  ultimately show ?thesis unfolding abs_le_iff by linarith
qed

section \<open>Sizes\<close>

text \<open>
  \<open>Math.floor(Math.log(b) / Math.log(1024))\<close> for a positive \<open>b\<close>: divide while at least
  1024, multiply while below 1.
\<close>

function log1024 :: "rat \<Rightarrow> int" where
  "log1024 b =
     (if b \<ge> 1024 then log1024 (b / 1024) + 1
      else if 0 < b \<and> b < 1 then log1024 (b * 1024) - 1
      else 0)"
  by pat_completeness auto

text \<open>Either branch ends: the size of \<open>b\<close>, or of its inverse, falls.\<close>

definition log_steps :: "rat \<Rightarrow> nat" where
  "log_steps b =
     (if b \<ge> 1024 then nat \<lfloor>b\<rfloor> else if 0 < b \<and> b < 1 then nat \<lfloor>1 / b\<rfloor> else 0)"

lemma floor_div_less: "x \<ge> (1024 :: rat) \<Longrightarrow> nat \<lfloor>x / 1024\<rfloor> < nat \<lfloor>x\<rfloor>"
proof -
  assume x: "x \<ge> 1024"
  then have "\<lfloor>x / 1024\<rfloor> \<le> \<lfloor>x - 1\<rfloor>" by (intro floor_mono) simp
  then have "\<lfloor>x / 1024\<rfloor> < \<lfloor>x\<rfloor>" by simp
  moreover have "0 < \<lfloor>x\<rfloor>" using x by simp
  ultimately show ?thesis by linarith
qed

lemma log_steps_down: "b \<ge> 1024 \<Longrightarrow> log_steps (b / 1024) < log_steps b"
  using floor_div_less [of b] by (auto simp: log_steps_def)

lemma log_steps_up: "0 < b \<Longrightarrow> b < 1 \<Longrightarrow> log_steps (b * 1024) < log_steps b"
proof -
  assume b: "0 < b" "b < 1"
  have one: "0 < nat \<lfloor>1 / b\<rfloor>" using b by (simp add: field_simps)
  show ?thesis
  proof (cases "b * 1024 < 1")
    case True
    with b have "1 / b \<ge> 1024" by (simp add: field_simps)
    from floor_div_less [OF this] b True show ?thesis by (simp add: log_steps_def)
  next
    case False
    with b one show ?thesis by (simp add: log_steps_def)
  qed
qed

termination log1024
  by (relation "measure log_steps") (auto intro: log_steps_down log_steps_up)

declare log1024.simps [simp del]

text \<open>\<open>Math.pow(1024, i)\<close>\<close>

definition pow1024 :: "int \<Rightarrow> rat" where
  "pow1024 i = (if i \<ge> 0 then 1024 ^ nat i else 1 / 1024 ^ nat (- i))"

lemma pow1024_pos: "0 < pow1024 i"
  by (simp add: pow1024_def)

lemma pow1024_Suc: "pow1024 (i + 1) = 1024 * pow1024 i"
proof (cases "i \<ge> 0")
  case True
  then show ?thesis by (simp add: pow1024_def nat_add_distrib)
next
  case False
  then have "nat (- i) = Suc (nat (- (i + 1)))" by simp
  with False show ?thesis by (cases "i = -1") (auto simp: pow1024_def)
qed

lemma pow1024_mono: "i \<le> j \<Longrightarrow> pow1024 i \<le> pow1024 j"
proof -
  assume "i \<le> j"
  moreover have "pow1024 i \<le> pow1024 (i + int n)" for n
  proof (induction n)
    case (Suc n)
    have "pow1024 (i + int (Suc n)) = 1024 * pow1024 (i + int n)"
      using pow1024_Suc [of "i + int n"] by (simp add: ac_simps)
    with Suc pow1024_pos [of "i + int n"] show ?case by linarith
  qed simp
  ultimately show ?thesis by (metis zle_iff_zadd)
qed

text \<open>The loop computes the logarithm.\<close>

lemma log1024_bounds: "0 < b \<Longrightarrow> pow1024 (log1024 b) \<le> b \<and> b < pow1024 (log1024 b + 1)"
proof (induction b rule: log1024.induct)
  case (1 b)
  consider "b \<ge> 1024" | "b < 1" | "1 \<le> b" "b < 1024" by linarith
  then show ?case
  proof cases
    case 1
    define i where "i = log1024 (b / 1024)"
    from 1 have "log1024 b = i + 1" by (subst log1024.simps) (simp add: i_def)
    moreover from "1.IH"(1) 1 have "pow1024 i \<le> b / 1024 \<and> b / 1024 < pow1024 (i + 1)"
      by (simp add: i_def)
    ultimately show ?thesis
      using pow1024_Suc [of i] pow1024_Suc [of "i + 1"] by (simp add: field_simps)
  next
    case 2
    define i where "i = log1024 (b * 1024)"
    from 2 "1.prems" have "log1024 b = i - 1" by (subst log1024.simps) (simp add: i_def)
    moreover from "1.IH"(2) 2 "1.prems" have "pow1024 i \<le> b * 1024 \<and> b * 1024 < pow1024 (i + 1)"
      by (simp add: i_def)
    moreover have "pow1024 i = 1024 * pow1024 (i - 1)" using pow1024_Suc [of "i - 1"] by simp
    ultimately show ?thesis by (simp add: pow1024_Suc)
  next
    case 3
    then have "log1024 b = 0" by (subst log1024.simps) simp
    with 3 show ?thesis by (simp add: pow1024_def)
  qed
qed

lemma log1024_unique:
  assumes "0 < b" "pow1024 i \<le> b" "b < pow1024 (i + 1)"
  shows "log1024 b = i"
proof (rule ccontr)
  assume "log1024 b \<noteq> i"
  then consider "log1024 b + 1 \<le> i" | "i + 1 \<le> log1024 b" by linarith
  then show False
    using log1024_bounds [OF assms(1)] assms(2, 3) pow1024_mono
    by cases (meson dual_order.strict_trans1 not_le order_trans)+
qed

definition sizes :: "string list" where
  "sizes = [''B'', ''KB'', ''MB'', ''GB'', ''TB'']"

text \<open>\<open>sizes[i]\<close> in a template: outside of the list it prints \<open>undefined\<close>.\<close>

definition size_name :: "int \<Rightarrow> string" where
  "size_name i = (if 0 \<le> i \<and> nat i < length sizes then sizes ! nat i else ''undefined'')"

text \<open>The logarithm of a negative number is \<open>NaN\<close>.\<close>

definition formatBytes :: "rat \<Rightarrow> string" where
  "formatBytes bytes =
     (if bytes = 0 then ''0 B''
      else if bytes < 0 then ''NaN undefined''
      else let i = log1024 bytes in toFixed2 (bytes / pow1024 i) @ '' '' @ size_name i)"

section \<open>Latencies\<close>

definition MICRO :: string where
  "MICRO = [char_of (181 :: nat), CHR ''s'']"

definition formatLatency :: "rat \<Rightarrow> string" where
  "formatLatency seconds =
     (if seconds = 0 then ''N/A''
      else let ms = seconds * 1000 in
        if ms < 1 then toFixed2 (ms * 1000) @ MICRO
        else if ms < 1000 then toFixed2 ms @ ''ms''
        else toFixed2 (ms / 1000) @ ''s'')"

section \<open>Times\<close>

text \<open>
  What the browser knows of dates: the time now and the time \<open>new Date(v).getTime()\<close> of a
  value, in milliseconds (\<open>None\<close> is an invalid date), and the two formats of the locale.
\<close>

record clock =
  clk_now :: int
  clk_time :: "jsv \<Rightarrow> int option"
  clk_date :: "int \<Rightarrow> string"
  clk_datetime :: "int \<Rightarrow> string"

definition zero_time :: string where
  "zero_time = ''0001-01-01T00:00:00Z''"

definition formatTimestamp :: "clock \<Rightarrow> jsv \<Rightarrow> string" where
  "formatTimestamp clk timestamp =
     (if \<not> truthy timestamp \<or> timestamp = JStr zero_time then ''Never''
      else case clk_time clk timestamp of
        None \<Rightarrow> ''Invalid Date''
      | Some t \<Rightarrow>
          let diff = clk_now clk - t; days = diff div (1000 * 60 * 60 * 24) in
          if days = 0 then
            (let hours = diff div (1000 * 60 * 60) in
             if hours = 0 then
               (let minutes = diff div (1000 * 60) in show_int minutes @ ''m ago'')
             else show_int hours @ ''h ago'')
          else if days < 7 then show_int days @ ''d ago''
          else clk_date clk t)"

definition formatTimestampLocal :: "clock \<Rightarrow> jsv \<Rightarrow> string" where
  "formatTimestampLocal clk timestamp =
     (if \<not> truthy timestamp \<or> timestamp = JStr zero_time then ''Never''
      else case clk_time clk timestamp of
        None \<Rightarrow> ''Invalid Date''
      | Some t \<Rightarrow> clk_datetime clk t)"

section \<open>What the helpers print\<close>

text \<open>A size of the table is printed in its own unit.\<close>

lemma formatBytes_unit:
  assumes "i < 5" "1024 ^ i \<le> b" "b < 1024 ^ Suc i"
  shows "formatBytes b = toFixed2 (b / 1024 ^ i) @ '' '' @ sizes ! i"
proof -
  have pos: "0 < b" using assms(2) by (meson less_le_trans zero_less_numeral zero_less_power)
  have "log1024 b = int i"
    using assms pos by (intro log1024_unique) (simp_all add: pow1024_def nat_add_distrib)
  with pos assms(1) show ?thesis
    by (simp add: formatBytes_def size_name_def pow1024_def sizes_def)
qed

lemma unit_exists: "1 \<le> b \<Longrightarrow> b < 1024 ^ n \<Longrightarrow> \<exists>i < n. 1024 ^ i \<le> b \<and> b < (1024 :: rat) ^ Suc i"
proof (induction n)
  case (Suc n)
  then show ?case by (cases "b < 1024 ^ n") (auto intro: less_SucI)
qed simp

text \<open>
  A size of at least one byte and below 1024 TB is printed with two decimals in the
  unit that makes the number at least 1 and below 1024, off by half a hundredth at most.\<close>

lemma formatBytes_bounds:
  assumes "1 \<le> b" "b < 1024 ^ 5"
  shows "\<exists>i h. i < 5 \<and>
    formatBytes b = show_nat (h div 100) @ ''.'' @ two_digits (h mod 100) @ '' '' @ sizes ! i \<and>
    1024 ^ i \<le> b \<and> b < 1024 ^ Suc i \<and> \<bar>of_nat h / 100 - b / 1024 ^ i\<bar> \<le> 1 / 200"
proof -
  obtain i where i: "i < 5" "1024 ^ i \<le> b" "b < 1024 ^ Suc i"
    using unit_exists [OF assms] by blast
  have "\<bar>of_nat (hundredths (b / 1024 ^ i)) / 100 - b / 1024 ^ i\<bar> \<le> 1 / 200"
    using hundredths_close [of "b / 1024 ^ i"] assms(1) by simp
  moreover have "\<not> b / 1024 ^ i < 0" using assms(1) by (simp add: field_simps)
  ultimately show ?thesis
    using formatBytes_unit [OF i] i by (auto simp: toFixed2_def)
qed

lemma formatBytes_bounds_example:
  "formatBytes 1536 = ''1.50 KB'' \<and>
   (\<exists>i h. i < 5 \<and>
    formatBytes 1536 = show_nat (h div 100) @ ''.'' @ two_digits (h mod 100) @ '' '' @ sizes ! i \<and>
    1024 ^ i \<le> (1536 :: rat) \<and> (1536 :: rat) < 1024 ^ Suc i \<and>
    \<bar>of_nat h / 100 - (1536 :: rat) / 1024 ^ i\<bar> \<le> 1 / 200)"
proof
  have "\<lfloor>301 / 2 :: rat\<rfloor> = 150" by (rule floor_unique) simp_all
  then have h: "hundredths (3 / 2) = 150" by (simp add: hundredths_def)
  have "formatBytes 1536 = toFixed2 (3 / 2) @ '' '' @ sizes ! 1"
    using formatBytes_unit [of 1 1536] by simp
  moreover have "show_nat 1 = ''1''" "two_digits 50 = ''50''" by code_simp+
  ultimately show "formatBytes 1536 = ''1.50 KB''"
    by (simp add: toFixed2_def h sizes_def)
qed (rule formatBytes_bounds; simp)

text \<open>From 1024 TB on there is no unit.\<close>

lemma formatBytes_overflow:
  assumes "b \<ge> 1024 ^ 5"
  shows "\<exists>x. formatBytes b = x @ '' undefined''"
proof -
  have pos: "0 < b" using assms by simp
  have "5 \<le> log1024 b"
  proof (rule ccontr)
    assume "\<not> 5 \<le> log1024 b"
    then have "pow1024 (log1024 b + 1) \<le> pow1024 5" by (intro pow1024_mono) simp
    with log1024_bounds [OF pos] assms show False by (simp add: pow1024_def)
  qed
  with pos show ?thesis by (auto simp: formatBytes_def size_name_def sizes_def Let_def)
qed

text \<open>
  A time of the past week is printed as whole minutes, hours or days that passed, rounded
  down; a time in the future, as a key expiry is, is printed as a negative number of days ago.\<close>

lemma formatTimestamp_relative:
  assumes "truthy ts" "ts \<noteq> JStr zero_time" "clk_time clk ts = Some t"
    and "clk_now clk - t < 7 * 86400000"
  shows "if clk_now clk < t
    then \<exists>n \<ge> 1. formatTimestamp clk ts = ''-'' @ show_nat n @ ''d ago''
          \<and> 86400000 * (int n - 1) < t - clk_now clk \<and> t - clk_now clk \<le> 86400000 * int n
    else \<exists>n u s. (u, s) \<in> {(60000, ''m ago''), (3600000, ''h ago''), (86400000, ''d ago'')}
          \<and> formatTimestamp clk ts = show_nat n @ s
          \<and> u * int n \<le> clk_now clk - t \<and> clk_now clk - t < u * (int n + 1)"
proof (cases "clk_now clk < t")
  case True
  define d where "d = (clk_now clk - t) div 86400000"
  have d: "d < 0" "86400000 * d \<le> clk_now clk - t" "clk_now clk - t < 86400000 * (d + 1)"
    using True by (auto simp: d_def)
  obtain n where n: "d = - int n" "1 \<le> n"
    using d(1) by (cases d rule: int_cases2) auto
  have "formatTimestamp clk ts = ''-'' @ show_nat n @ ''d ago''"
    using assms d(1) n by (simp add: formatTimestamp_def d_def [symmetric] Let_def show_int_def)
  moreover have "86400000 * (int n - 1) < t - clk_now clk" "t - clk_now clk \<le> 86400000 * int n"
    using d n by simp_all
  ultimately show ?thesis using n(2) unfolding if_P [OF True] by blast
next
  case False
  define r where "r = clk_now clk - t"
  have r: "0 \<le> r" "r < 7 * 86400000" using False assms(4) by (auto simp: r_def)
  have div_bounds: "u * (r div u) \<le> r \<and> r < u * (r div u + 1)" if "0 < u" for u
    using pos_mod_sign [OF that, of r] pos_mod_bound [OF that, of r] mult_div_mod_eq [of u r]
    by (simp only: distrib_left) linarith
  have shows_unit: ?thesis
    if "formatTimestamp clk ts = show_int (r div u) @ s"
      "(u, s) \<in> {(60000, ''m ago''), (3600000, ''h ago''), (86400000, ''d ago'')}" for u s
  proof -
    have u: "0 < u" using that(2) by auto
    then have "0 \<le> r div u" using r by (simp add: pos_imp_zdiv_nonneg_iff)
    then obtain n where n: "r div u = int n" by (metis nonneg_int_cases)
    have "formatTimestamp clk ts = show_nat n @ s" using that(1) by (simp add: n show_int_def)
    moreover have "u * int n \<le> clk_now clk - t" "clk_now clk - t < u * (int n + 1)"
      using div_bounds [OF u] by (simp_all only: n r_def [symmetric])
    ultimately show ?thesis unfolding if_not_P [OF False] using that(2) by (intro exI conjI)
  qed
  have week: "r div 86400000 < 7" using div_bounds [of 86400000] r by linarith
  have days: "formatTimestamp clk ts =
      (if r div 86400000 = 0
       then if r div 3600000 = 0 then show_int (r div 60000) @ ''m ago''
            else show_int (r div 3600000) @ ''h ago''
       else show_int (r div 86400000) @ ''d ago'')"
    using assms(1-3) week by (simp add: formatTimestamp_def r_def)
  consider "r div 86400000 \<noteq> 0" | "r div 86400000 = 0" "r div 3600000 \<noteq> 0"
    | "r div 86400000 = 0" "r div 3600000 = 0" by blast
  then show ?thesis
  proof cases
    case 1
    then show ?thesis by (intro shows_unit [of 86400000 "''d ago''"]) (simp_all add: days)
  next
    case 2
    then show ?thesis by (intro shows_unit [of 3600000 "''h ago''"]) (simp_all add: days)
  next
    case 3
    then show ?thesis by (intro shows_unit [of 60000 "''m ago''"]) (simp_all add: days)
  qed
qed

lemma formatTimestamp_relative_example:
  "\<exists>n \<ge> 1. formatTimestamp \<lparr>clk_now = 0, clk_time = (\<lambda>_. Some 90000000), clk_date = (\<lambda>_. []),
       clk_datetime = (\<lambda>_. [])\<rparr> (JStr ''x'') = ''-'' @ show_nat n @ ''d ago''"
  using formatTimestamp_relative [of "JStr ''x''" "\<lparr>clk_now = 0, clk_time = (\<lambda>_. Some 90000000),
    clk_date = (\<lambda>_. []), clk_datetime = (\<lambda>_. [])\<rparr>" 90000000]
  by (auto simp: zero_time_def)

end
