(* ===== verification/Highlight.thy ===== *)
theory Highlight
  imports JsValue
begin

text \<open>
  The two syntax highlighters of \<open>components/UIComponents.tsx\<close>. Each turns a text into HTML
  that is handed to \<open>dangerouslySetInnerHTML\<close>. The regular expressions they use are written out
  as functions; where one could match a text in more than one way the comment says why it
  cannot. A highlighter is a cutting of the escaped text into marked pieces (\<open>marked_text\<close>).
\<close>

section \<open>Escaping\<close>

fun js_replace :: "char \<Rightarrow> string \<Rightarrow> string \<Rightarrow> string" where
  "js_replace c new [] = []"
| "js_replace c new (x # xs) = (if x = c then new else [x]) @ js_replace c new xs"

text \<open>\<open>replace(/&/g, '&amp;').replace(/</g, '&lt;').replace(/>/g, '&gt;')\<close>\<close>

definition html_escape :: "string \<Rightarrow> string" where
  "html_escape s =
     js_replace (CHR ''>'') ''&gt;'' (js_replace (CHR ''<'') ''&lt;''
       (js_replace (CHR ''&'') ''&amp;'' s))"

text \<open>How a browser reads a text without tags back.\<close>

fun html_unescape :: "string \<Rightarrow> string" where
  "html_unescape [] = []"
| "html_unescape (c # s) =
     (if c = CHR ''&'' \<and> take 4 s = ''amp;'' then CHR ''&'' # html_unescape (drop 4 s)
      else if c = CHR ''&'' \<and> take 3 s = ''lt;'' then CHR ''<'' # html_unescape (drop 3 s)
      else if c = CHR ''&'' \<and> take 3 s = ''gt;'' then CHR ''>'' # html_unescape (drop 3 s)
      else c # html_unescape s)"

lemma js_replace_append: "js_replace c new (s @ t) = js_replace c new s @ js_replace c new t"
  by (induction s) auto

lemma html_escape_Nil: "html_escape [] = []"
  by (simp add: html_escape_def)

lemma html_escape_Cons:
  "html_escape (c # s) =
     (if c = CHR ''&'' then ''&amp;'' else if c = CHR ''<'' then ''&lt;''
      else if c = CHR ''>'' then ''&gt;'' else [c]) @ html_escape s"
  by (simp add: html_escape_def js_replace_append)

lemma html_unescape_escape: "html_unescape (html_escape s) = s"
  by (induction s) (auto simp: html_escape_Nil html_escape_Cons)

lemma html_escape_no_tags: "c \<in> set (html_escape s) \<Longrightarrow> c \<noteq> CHR ''<'' \<and> c \<noteq> CHR ''>''"
  by (induction s) (auto simp: html_escape_Nil html_escape_Cons split: if_splits)

section \<open>Marked text\<close>

text \<open>A piece of text, as it is or in a span with a class.\<close>

datatype piece = Plain string | Marked string string

fun piece_text :: "piece \<Rightarrow> string" where
  "piece_text (Plain t) = t"
| "piece_text (Marked cls t) = t"

fun piece_class :: "piece \<Rightarrow> string set" where
  "piece_class (Plain t) = {}"
| "piece_class (Marked cls t) = {cls}"

definition open_tag :: "string \<Rightarrow> string" where
  "open_tag cls = ''<span class='' @ [CHR 0x22] @ cls @ [CHR 0x22, CHR ''>'']"

definition close_tag :: string where
  "close_tag = ''</span>''"

fun piece_html :: "piece \<Rightarrow> string" where
  "piece_html (Plain t) = t"
| "piece_html (Marked cls t) = open_tag cls @ t @ close_tag"

definition pieces_html :: "piece list \<Rightarrow> string" where
  "pieces_html ps = concat (map piece_html ps)"

definition pieces_text :: "piece list \<Rightarrow> string" where
  "pieces_text ps = concat (map piece_text ps)"

text \<open>
  The reading of HTML: the text outside of the tags, and the tags. An unclosed tag runs to
  the end.
\<close>

fun split_tags :: "string \<Rightarrow> string \<times> string list" where
  "split_tags [] = ([], [])"
| "split_tags (c # s) =
     (if c = CHR ''<'' then
        (let tag = takeWhile (\<lambda>x. x \<noteq> CHR ''>'') s;
             rest = split_tags (drop (Suc (length tag)) s) in (fst rest, tag # snd rest))
      else (let rest = split_tags s in (c # fst rest, snd rest)))"

definition shown_text :: "string \<Rightarrow> string" where
  "shown_text h = html_unescape (fst (split_tags h))"

lemma split_tags_plain:
  "CHR ''<'' \<notin> set t \<Longrightarrow> split_tags (t @ s) = (t @ fst (split_tags s), snd (split_tags s))"
  by (induction t) (auto simp: Let_def)

lemma takeWhile_upto: "c \<notin> set t \<Longrightarrow> takeWhile (\<lambda>x. x \<noteq> c) (t @ c # s) = t"
  by (induction t) auto

lemma split_tags_tag:
  assumes "CHR ''>'' \<notin> set t"
  shows "split_tags (CHR ''<'' # t @ CHR ''>'' # s) = (fst (split_tags s), t # snd (split_tags s))"
  by (simp add: takeWhile_upto [OF assms] Let_def)

definition span_tag :: "string \<Rightarrow> string" where
  "span_tag cls = ''span class='' @ [CHR 0x22] @ cls @ [CHR 0x22]"

fun piece_tags :: "piece \<Rightarrow> string list" where
  "piece_tags (Plain t) = []"
| "piece_tags (Marked cls t) = [span_tag cls, ''/span'']"

text \<open>
  The contract of a highlighter: it cuts its input into pieces, and its classes are those
  of a fixed palette without an angle bracket.
\<close>

locale marked_text =
  fixes marks :: "string \<Rightarrow> piece list"
    and palette :: "string set"
  assumes marks_text: "pieces_text (marks s) = s"
    and marks_palette: "p \<in> set (marks s) \<Longrightarrow> piece_class p \<subseteq> palette"
    and palette_ok: "cls \<in> palette \<Longrightarrow> CHR ''>'' \<notin> set cls"
begin

lemma split_pieces:
  "\<forall>p \<in> set ps. piece_class p \<subseteq> palette \<and> CHR ''<'' \<notin> set (piece_text p) \<Longrightarrow>
   split_tags (pieces_html ps) = (pieces_text ps, concat (map piece_tags ps))"
proof (induction ps)
  case Nil
  then show ?case by (simp add: pieces_html_def pieces_text_def)
next
  case (Cons p ps)
  have IH: "split_tags (pieces_html ps) = (pieces_text ps, concat (map piece_tags ps))"
    using Cons by simp
  show ?case
  proof (cases p)
    case (Plain t)
    with Cons.prems IH show ?thesis
      by (simp add: pieces_html_def pieces_text_def split_tags_plain)
  next
    case (Marked cls t)
    with Cons.prems have cls: "CHR ''>'' \<notin> set (span_tag cls)" and t: "CHR ''<'' \<notin> set t"
      using palette_ok by (auto simp: span_tag_def)
    define rest where "rest = t @ CHR ''<'' # ''/span'' @ CHR ''>'' # pieces_html ps"
    have html: "pieces_html (p # ps) = CHR ''<'' # span_tag cls @ CHR ''>'' # rest"
      by (simp add: Marked pieces_html_def open_tag_def close_tag_def span_tag_def rest_def)
    have "split_tags rest = (t @ pieces_text ps, ''/span'' # concat (map piece_tags ps))"
      using split_tags_tag [of "''/span''" "pieces_html ps"]
      by (simp add: rest_def split_tags_plain [OF t] IH del: split_tags.simps)
    then show ?thesis
      by (simp only: html split_tags_tag [OF cls]) (simp add: Marked pieces_text_def)
  qed
qed

text \<open>What is shown is the text; the tags are spans of the palette.\<close>

lemma highlight_split:
  "split_tags (pieces_html (marks (html_escape s))) =
     (html_escape s, concat (map piece_tags (marks (html_escape s))))"
proof -
  let ?ps = "marks (html_escape s)"
  have "CHR ''<'' \<notin> set (piece_text p)" if "p \<in> set ?ps" for p
  proof
    assume "CHR ''<'' \<in> set (piece_text p)"
    with that have "CHR ''<'' \<in> set (pieces_text ?ps)" by (auto simp: pieces_text_def)
    then show False using html_escape_no_tags [of "CHR ''<''" s] by (simp add: marks_text)
  qed
  then show ?thesis using split_pieces [of ?ps] marks_palette by (simp add: marks_text)
qed

lemma highlight_shows: "shown_text (pieces_html (marks (html_escape s))) = s"
  by (simp add: shown_text_def highlight_split html_unescape_escape)

lemma highlight_tags:
  "t \<in> set (snd (split_tags (pieces_html (marks (html_escape s))))) \<Longrightarrow>
   t = ''/span'' \<or> t \<in> span_tag ` palette"
proof -
  assume "t \<in> set (snd (split_tags (pieces_html (marks (html_escape s)))))"
  then obtain p where p: "p \<in> set (marks (html_escape s))" "t \<in> set (piece_tags p)"
    by (auto simp: highlight_split)
  from marks_palette [OF p(1)] p(2) show ?thesis by (cases p) auto
qed

end

section \<open>JSON\<close>

definition DQ :: char where "DQ = CHR 0x22"
definition BSL :: char where "BSL = CHR 0x5C"

definition js_alnum :: "char \<Rightarrow> bool" where
  "js_alnum c \<longleftrightarrow>
     (let n = code_of c in
      (48 \<le> n \<and> n \<le> 57) \<or> (65 \<le> n \<and> n \<le> 90) \<or> (97 \<le> n \<and> n \<le> 122))"

definition word_char :: "char \<Rightarrow> bool" where
  "word_char c \<longleftrightarrow> js_alnum c \<or> c = CHR ''_''"

text \<open>
  The rest of a string literal after its opening quote, up to the closing one: an escape is
  four letters or digits after \<open>\u\<close>, or a backslash and any character but \<open>u\<close>. At most one
  of the three alternatives applies to a character, and none to a bare quote.
\<close>

fun scan_string :: "string \<Rightarrow> string option" where
  "scan_string [] = None"
| "scan_string (c # s) =
     (if c = DQ then Some [c]
      else if c = BSL then
        (case s of
           [] \<Rightarrow> None
         | d # r \<Rightarrow>
             if d \<noteq> CHR ''u'' then map_option (\<lambda>m. c # d # m) (scan_string r)
             else if length r \<ge> 4 \<and> list_all js_alnum (take 4 r)
             then map_option (\<lambda>m. c # d # take 4 r @ m) (scan_string (drop 4 r))
             else None)
      else map_option ((#) c) (scan_string s))"

text \<open>\<open>(\s*:)?\<close> after a string\<close>

definition scan_colon :: "string \<Rightarrow> string" where
  "scan_colon s =
     (let ws = takeWhile js_space s in
      case drop (length ws) s of c # r \<Rightarrow> if c = CHR '':'' then ws @ [c] else [] | [] \<Rightarrow> [])"

definition match_string :: "string \<Rightarrow> string option" where
  "match_string s =
     (case s of
        [] \<Rightarrow> None
      | c # r \<Rightarrow>
          if c = DQ
          then map_option (\<lambda>m. c # m @ scan_colon (drop (length m) r)) (scan_string r)
          else None)"

text \<open>\<open>\b(true|false|null)\b\<close>, with the character before the place\<close>

definition match_keyword :: "char option \<Rightarrow> string \<Rightarrow> string option" where
  "match_keyword before s =
     (if (case before of None \<Rightarrow> True | Some c \<Rightarrow> \<not> word_char c)
      then find (\<lambda>k. take (length k) s = k
              \<and> (case drop (length k) s of [] \<Rightarrow> True | c # r \<Rightarrow> \<not> word_char c))
             [''true'', ''false'', ''null'']
      else None)"

text \<open>\<open>-?\d+(?:\.\d*)?(?:[eE][+\-]?\d+)?\<close>\<close>

definition scan_fraction :: "string \<Rightarrow> string" where
  "scan_fraction s =
     (case s of c # r \<Rightarrow> if c = CHR ''.'' then c # takeWhile js_digit r else [] | [] \<Rightarrow> [])"

definition scan_exponent :: "string \<Rightarrow> string" where
  "scan_exponent s =
     (case s of
        [] \<Rightarrow> []
      | c # r \<Rightarrow>
          if c = CHR ''e'' \<or> c = CHR ''E''
          then (let sg = (case r of d # _ \<Rightarrow> if d = CHR ''+'' \<or> d = CHR ''-'' then [d] else [] | [] \<Rightarrow> []);
                    ds = takeWhile js_digit (drop (length sg) r)
                in if ds = [] then [] else c # sg @ ds)
          else [])"

definition match_number :: "string \<Rightarrow> string option" where
  "match_number s =
     (let sg = (case s of d # _ \<Rightarrow> if d = CHR ''-'' then [d] else [] | [] \<Rightarrow> []);
          ds = takeWhile js_digit (drop (length sg) s)
      in if ds = [] then None
         else (let a = sg @ ds;
                   fr = scan_fraction (drop (length a) s);
                   ex = scan_exponent (drop (length (a @ fr)) s)
               in Some (a @ fr @ ex)))"

definition json_match :: "char option \<Rightarrow> string \<Rightarrow> string option" where
  "json_match before s =
     (case match_string s of
        Some m \<Rightarrow> Some m
      | None \<Rightarrow>
          (case match_keyword before s of Some m \<Rightarrow> Some m | None \<Rightarrow> match_number s))"

text \<open>The replacement of a match\<close>

definition json_mark :: "string \<Rightarrow> piece list" where
  "json_mark m =
     (if take 1 m = [DQ] then
        (if last m = CHR '':''
         then [Marked ''text-cyan-400'' (butlast m), Marked ''text-gray-300'' '':'']
         else [Marked ''text-green-400'' m])
      else if js_includes m ''true'' \<or> js_includes m ''false'' then [Marked ''text-yellow-400'' m]
      else if js_includes m ''null'' then [Marked ''text-purple-400'' m]
      else [Marked ''text-blue-400'' m])"

lemma prefix_take_append: "prefix m (drop n s) \<Longrightarrow> prefix (take n s @ m) s"
  by (metis append_take_drop_id same_prefix_prefix)

lemma takeWhile_prefix: "prefix (takeWhile P s) s"
  by (metis prefixI takeWhile_dropWhile_id)

lemma takeWhile_split: "s = takeWhile P s @ drop (length (takeWhile P s)) s"
  by (metis takeWhile_eq_take append_take_drop_id)

lemma prefix_extend: "prefix a s \<Longrightarrow> prefix m (drop (length a) s) \<Longrightarrow> prefix (a @ m) s"
  by (auto elim: prefixE)

lemma scan_string_prefix: "scan_string s = Some m \<Longrightarrow> m \<noteq> [] \<and> prefix m s"
proof (induction s arbitrary: m rule: scan_string.induct)
  case (2 c s)
  show ?case
  proof (cases "c = DQ")
    case True
    with "2.prems" show ?thesis by auto
  next
    case nq: False
    show ?thesis
    proof (cases "c = BSL")
      case False
      with nq "2.prems" obtain n where "scan_string s = Some n" "m = c # n" by auto
      with "2.IH"(3) [OF nq False] show ?thesis by simp
    next
      case bs: True
      with nq "2.prems" obtain d r where s: "s = d # r" by (cases s) auto
      show ?thesis
      proof (cases "d = CHR ''u''")
        case False
        with bs nq s "2.prems" obtain n where "scan_string r = Some n" "m = c # d # n" by auto
        with "2.IH"(1) [OF nq bs s False] show ?thesis by (simp add: s)
      next
        case True
        with bs nq s "2.prems" have l: "length r \<ge> 4 \<and> list_all js_alnum (take 4 r)"
          by (auto split: if_splits)
        with True bs nq s "2.prems" obtain n where
          "scan_string (drop 4 r) = Some n" "m = c # d # take 4 r @ n" by auto
        with "2.IH"(2) [OF nq bs s _ l] True show ?thesis by (simp add: s prefix_take_append)
      qed
    qed
  qed
qed simp

lemma scan_colon_prefix: "prefix (scan_colon s) s"
proof -
  let ?ws = "takeWhile js_space s"
  show ?thesis
  proof (cases "drop (length ?ws) s")
    case (Cons c r)
    have "prefix (?ws @ [c]) s"
      using prefix_extend [OF takeWhile_prefix, of "[c]" js_space s] by (simp add: Cons)
    then show ?thesis by (auto simp: scan_colon_def Let_def Cons)
  qed (simp add: scan_colon_def)
qed

lemma match_string_prefix: "match_string s = Some m \<Longrightarrow> m \<noteq> [] \<and> prefix m s"
proof (cases s)
  case (Cons c r)
  moreover assume "match_string s = Some m"
  ultimately obtain n where n: "scan_string r = Some n" "m = c # n @ scan_colon (drop (length n) r)"
    by (auto simp: match_string_def split: if_splits)
  with scan_string_prefix [OF n(1)] show ?thesis
    by (auto simp: Cons intro: prefix_extend scan_colon_prefix)
qed (simp add: match_string_def)

lemma match_keyword_prefix: "match_keyword before s = Some m \<Longrightarrow> m \<noteq> [] \<and> prefix m s"
  by (auto simp: match_keyword_def take_is_prefix split: if_splits dest!: sym [of "take _ _"])

lemma scan_fraction_prefix: "prefix (scan_fraction s) s"
  by (cases s) (auto simp: scan_fraction_def intro: takeWhile_prefix)

lemma scan_exponent_prefix: "prefix (scan_exponent s) s"
proof (cases s)
  case (Cons c r)
  let ?sg = "case r of d # _ \<Rightarrow> if d = CHR ''+'' \<or> d = CHR ''-'' then [d] else [] | [] \<Rightarrow> []"
  have "prefix ?sg r" by (cases r) auto
  then have "prefix (?sg @ takeWhile js_digit (drop (length ?sg) r)) r"
    by (rule prefix_extend [OF _ takeWhile_prefix])
  then show ?thesis by (simp add: scan_exponent_def Cons Let_def)
qed (simp add: scan_exponent_def)

lemma match_number_prefix: "match_number s = Some m \<Longrightarrow> m \<noteq> [] \<and> prefix m s"
proof -
  assume m: "match_number s = Some m"
  define sg where "sg = (case s of d # _ \<Rightarrow> if d = CHR ''-'' then [d] else [] | [] \<Rightarrow> [])"
  define ds where "ds = takeWhile js_digit (drop (length sg) s)"
  define fr where "fr = scan_fraction (drop (length (sg @ ds)) s)"
  define ex where "ex = scan_exponent (drop (length ((sg @ ds) @ fr)) s)"
  have "ds \<noteq> [] \<and> m = ((sg @ ds) @ fr) @ ex"
    using m unfolding match_number_def Let_def sg_def [symmetric] ds_def [symmetric]
      fr_def [symmetric] ex_def [symmetric] by (auto split: if_splits)
  moreover have "prefix sg s" by (cases s) (simp_all add: sg_def)
  then have "prefix (sg @ ds) s" unfolding ds_def by (rule prefix_extend [OF _ takeWhile_prefix])
  then have "prefix ((sg @ ds) @ fr) s" unfolding fr_def by (rule prefix_extend [OF _ scan_fraction_prefix])
  then have "prefix (((sg @ ds) @ fr) @ ex) s"
    unfolding ex_def by (rule prefix_extend [OF _ scan_exponent_prefix])
  ultimately show ?thesis by auto
qed

lemma json_match_prefix: "json_match before s = Some m \<Longrightarrow> m \<noteq> [] \<and> prefix m s"
  unfolding json_match_def
  by (auto split: option.splits
      dest: match_string_prefix match_keyword_prefix match_number_prefix)

text \<open>
  The global replacement: at every place a match is marked and skipped, another character
  is kept. It ends because no match is empty.
\<close>

function json_marks_from :: "char option \<Rightarrow> string \<Rightarrow> piece list" where
  "json_marks_from before s =
     (case s of
        [] \<Rightarrow> []
      | c # r \<Rightarrow>
          (case json_match before s of
             Some m \<Rightarrow> json_mark m @ json_marks_from (Some (last m)) (drop (length m) s)
           | None \<Rightarrow> Plain [c] # json_marks_from (Some c) r))"
  by pat_completeness auto

termination json_marks_from
  by (relation "measure (\<lambda>(before, s). length s)") (auto dest!: json_match_prefix)

declare json_marks_from.simps [simp del]

definition json_marks :: "string \<Rightarrow> piece list" where
  "json_marks s = json_marks_from None s"

definition syntaxHighlight :: "string \<Rightarrow> string" where
  "syntaxHighlight json = pieces_html (json_marks (html_escape json))"

definition json_palette :: "string set" where
  "json_palette =
     {''text-cyan-400'', ''text-gray-300'', ''text-green-400'', ''text-yellow-400'',
      ''text-purple-400'', ''text-blue-400''}"

lemma json_mark_text: "m \<noteq> [] \<Longrightarrow> pieces_text (json_mark m) = m"
  by (cases m rule: rev_cases) (auto simp: json_mark_def pieces_text_def)

lemma pieces_text_append: "pieces_text (ps @ qs) = pieces_text ps @ pieces_text qs"
  by (simp add: pieces_text_def)

lemma json_marks_from_text: "pieces_text (json_marks_from before s) = s"
proof (induction before s rule: json_marks_from.induct)
  case (1 before s)
  show ?case
  proof (cases s)
    case Nil
    then show ?thesis by (subst json_marks_from.simps) (simp add: pieces_text_def)
  next
    case (Cons c r)
    show ?thesis
    proof (cases "json_match before s")
      case None
      from 1(1) [OF Cons None] Cons None show ?thesis
        by (subst json_marks_from.simps) (simp add: pieces_text_def)
    next
      case (Some m)
      from json_match_prefix [OF Some] have m: "m \<noteq> []" "m @ drop (length m) s = s"
        by (auto elim: prefixE)
      have "json_marks_from before s = json_mark m @ json_marks_from (Some (last m)) (drop (length m) s)"
        using Cons Some by (subst json_marks_from.simps) simp
      with 1(2) [OF Cons Some] m show ?thesis by (simp add: pieces_text_append json_mark_text)
    qed
  qed
qed

lemma json_mark_palette: "p \<in> set (json_mark m) \<Longrightarrow> piece_class p \<subseteq> json_palette"
  by (auto simp: json_mark_def json_palette_def split: if_splits)

lemma json_marks_from_palette:
  "p \<in> set (json_marks_from before s) \<Longrightarrow> piece_class p \<subseteq> json_palette"
proof (induction before s rule: json_marks_from.induct)
  case (1 before s)
  show ?case
  proof (cases s)
    case Nil
    with "1.prems" show ?thesis by (subst (asm) json_marks_from.simps) simp
  next
    case (Cons c r)
    show ?thesis
    proof (cases "json_match before s")
      case None
      from "1.prems" Cons None have "p = Plain [c] \<or> p \<in> set (json_marks_from (Some c) r)"
        by (subst (asm) json_marks_from.simps) simp
      with "1.IH"(1) [OF Cons None] show ?thesis by auto
    next
      case (Some m)
      from "1.prems" Cons Some
      have "p \<in> set (json_mark m) \<or> p \<in> set (json_marks_from (Some (last m)) (drop (length m) s))"
        by (subst (asm) json_marks_from.simps) simp
      with "1.IH"(2) [OF Cons Some] json_mark_palette show ?thesis by blast
    qed
  qed
qed

interpretation json: marked_text json_marks json_palette
  by unfold_locales
    (simp add: json_marks_def json_marks_from_text,
     metis json_marks_def json_marks_from_palette, auto simp: json_palette_def)

section \<open>Go stack traces\<close>

definition path_char :: "char \<Rightarrow> bool" where
  "path_char c \<longleftrightarrow> word_char c \<or> c = CHR ''.'' \<or> c = CHR ''/''"

text \<open>
  \<open>[a-zA-Z0-9_./]+\.[a-zA-Z0-9_]+\<close> on a whole string: the last dot separates the package path
  and the name, because the name has none.
\<close>

definition split_name :: "string \<Rightarrow> (string \<times> string) option" where
  "split_name r =
     (let name = rev (takeWhile (\<lambda>c. c \<noteq> CHR ''.'') (rev r));
          path = take (length r - length name - 1) r
      in if length name < length r \<and> path \<noteq> [] \<and> list_all path_char path
            \<and> name \<noteq> [] \<and> list_all word_char name
         then Some (path, name) else None)"

lemma split_name_text: "split_name r = Some (path, name) \<Longrightarrow> path @ ''.'' @ name = r"
proof -
  assume s: "split_name r = Some (path, name)"
  define w where "w = takeWhile (\<lambda>c. c \<noteq> CHR ''.'') (rev r)"
  from s have n: "name = rev w" and l: "length w < length r"
    and p: "path = take (length r - length w - 1) r"
    by (auto simp: split_name_def Let_def w_def split: if_splits)
  have "dropWhile (\<lambda>c. c \<noteq> CHR ''.'') (rev r) = drop (length w) (rev r)"
    by (simp only: w_def dropWhile_eq_drop)
  moreover obtain c u where u: "drop (length w) (rev r) = c # u"
    using l by (cases "drop (length w) (rev r)") auto
  ultimately have c: "c = CHR ''.''"
    using hd_dropWhile [of "\<lambda>c. c \<noteq> CHR ''.''" "rev r"] by simp
  have "rev r = w @ c # u"
    unfolding u [symmetric] w_def by (rule takeWhile_split)
  then have r: "r = rev u @ ''.'' @ rev w" unfolding c by (simp only: rev_swap) simp
  then have "path = rev u" by (simp add: p)
  with r show ?thesis by (simp only: n)
qed

text \<open>
  A function call, from the start of the line: the longest run of path characters, because a
  parenthesis follows it. \<open>.\<close> is any character but a line terminator.
\<close>

definition call_test :: "string \<Rightarrow> bool" where
  "call_test line =
     (let r = takeWhile path_char line in
      split_name r \<noteq> None \<and> take 1 (drop (length r) line) = ''('')"

definition call_line :: "string \<Rightarrow> piece list" where
  "call_line line =
     (let r = takeWhile path_char line; args = drop (length r) line in
      case split_name r of
        Some (path, name) \<Rightarrow>
          if take 1 args = ''('' \<and> length args \<ge> 2 \<and> last args = CHR '')''
             \<and> list_all (\<lambda>c. \<not> line_terminator c) args
          then [Marked ''text-gray-400'' (path @ ''.''), Marked ''text-yellow-400'' name,
                Marked ''text-gray-500'' args]
          else [Plain line]
      | None \<Rightarrow> [Plain line])"

text \<open>
  A file: a tabulator, a path without white space and colons, a line number, and an offset
  that may be missing (an empty span then).
\<close>

definition TAB :: char where "TAB = char_of (9 :: nat)"

definition hex_digit :: "char \<Rightarrow> bool" where
  "hex_digit c \<longleftrightarrow> hex_val c \<noteq> None"

definition offset_ok :: "string \<Rightarrow> bool" where
  "offset_ok s =
     (s = [] \<or>
      (let ws = takeWhile js_space s; r = drop (length ws) s in
       ws \<noteq> [] \<and> take 3 r = ''+0x'' \<and> length r > 3 \<and> list_all hex_digit (drop 3 r)))"

definition file_line :: "string \<Rightarrow> piece list" where
  "file_line line =
     (let body = drop 1 line;
          path = takeWhile (\<lambda>c. \<not> js_space c \<and> c \<noteq> CHR '':'') body;
          after = drop (length path) body;
          num = takeWhile js_digit (drop 1 after);
          off = drop (length num) (drop 1 after)
      in if path \<noteq> [] \<and> take 1 after = '':'' \<and> num \<noteq> [] \<and> offset_ok off
         then [Plain [TAB], Marked ''text-cyan-400'' path, Plain '':'', Marked ''text-blue-400'' num,
               Marked ''text-gray-500'' off]
         else [Plain line])"

definition CREATED_BY :: string where "CREATED_BY = ''created by ''"
definition IN_GOROUTINE :: string where "IN_GOROUTINE = '' in goroutine ''"

definition created_suffix :: "string \<Rightarrow> bool" where
  "created_suffix s =
     (s = [] \<or> (take (length IN_GOROUTINE) s = IN_GOROUTINE
               \<and> length s > length IN_GOROUTINE
               \<and> list_all js_digit (drop (length IN_GOROUTINE) s)))"

definition created_line :: "string \<Rightarrow> piece list" where
  "created_line line =
     (let body = drop (length CREATED_BY) line; r = takeWhile path_char body;
          suffix = drop (length r) body
      in case split_name r of
           Some (path, name) \<Rightarrow>
             if created_suffix suffix
             then [Marked ''text-purple-400'' CREATED_BY, Marked ''text-gray-400'' (path @ ''.''),
                   Marked ''text-yellow-400'' name, Marked ''text-gray-500'' suffix]
             else [Plain line]
         | None \<Rightarrow> [Plain line])"

definition line_marks :: "string \<Rightarrow> piece list" where
  "line_marks line =
     (if call_test line then call_line line
      else if take 1 line = [TAB] then file_line line
      else if take (length CREATED_BY) line = CREATED_BY then created_line line
      else [Marked ''text-gray-300'' line])"

text \<open>\<open>text.split('\n').map(\<dots>).join('\n')\<close>\<close>

definition NL :: char where "NL = char_of (10 :: nat)"

fun join_lines :: "piece list list \<Rightarrow> piece list" where
  "join_lines [] = []"
| "join_lines [l] = l"
| "join_lines (l # ls) = l @ Plain [NL] # join_lines ls"

definition stack_marks :: "string \<Rightarrow> piece list" where
  "stack_marks s = join_lines (map line_marks (js_split NL s))"

definition highlightStackTrace :: "string \<Rightarrow> string" where
  "highlightStackTrace s = pieces_html (stack_marks (html_escape s))"

definition stack_palette :: "string set" where
  "stack_palette =
     {''text-gray-400'', ''text-yellow-400'', ''text-gray-500'', ''text-cyan-400'',
      ''text-blue-400'', ''text-purple-400'', ''text-gray-300''}"

lemma call_line_text: "pieces_text (call_line line) = line"
proof -
  define r where "r = takeWhile path_char line"
  define args where "args = drop (length r) line"
  have "line = r @ args" unfolding r_def args_def by (rule takeWhile_split)
  then show ?thesis
    unfolding call_line_def Let_def r_def [symmetric] args_def [symmetric]
    using split_name_text [of r] by (auto simp: pieces_text_def split: option.splits)
qed

lemma file_line_text: "take 1 line = [TAB] \<Longrightarrow> pieces_text (file_line line) = line"
proof -
  assume t: "take 1 line = [TAB]"
  define body where "body = drop 1 line"
  define path where "path = takeWhile (\<lambda>c. \<not> js_space c \<and> c \<noteq> CHR '':'') body"
  define after where "after = drop (length path) body"
  define num where "num = takeWhile js_digit (drop 1 after)"
  have line: "line = [TAB] @ body" using t by (metis body_def append_take_drop_id)
  have body: "body = path @ after" unfolding path_def after_def by (rule takeWhile_split)
  have n: "drop 1 after = num @ drop (length num) (drop 1 after)"
    unfolding num_def by (rule takeWhile_split)
  have a: "take 1 after = '':'' \<Longrightarrow> after = '':'' @ drop 1 after" by (metis append_take_drop_id)
  show ?thesis
    unfolding file_line_def Let_def body_def [symmetric] path_def [symmetric] after_def [symmetric]
      num_def [symmetric]
    using line body n a by (auto simp: pieces_text_def)
qed

lemma created_line_text:
  "take (length CREATED_BY) line = CREATED_BY \<Longrightarrow> pieces_text (created_line line) = line"
proof -
  assume t: "take (length CREATED_BY) line = CREATED_BY"
  define body where "body = drop (length CREATED_BY) line"
  define r where "r = takeWhile path_char body"
  have line: "line = CREATED_BY @ body" using t by (metis body_def append_take_drop_id)
  have body: "body = r @ drop (length r) body" unfolding r_def by (rule takeWhile_split)
  show ?thesis
    unfolding created_line_def Let_def body_def [symmetric] r_def [symmetric]
    using line body split_name_text [of r] by (auto simp: pieces_text_def split: option.splits)
qed

lemma line_marks_text: "pieces_text (line_marks line) = line"
  by (simp add: line_marks_def call_line_text file_line_text created_line_text)
    (simp add: pieces_text_def)

lemma join_lines_text: "pieces_text (join_lines ls) = js_join [NL] (map pieces_text ls)"
  by (induction ls rule: join_lines.induct) (auto simp: pieces_text_def)

lemma stack_marks_text: "pieces_text (stack_marks s) = s"
  by (simp add: stack_marks_def join_lines_text line_marks_text comp_def js_join_split)

lemma line_marks_palette: "p \<in> set (line_marks line) \<Longrightarrow> piece_class p \<subseteq> stack_palette"
  by (auto simp: line_marks_def call_line_def file_line_def created_line_def stack_palette_def Let_def
      split: if_splits option.splits)

lemma join_lines_set: "p \<in> set (join_lines ls) \<Longrightarrow> p = Plain [NL] \<or> (\<exists>l \<in> set ls. p \<in> set l)"
  by (induction ls rule: join_lines.induct) auto

lemma stack_marks_palette: "p \<in> set (stack_marks s) \<Longrightarrow> piece_class p \<subseteq> stack_palette"
  unfolding stack_marks_def using line_marks_palette by (fastforce dest: join_lines_set)

interpretation stack: marked_text stack_marks stack_palette
  by unfold_locales
    (simp add: stack_marks_text, rule stack_marks_palette, assumption, auto simp: stack_palette_def)

end
