(* ===== verification/Stringify.thy ===== *)
theory Stringify
  imports Highlight
begin

text \<open>
  \<open>JSON.stringify(data, null, 2)\<close>, and the highlighting of its result: the specification of
  the highlighter on JSON is the list of tokens of the printed value (\<open>json_tokens\<close>).
\<close>

section \<open>Quoting\<close>

definition hex_lower :: "nat \<Rightarrow> char" where
  "hex_lower d = (if d < 10 then digit_char d else char_of (87 + d))"

definition quote_char :: "char \<Rightarrow> string" where
  "quote_char c =
     (let n = code_of c in
      if c = DQ \<or> c = BSL then [BSL, c]
      else if n = 8 then [BSL, CHR ''b'']
      else if n = 9 then [BSL, CHR ''t'']
      else if n = 10 then [BSL, CHR ''n'']
      else if n = 12 then [BSL, CHR ''f'']
      else if n = 13 then [BSL, CHR ''r'']
      else if n < 32 then [BSL, CHR ''u'', CHR ''0'', CHR ''0'', hex_lower (n div 16), hex_lower (n mod 16)]
      else [c])"

definition json_quote :: "string \<Rightarrow> string" where
  "json_quote s = [DQ] @ concat (map quote_char s) @ [DQ]"

section \<open>Tokens\<close>

text \<open>
  A printed value as a list of tokens, each key with its colon, and the punctuation and white
  space between them.
\<close>

datatype json_token = Key string | Str string | Num rat | Lit string | Punct string

definition newline :: "nat \<Rightarrow> string" where
  "newline d = NL # replicate (2 * d) (CHR '' '')"

text \<open>The items of a container, one per line, with commas.\<close>

fun sep_items :: "nat \<Rightarrow> json_token list list \<Rightarrow> json_token list" where
  "sep_items d [] = []"
| "sep_items d [x] = Punct (newline d) # x"
| "sep_items d (x # y # ys) = Punct (newline d) # x @ Punct '','' # sep_items d (y # ys)"

definition bracket :: "string \<Rightarrow> string \<Rightarrow> nat \<Rightarrow> json_token list list \<Rightarrow> json_token list" where
  "bracket l r d items =
     (if items = [] then [Punct (l @ r)]
      else Punct l # sep_items (Suc d) items @ [Punct (newline d @ r)])"

text \<open>
  The members of an object in the order of its keys, without those whose value is
  \<open>undefined\<close>; in an array \<open>undefined\<close> prints as \<open>null\<close>; an \<open>ArrayBuffer\<close> has no members.
\<close>

definition ordered_members :: "(string \<times> 'a) list \<Rightarrow> (string \<times> 'a) list" where
  "ordered_members m = map (\<lambda>k. (k, the (map_of m k))) (obj_keys m)"

fun json_tokens :: "nat \<Rightarrow> jsv \<Rightarrow> json_token list" where
  "json_tokens d JUndef = [Lit ''null'']"
| "json_tokens d JNull = [Lit ''null'']"
| "json_tokens d (JBool b) = [Lit (if b then ''true'' else ''false'')]"
| "json_tokens d (JNum q) = [Num q]"
| "json_tokens d (JStr s) = [Str s]"
| "json_tokens d (JArr xs) = bracket ''['' '']'' d (map (json_tokens (Suc d)) xs)"
| "json_tokens d (JObj m) =
     bracket ''{'' ''}'' d
       (map (\<lambda>(k, ts). Key k # Punct '' '' # ts)
         (ordered_members
           (map (\<lambda>(k, v). (k, json_tokens (Suc d) v)) (filter (\<lambda>(k, v). v \<noteq> JUndef) m))))"
| "json_tokens d (JBuf b) = [Punct ''{}'']"

fun token_text :: "json_token \<Rightarrow> string" where
  "token_text (Key k) = json_quote k @ '':''"
| "token_text (Str s) = json_quote s"
| "token_text (Num q) = num_str q"
| "token_text (Lit l) = l"
| "token_text (Punct p) = p"

definition json_stringify :: "jsv \<Rightarrow> string" where
  "json_stringify v = concat (map token_text (json_tokens 0 v))"

text \<open>The class each token is meant to have.\<close>

fun token_pieces :: "json_token \<Rightarrow> piece list" where
  "token_pieces (Key k) =
     [Marked ''text-cyan-400'' (html_escape (json_quote k)), Marked ''text-gray-300'' '':'']"
| "token_pieces (Str s) = [Marked ''text-green-400'' (html_escape (json_quote s))]"
| "token_pieces (Num q) = [Marked ''text-blue-400'' (num_str q)]"
| "token_pieces (Lit l) =
     [Marked (if l = ''null'' then ''text-purple-400'' else ''text-yellow-400'') l]"
| "token_pieces (Punct p) = map (\<lambda>c. Plain [c]) p"

section \<open>Lexing one token\<close>

text \<open>Characters of the punctuation start no token, and end every number, literal and string.\<close>

definition punct_char :: "char \<Rightarrow> bool" where
  "punct_char c \<longleftrightarrow> c \<in> {CHR ''['', CHR '']'', CHR ''{'', CHR ''}'', CHR '','', CHR '' '', NL}"

definition stops :: "string \<Rightarrow> bool" where
  "stops r \<longleftrightarrow> (r = [] \<or> hd r = CHR '','' \<or> hd r = NL) \<and> take 1 (dropWhile js_space r) \<noteq> '':''"

definition boundary :: "char option \<Rightarrow> bool" where
  "boundary b \<longleftrightarrow> (case b of None \<Rightarrow> True | Some c \<Rightarrow> \<not> word_char c)"

lemma punct_facts:
  assumes "punct_char c"
  shows "c \<noteq> DQ" "\<not> js_digit c" "c \<noteq> CHR ''-''" "c \<notin> {CHR ''t'', CHR ''f'', CHR ''n''}"
    "\<not> word_char c" "c \<notin> {CHR ''.'', CHR ''e'', CHR ''E''}" "html_escape [c] = [c]"
proof -
  have "\<forall>c \<in> set [CHR ''['', CHR '']'', CHR ''{'', CHR ''}'', CHR '','', CHR '' '', NL].
      c \<noteq> DQ \<and> \<not> js_digit c \<and> c \<noteq> CHR ''-'' \<and> c \<notin> {CHR ''t'', CHR ''f'', CHR ''n''} \<and> \<not> word_char c
      \<and> c \<notin> {CHR ''.'', CHR ''e'', CHR ''E''} \<and> html_escape [c] = [c]"
    by code_simp
  with assms have "c \<noteq> DQ \<and> \<not> js_digit c \<and> c \<noteq> CHR ''-'' \<and> c \<notin> {CHR ''t'', CHR ''f'', CHR ''n''}
      \<and> \<not> word_char c \<and> c \<notin> {CHR ''.'', CHR ''e'', CHR ''E''} \<and> html_escape [c] = [c]"
    unfolding punct_char_def by (metis insert_iff list.set(1) list.set(2))
  then show "c \<noteq> DQ" "\<not> js_digit c" "c \<noteq> CHR ''-''" "c \<notin> {CHR ''t'', CHR ''f'', CHR ''n''}"
    "\<not> word_char c" "c \<notin> {CHR ''.'', CHR ''e'', CHR ''E''}" "html_escape [c] = [c]" by blast+
qed

lemma match_keyword_first:
  assumes "match_keyword b (c # r) = Some m"
  shows "c \<in> {CHR ''t'', CHR ''f'', CHR ''n''}"
proof -
  from match_keyword_prefix [OF assms] have "prefix m (c # r)" "m \<noteq> []" by auto
  moreover have "m \<in> set [''true'', ''false'', ''null'']"
    using assms by (auto simp: match_keyword_def find_Some_iff split: if_splits)
  ultimately show ?thesis by auto
qed

lemma match_string_first: "c \<noteq> DQ \<Longrightarrow> match_string (c # r) = None"
  by (simp add: match_string_def)

lemma match_number_first: "\<not> js_digit c \<Longrightarrow> c \<noteq> CHR ''-'' \<Longrightarrow> match_number (c # r) = None"
  by (simp add: match_number_def)

lemma punct_no_match: "punct_char c \<Longrightarrow> json_match b (c # r) = None"
proof -
  assume c: "punct_char c"
  have "match_keyword b (c # r) = None"
    using match_keyword_first [of b c r] punct_facts(4) [OF c] by (cases "match_keyword b (c # r)") auto
  then show ?thesis
    using match_string_first [OF punct_facts(1) [OF c]]
      match_number_first [OF punct_facts(2,3) [OF c]]
    by (simp add: json_match_def)
qed

lemma marks_nil [simp]: "json_marks_from b [] = []"
  by (subst json_marks_from.simps) simp

lemma marks_plain: "json_match b (c # r) = None \<Longrightarrow>
    json_marks_from b (c # r) = Plain [c] # json_marks_from (Some c) r"
  by (subst json_marks_from.simps) simp

lemma marks_match:
  assumes "json_match b (m @ r) = Some m"
  shows "json_marks_from b (m @ r) = json_mark m @ json_marks_from (Some (last m)) r"
proof -
  have "m @ r \<noteq> []" using json_match_prefix [OF assms] by simp
  then obtain c t where s: "m @ r = c # t" by (cases "m @ r") auto
  have "json_marks_from b (m @ r)
      = json_mark m @ json_marks_from (Some (last m)) (drop (length m) (m @ r))"
    using assms unfolding s by (subst json_marks_from.simps) simp
  then show ?thesis by simp
qed

text \<open>What precedes a place without a token does not matter there.\<close>

lemma marks_before:
  assumes "r = [] \<or> punct_char (hd r)"
  shows "json_marks_from b r = json_marks_from None r"
  using assms by (cases r) (auto simp: marks_plain punct_no_match)

lemma stops_punct: "stops r \<Longrightarrow> r = [] \<or> punct_char (hd r)"
  by (auto simp: stops_def punct_char_def)

lemma stops_before: "stops r \<Longrightarrow> json_marks_from b r = json_marks_from None r"
  by (rule marks_before) (rule stops_punct)

lemma marks_punct:
  assumes "list_all punct_char p" "boundary b"
  shows "\<exists>b'. boundary b' \<and> json_marks_from b (p @ r) = map (\<lambda>c. Plain [c]) p @ json_marks_from b' r"
  using assms
proof (induction p arbitrary: b)
  case (Cons c p)
  then have "boundary (Some c)" by (simp add: boundary_def punct_facts)
  with Cons.IH [of "Some c"] Cons.prems show ?case
    by (auto simp: marks_plain [OF punct_no_match])
qed auto

text \<open>A quoted string, escaped for HTML, is one string literal.\<close>

lemma html_escape_append: "html_escape (s @ t) = html_escape s @ html_escape t"
  by (simp add: html_escape_def js_replace_append)

lemma scan_string_plain: "c \<noteq> DQ \<Longrightarrow> c \<noteq> BSL \<Longrightarrow> scan_string (c # s) = map_option ((#) c) (scan_string s)"
  by simp

lemma scan_string_skip:
  "list_all (\<lambda>c. c \<noteq> DQ \<and> c \<noteq> BSL) p \<Longrightarrow> scan_string (p @ s) = map_option ((@) p) (scan_string s)"
  by (induction p; cases "scan_string s") auto

lemma scan_string_escape:
  "d \<noteq> CHR ''u'' \<Longrightarrow> scan_string (BSL # d # s) = map_option ((@) [BSL, d]) (scan_string s)"
  by (cases "scan_string s") (simp_all add: DQ_def BSL_def)

lemma scan_string_unicode:
  "list_all js_alnum [a, b, c, d] \<Longrightarrow>
   scan_string (BSL # CHR ''u'' # a # b # c # d # s)
     = map_option ((@) [BSL, CHR ''u'', a, b, c, d]) (scan_string s)"
  by (cases "scan_string s") (simp_all add: DQ_def BSL_def)

lemma escape_one: "html_escape [c] = (if c = CHR ''&'' then ''&amp;'' else if c = CHR ''<'' then ''&lt;''
      else if c = CHR ''>'' then ''&gt;'' else [c])"
  by (simp add: html_escape_Cons html_escape_Nil)

lemma escape_id: "\<forall>c \<in> set s. c \<noteq> CHR ''&'' \<and> c \<noteq> CHR ''<'' \<and> c \<noteq> CHR ''>'' \<Longrightarrow> html_escape s = s"
  by (induction s) (auto simp: html_escape_Cons html_escape_Nil)

lemma hex_lower_ok: "n < 16 \<Longrightarrow> js_alnum (hex_lower n) \<and> html_escape [hex_lower n] = [hex_lower n]"
proof -
  assume n: "n < 16"
  then have c: "code_of (hex_lower n) = (if n < 10 then 48 + n else 87 + n)"
    by (simp add: hex_lower_def code_of_digit_char) (simp add: code_of_def)
  have "code_of (CHR ''&'') = 38" "code_of (CHR ''<'') = 60" "code_of (CHR ''>'') = 62"
    by (simp_all add: code_of_def)
  with c n have "hex_lower n \<noteq> CHR ''&''" "hex_lower n \<noteq> CHR ''<''" "hex_lower n \<noteq> CHR ''>''"
    by (auto split: if_splits)
  then show ?thesis using n by (simp add: escape_one js_alnum_def c)
qed

lemma quote_char_cases:
  obtains (pair) d where "d \<in> {DQ, BSL, CHR ''b'', CHR ''t'', CHR ''n'', CHR ''f'', CHR ''r''}"
      "quote_char c = [BSL, d]"
  | (unicode) "code_of c < 32" "quote_char c = [BSL, CHR ''u'', CHR ''0'', CHR ''0'',
        hex_lower (code_of c div 16), hex_lower (code_of c mod 16)]"
  | (plain) "c \<noteq> DQ" "c \<noteq> BSL" "quote_char c = [c]"
proof (cases "c = DQ \<or> c = BSL")
  case True
  then show ?thesis by (intro pair [of c]) (auto simp: quote_char_def)
next
  case False
  note quote = quote_char_def [of c] Let_def if_not_P [OF False]
  consider "code_of c \<in> {8, 9, 10, 12, 13}" | "code_of c \<notin> {8, 9, 10, 12, 13}" "code_of c < 32"
    | "code_of c \<notin> {8, 9, 10, 12, 13}" "\<not> code_of c < 32" by blast
  then show ?thesis
  proof cases
    case 1
    let ?d = "if code_of c = 8 then CHR ''b'' else if code_of c = 9 then CHR ''t''
      else if code_of c = 10 then CHR ''n'' else if code_of c = 12 then CHR ''f'' else CHR ''r''"
    from 1 have "quote_char c = [BSL, ?d]" unfolding quote by auto
    then show ?thesis by (rule pair [rotated]) simp
  next
    case 2
    then show ?thesis by (intro unicode) (simp_all only: quote, simp_all)
  next
    case 3
    then show ?thesis using False by (intro plain) (simp_all only: quote, simp_all)
  qed
qed

lemma scan_quote_char:
  "scan_string (html_escape (quote_char c) @ s)
     = map_option ((@) (html_escape (quote_char c))) (scan_string s)"
proof -
  have pairs: "\<forall>d \<in> {DQ, BSL, CHR ''b'', CHR ''t'', CHR ''n'', CHR ''f'', CHR ''r''}.
      d \<noteq> CHR ''u'' \<and> html_escape [BSL, d] = [BSL, d]" by code_simp
  show ?thesis
  proof (cases c rule: quote_char_cases)
    case (pair d)
    with pairs have "d \<noteq> CHR ''u''" "html_escape (quote_char c) = [BSL, d]" by metis+
    then show ?thesis
      using scan_string_escape [of d s] by (simp only: append_Cons append_Nil simp_thms)
  next
    case unicode
    define a b where "a = hex_lower (code_of c div 16)" and "b = hex_lower (code_of c mod 16)"
    from unicode have ab: "js_alnum a" "js_alnum b" "html_escape [a] = [a]" "html_escape [b] = [b]"
      using hex_lower_ok [of "code_of c div 16"] hex_lower_ok [of "code_of c mod 16"]
      by (simp_all add: a_def b_def)
    have z: "js_alnum (CHR ''0'')" "html_escape [BSL, CHR ''u'', CHR ''0'', CHR ''0''] = [BSL, CHR ''u'', CHR ''0'', CHR ''0'']"
      by code_simp+
    have "html_escape (quote_char c) = html_escape [BSL, CHR ''u'', CHR ''0'', CHR ''0''] @ html_escape [a] @ html_escape [b]"
      by (simp add: unicode a_def b_def flip: html_escape_append)
    then have "html_escape (quote_char c) = [BSL, CHR ''u'', CHR ''0'', CHR ''0'', a, b]"
      by (simp only: z ab append_Cons append_Nil)
    moreover have "list_all js_alnum [CHR ''0'', CHR ''0'', a, b]" using ab z by simp
    ultimately show ?thesis by (simp only: append_Cons append_Nil scan_string_unicode)
  next
    case plain
    have "list_all (\<lambda>x. x \<noteq> DQ \<and> x \<noteq> BSL) (html_escape [c])"
    proof -
      have "list_all (\<lambda>x. x \<noteq> DQ \<and> x \<noteq> BSL) ''&amp;''" "list_all (\<lambda>x. x \<noteq> DQ \<and> x \<noteq> BSL) ''&lt;''"
        "list_all (\<lambda>x. x \<noteq> DQ \<and> x \<noteq> BSL) ''&gt;''" by code_simp+
      with plain show ?thesis unfolding escape_one by simp
    qed
    then show ?thesis unfolding plain by (rule scan_string_skip)
  qed
qed

lemma scan_quoted:
  "scan_string (html_escape (concat (map quote_char s)) @ DQ # r)
     = Some (html_escape (concat (map quote_char s)) @ [DQ])"
  by (induction s) (simp_all add: html_escape_Nil html_escape_append scan_quote_char)

lemma escape_DQ: "html_escape [DQ] = [DQ]"
  by code_simp

lemma escape_quote: "html_escape (json_quote s) = DQ # html_escape (concat (map quote_char s)) @ [DQ]"
  unfolding json_quote_def html_escape_append escape_DQ by simp

lemma match_quoted:
  "match_string (html_escape (json_quote s) @ r) = Some (html_escape (json_quote s) @ scan_colon r)"
  by (simp add: escape_quote match_string_def scan_quoted)

lemma scan_colon_stops: "stops r \<Longrightarrow> scan_colon r = []"
  unfolding stops_def scan_colon_def
  by (cases "dropWhile js_space r") (auto simp: dropWhile_eq_drop Let_def)

lemma lex_string:
  assumes "stops r"
  shows "json_marks_from b (html_escape (json_quote s) @ r)
    = Marked ''text-green-400'' (html_escape (json_quote s)) # json_marks_from None r"
proof -
  have "json_match b (html_escape (json_quote s) @ r) = Some (html_escape (json_quote s))"
    by (simp add: json_match_def match_quoted scan_colon_stops assms)
  from marks_match [OF this] stops_before [OF assms, of "Some (last (html_escape (json_quote s)))"]
  have "json_marks_from b (html_escape (json_quote s) @ r)
      = json_mark (html_escape (json_quote s)) @ json_marks_from None r" by simp
  moreover have "json_mark (html_escape (json_quote s))
      = [Marked ''text-green-400'' (html_escape (json_quote s))]"
    by (simp add: json_mark_def escape_quote) (simp add: DQ_def)
  ultimately show ?thesis by simp
qed

lemma lex_key:
  "json_marks_from b (html_escape (json_quote k) @ '': '' @ r)
    = [Marked ''text-cyan-400'' (html_escape (json_quote k)), Marked ''text-gray-300'' '':'', Plain '' '']
      @ json_marks_from (Some (CHR '' '')) r"
proof -
  let ?q = "html_escape (json_quote k)"
  have "scan_colon ('': '' @ r) = '':''"
  proof -
    have "\<not> js_space (CHR '':'')" by code_simp
    then show ?thesis by (simp add: scan_colon_def)
  qed
  then have "json_match b ((?q @ '':'') @ '' '' @ r) = Some (?q @ '':'')"
    using match_quoted [of k "'': '' @ r"] by (simp add: json_match_def)
  from marks_match [OF this]
  have "json_marks_from b (?q @ '': '' @ r)
      = json_mark (?q @ '':'') @ json_marks_from (Some (CHR '':'')) ('' '' @ r)" by simp
  moreover have "json_mark (?q @ '':'') = [Marked ''text-cyan-400'' ?q, Marked ''text-gray-300'' '':'']"
    by (simp add: json_mark_def escape_quote butlast_append)
  moreover have "json_marks_from (Some (CHR '':'')) ('' '' @ r) = Plain '' '' # json_marks_from (Some (CHR '' '')) r"
  proof -
    have "punct_char (CHR '' '')" by (simp add: punct_char_def)
    from marks_plain [OF punct_no_match [OF this]] show ?thesis by simp
  qed
  ultimately show ?thesis by simp
qed

text \<open>Literals and numbers\<close>

lemma stops_end:
  assumes "stops r"
  shows "r = [] \<or> (\<exists>c t. r = c # t \<and> punct_char c)"
  using stops_punct [OF assms] by (cases r) auto

lemma lex_literal:
  assumes l: "l \<in> {''true'', ''false'', ''null''}" and b: "boundary b" and r: "stops r"
  shows "json_marks_from b (l @ r) = token_pieces (Lit l) @ json_marks_from None r"
proof -
  have follow: "case r of [] \<Rightarrow> True | c # t \<Rightarrow> \<not> word_char c"
    using stops_end [OF r] punct_facts(5) by auto
  have no_string: "match_string (l @ r) = None"
    using l by (auto simp: match_string_def DQ_def)
  have "match_keyword b (l @ r) = Some l"
    using l b follow by (auto simp: match_keyword_def boundary_def)
  then have "json_match b (l @ r) = Some l" by (simp add: json_match_def no_string)
  from marks_match [OF this] stops_before [OF r, of "Some (last l)"]
  have "json_marks_from b (l @ r) = json_mark l @ json_marks_from None r" by simp
  moreover have "json_mark l = token_pieces (Lit l)"
  proof -
    have "\<forall>l \<in> {''true'', ''false'', ''null''}. json_mark l = token_pieces (Lit l)" by code_simp
    with l show ?thesis by blast
  qed
  ultimately show ?thesis by simp
qed

lemma takeWhile_digits: "\<forall>c \<in> set ds. js_digit c \<Longrightarrow> r = [] \<or> \<not> js_digit (hd r) \<Longrightarrow>
    takeWhile js_digit (ds @ r) = ds"
  by (induction ds) (cases r; auto)+

lemma frac_digits_digit: "0 < d \<Longrightarrow> c \<in> set (frac_digits n r d) \<Longrightarrow> r < d \<Longrightarrow> js_digit c"
proof (induction n arbitrary: r)
  case (Suc n)
  have "10 * r div d < 10" using Suc.prems by (simp add: div_less_iff_less_mult)
  with Suc show ?case by (auto intro: digit_char_digit split: if_splits)
qed simp

lemma num_str_shape:
  obtains sg ds fr where "num_str q = sg @ ds @ fr" "sg = [] \<or> sg = ''-''" "ds \<noteq> []"
    "\<forall>c \<in> set ds. js_digit c" "fr = [] \<or> (\<exists>fs. fr = CHR ''.'' # fs \<and> (\<forall>c \<in> set fs. js_digit c))"
proof -
  obtain n d where nd: "quotient_of \<bar>q\<bar> = (n, d)" by fastforce
  then have "d > 0" by (rule quotient_of_denom_pos)
  then have d: "0 < nat d" by simp
  show ?thesis
  proof (rule that)
    show "num_str q = (if q < 0 then ''-'' else []) @ show_nat (nat n div nat d) @
        (if nat n mod nat d = 0 then [] else ''.'' @ frac_digits 17 (nat n mod nat d) (nat d))"
      by (simp add: num_str_def nd)
  qed (use d frac_digits_digit [OF d] show_nat_digits in \<open>auto split: if_splits\<close>)
qed

lemma digit_facts:
  assumes "js_digit c"
  shows "c \<noteq> DQ" "c \<notin> {CHR ''t'', CHR ''f'', CHR ''n'', CHR ''s'', CHR ''l''}" "c \<noteq> CHR ''-''"
    "c \<notin> {CHR ''&'', CHR ''<'', CHR ''>''}"
  using assms by (auto simp: js_digit_def code_of_def DQ_def)

lemma match_number_str:
  assumes "stops r"
  shows "match_number (num_str q @ r) = Some (num_str q)"
proof -
  obtain sg ds fr where n: "num_str q = sg @ ds @ fr" "sg = [] \<or> sg = ''-''" "ds \<noteq> []"
    "\<forall>c \<in> set ds. js_digit c" "fr = [] \<or> (\<exists>fs. fr = CHR ''.'' # fs \<and> (\<forall>c \<in> set fs. js_digit c))"
    by (rule num_str_shape)
  have r_digit: "r = [] \<or> \<not> js_digit (hd r)" and r_dot: "\<forall>c t. r = c # t \<longrightarrow> c \<noteq> CHR ''.''"
    and r_exp: "scan_exponent r = []"
    using stops_end [OF assms] punct_facts(2,6) by (auto simp: scan_exponent_def)
  let ?s = "num_str q @ r"
  have sign: "(case ?s of d # _ \<Rightarrow> if d = CHR ''-'' then [d] else [] | [] \<Rightarrow> []) = sg"
    using n digit_facts(3) by (cases ds) auto
  have "\<not> js_digit (CHR ''.'')" by code_simp
  then have "fr @ r = [] \<or> \<not> js_digit (hd (fr @ r))" using n(5) r_digit by auto
  then have digits: "takeWhile js_digit (drop (length sg) ?s) = ds"
    using takeWhile_digits [OF n(4), of "fr @ r"] by (simp add: n(1))
  have "scan_fraction (fr @ r) = fr"
    using n(5) r_dot takeWhile_digits [OF _ r_digit]
    by (cases r) (auto simp: scan_fraction_def)
  then have fraction: "scan_fraction (drop (length (sg @ ds)) ?s) = fr" by (simp add: n(1))
  have exponent: "scan_exponent (drop (length ((sg @ ds) @ fr)) ?s) = []" by (simp add: n(1) r_exp)
  show ?thesis
    unfolding match_number_def Let_def sign digits fraction exponent using n(1,3) by simp
qed

lemma num_str_chars: "c \<in> set (num_str q) \<Longrightarrow> js_digit c \<or> c = CHR ''-'' \<or> c = CHR ''.''"
  by (rule num_str_shape [of q]) auto

lemma num_str_first: "\<exists>c s. num_str q = c # s"
  by (rule num_str_shape [of q]) (metis append_is_Nil_conv neq_Nil_conv)

lemma lex_number:
  assumes "stops r"
  shows "json_marks_from b (num_str q @ r) = token_pieces (Num q) @ json_marks_from None r"
proof -
  obtain c s where c: "num_str q = c # s" using num_str_first by blast
  then have "js_digit c \<or> c = CHR ''-'' \<or> c = CHR ''.''" using num_str_chars [of c q] by simp
  then have first: "c \<noteq> DQ" "c \<notin> {CHR ''t'', CHR ''f'', CHR ''n''}"
    using digit_facts [of c] by (auto simp: DQ_def)
  have "match_keyword b (num_str q @ r) = None"
    using match_keyword_first [of b c "s @ r"] first(2) by (cases "match_keyword b (num_str q @ r)") (auto simp: c)
  then have "json_match b (num_str q @ r) = Some (num_str q)"
    using match_string_first [OF first(1), of "s @ r"] match_number_str [OF assms, of q]
    by (simp add: json_match_def c)
  from marks_match [OF this] stops_before [OF assms, of "Some (last (num_str q))"]
  have "json_marks_from b (num_str q @ r) = json_mark (num_str q) @ json_marks_from None r" by simp
  moreover have "\<not> js_includes (num_str q) k" if "CHR ''t'' \<in> set k \<or> CHR ''f'' \<in> set k \<or> CHR ''n'' \<in> set k" for k
    using that num_str_chars digit_facts(2) set_mono_sublist [of k "num_str q"]
    unfolding js_includes_def by blast
  then have "json_mark (num_str q) = token_pieces (Num q)"
    using first(1) by (simp add: json_mark_def c)
  ultimately show ?thesis by simp
qed

lemma escape_number: "html_escape (num_str q) = num_str q"
  using num_str_chars digit_facts(4) by (intro escape_id) fastforce

section \<open>Lexing a value\<close>

definition tokens_html :: "json_token list \<Rightarrow> string" where
  "tokens_html ts = html_escape (concat (map token_text ts))"

definition tokens_pieces :: "json_token list \<Rightarrow> piece list" where
  "tokens_pieces ts = concat (map token_pieces ts)"

text \<open>The tokens are found wherever the list may stand.\<close>

definition lexes :: "json_token list \<Rightarrow> bool" where
  "lexes ts \<longleftrightarrow>
     (\<forall>b r. boundary b \<longrightarrow> stops r \<longrightarrow>
        json_marks_from b (tokens_html ts @ r) = tokens_pieces ts @ json_marks_from None r)"

lemma tokens_html_Cons: "tokens_html (t # ts) = html_escape (token_text t) @ tokens_html ts"
  by (simp add: tokens_html_def html_escape_append)

lemma tokens_html_append: "tokens_html (ts @ us) = tokens_html ts @ tokens_html us"
  by (simp add: tokens_html_def html_escape_append)

lemma tokens_html_Nil: "tokens_html [] = []"
  by (simp add: tokens_html_def html_escape_Nil)

lemma tokens_pieces_simps:
  "tokens_pieces [] = []" "tokens_pieces (t # ts) = token_pieces t @ tokens_pieces ts"
  "tokens_pieces (ts @ us) = tokens_pieces ts @ tokens_pieces us"
  by (simp_all add: tokens_pieces_def)

lemmas tokens_simps = tokens_html_Cons tokens_html_append tokens_html_Nil tokens_pieces_simps

lemma escape_punct: "list_all punct_char p \<Longrightarrow> html_escape p = p"
proof (induction p)
  case (Cons c p)
  have "html_escape (c # p) = html_escape [c] @ html_escape p"
    using html_escape_append [of "[c]" p] by simp
  with Cons show ?case by (simp add: punct_facts(7))
qed (simp add: html_escape_Nil)

lemma lex_punct:
  assumes "list_all punct_char p" "boundary b"
  shows "\<exists>b'. boundary b' \<and>
    json_marks_from b (html_escape p @ r) = token_pieces (Punct p) @ json_marks_from b' r"
  using marks_punct [OF assms] by (simp add: escape_punct [OF assms(1)])

lemma newline_punct: "list_all punct_char (newline d)"
  by (auto simp: newline_def punct_char_def list_all_iff)

lemma newline_spaces: "\<forall>c \<in> set (newline d). js_space c"
proof -
  have "js_space NL" "js_space (CHR '' '')" by code_simp+
  then show ?thesis by (auto simp: newline_def)
qed

lemma stops_comma: "stops ('','' @ s)"
proof -
  have "\<not> js_space (CHR '','')" by code_simp
  then show ?thesis by (simp add: stops_def)
qed

lemma stops_close: "c = CHR '']'' \<or> c = CHR ''}'' \<Longrightarrow> stops (newline d @ c # s)"
proof -
  assume c: "c = CHR '']'' \<or> c = CHR ''}''"
  moreover have "\<not> js_space (CHR '']'')" "\<not> js_space (CHR ''}'')" by code_simp+
  ultimately have "dropWhile js_space (newline d @ c # s) = c # s"
    by (auto simp: dropWhile_append_all [OF newline_spaces])
  with c show ?thesis by (auto simp: stops_def) (simp_all add: newline_def)
qed

lemma boundary_None: "boundary None" and boundary_space: "boundary (Some (CHR '' ''))"
  by (simp add: boundary_def, code_simp)

lemma stops_Nil: "stops []"
  by (simp add: stops_def)

lemma lexes_items:
  assumes "\<forall>ts \<in> set items. lexes ts" "items \<noteq> []" "boundary b" "stops r"
  shows "json_marks_from b (tokens_html (sep_items d items) @ r)
    = tokens_pieces (sep_items d items) @ json_marks_from None r"
  using assms
proof (induction d items arbitrary: b rule: sep_items.induct)
  case (2 d ts)
  obtain b' where b': "boundary b'"
    "json_marks_from b (html_escape (newline d) @ tokens_html ts @ r)
      = token_pieces (Punct (newline d)) @ json_marks_from b' (tokens_html ts @ r)"
    using lex_punct [OF newline_punct 2(3)] by blast
  with 2 show ?case by (simp add: tokens_simps lexes_def del: token_pieces.simps)
next
  case (3 d ts us items)
  let ?rest = "tokens_html (sep_items d (us # items)) @ r"
  obtain b' where b': "boundary b'"
    "json_marks_from b (html_escape (newline d) @ tokens_html ts @ html_escape '','' @ ?rest)
      = token_pieces (Punct (newline d)) @ json_marks_from b' (tokens_html ts @ html_escape '','' @ ?rest)"
    using lex_punct [OF newline_punct 3(4)] by blast
  have comma: "list_all punct_char '',''" by (simp add: punct_char_def)
  obtain c where c: "boundary c"
    "json_marks_from None (html_escape '','' @ ?rest) = token_pieces (Punct '','') @ json_marks_from c ?rest"
    using lex_punct [OF comma boundary_None] by blast
  have "json_marks_from b' (tokens_html ts @ html_escape '','' @ ?rest)
      = tokens_pieces ts @ json_marks_from None (html_escape '','' @ ?rest)"
    using 3(2) b'(1) stops_comma [of ?rest] by (simp add: lexes_def escape_punct [OF comma])
  moreover have "json_marks_from c ?rest
      = tokens_pieces (sep_items d (us # items)) @ json_marks_from None r"
    using 3 c(1) by simp
  ultimately show ?case
    using b'(2) c(2) by (simp add: tokens_simps del: token_pieces.simps)
qed simp

lemma lexes_bracket:
  assumes "\<forall>ts \<in> set items. lexes ts" "(lb, rb) \<in> {(''['', '']''), (''{'', ''}'')}"
  shows "lexes (bracket lb rb d items)"
  unfolding lexes_def
proof (intro allI impI)
  fix b r
  assume b: "boundary b" and r: "stops r"
  have punct: "list_all punct_char (lb @ rb)" "list_all punct_char lb" "list_all punct_char rb"
    using assms(2) by (auto simp: punct_char_def)
  obtain c where rb: "rb = [c]" "c = CHR '']'' \<or> c = CHR ''}''" using assms(2) by auto
  have stop_None: "json_marks_from b' r = json_marks_from None r" for b' by (rule stops_before [OF r])
  show "json_marks_from b (tokens_html (bracket lb rb d items) @ r)
      = tokens_pieces (bracket lb rb d items) @ json_marks_from None r"
  proof (cases "items = []")
    case True
    with lex_punct [OF punct(1) b, of r] stop_None show ?thesis
      by (auto simp: bracket_def tokens_simps simp del: token_pieces.simps)
  next
    case False
    let ?close = "html_escape (newline d @ rb) @ r"
    have close: "list_all punct_char (newline d @ rb)" using newline_punct punct(3) by simp
    obtain b1 where b1: "boundary b1"
      "json_marks_from b (html_escape lb @ tokens_html (sep_items (Suc d) items) @ ?close)
        = token_pieces (Punct lb) @ json_marks_from b1 (tokens_html (sep_items (Suc d) items) @ ?close)"
      using lex_punct [OF punct(2) b] by blast
    obtain b2 where b2: "json_marks_from None ?close
        = token_pieces (Punct (newline d @ rb)) @ json_marks_from b2 r"
      using lex_punct [OF close boundary_None] by blast
    have "stops ?close" using stops_close [OF rb(2), of d r]
      by (simp only: escape_punct [OF close]) (simp add: rb(1))
    from lexes_items [OF assms(1) False b1(1) this] b1(2) b2 stop_None False show ?thesis
      by (simp add: bracket_def tokens_simps del: token_pieces.simps)
  qed
qed

lemma lexes_literal: "l \<in> {''true'', ''false'', ''null''} \<Longrightarrow> lexes [Lit l]"
proof -
  assume l: "l \<in> {''true'', ''false'', ''null''}"
  have "\<forall>l \<in> {''true'', ''false'', ''null''}. html_escape l = l" by code_simp
  with l have "html_escape l = l" by blast
  with lex_literal [OF l] show ?thesis
    by (simp add: lexes_def tokens_simps del: token_pieces.simps)
qed

lemma lexes_value: "lexes (json_tokens d v)"
proof (induction d v rule: json_tokens.induct)
  case (6 d xs)
  then show ?case unfolding json_tokens.simps by (intro lexes_bracket) auto
next
  case (7 d m)
  show ?case unfolding json_tokens.simps
  proof (intro lexes_bracket ballI)
    fix ts
    let ?m = "map (\<lambda>(k, v). (k, json_tokens (Suc d) v)) (filter (\<lambda>(k, v). v \<noteq> JUndef) m)"
    assume "ts \<in> set (map (\<lambda>(k, ts). Key k # Punct '' '' # ts) (ordered_members ?m))"
    then obtain k where k: "k \<in> set (obj_keys ?m)" and ts: "ts = Key k # Punct '' '' # the (map_of ?m k)"
      by (auto simp: ordered_members_def)
    from k obtain us where us: "map_of ?m k = Some us"
      using set_obj_keys [of ?m] by (auto simp: obj_get_def [abs_def])
    then obtain v where v: "(k, v) \<in> set m" "v \<noteq> JUndef" "us = json_tokens (Suc d) v"
      by (auto dest!: map_of_SomeD)
    with 7 [of "(k, v)" k v] have lex: "lexes us" by simp
    show "lexes ts"
      unfolding lexes_def
    proof (intro allI impI)
      fix b r
      assume "boundary b" "stops r"
      moreover have "html_escape '' '' = '' ''" "html_escape '':'' = '':''" by code_simp+
      ultimately show "json_marks_from b (tokens_html ts @ r) = tokens_pieces ts @ json_marks_from None r"
        using lex lex_key [of b k "tokens_html us @ r"] boundary_space
        by (simp add: ts us tokens_simps html_escape_append lexes_def)
    qed
  qed auto
next
  case (8 d b)
  show ?case using lexes_bracket [of "[]" "''{''" "''}''" d] by (simp add: bracket_def)
qed (simp_all add: lexes_literal,
    simp_all add: lexes_def tokens_simps lex_string lex_number escape_number)

section \<open>Properties\<close>

text \<open>
  C15. The JSON view marks exactly the tokens of the printed value: keys, strings, numbers,
  booleans and null, each in its own colour and whatever their content, and nothing else.\<close>

theorem json_highlight_tokens:
  "syntaxHighlight (json_stringify v) = pieces_html (tokens_pieces (json_tokens 0 v))"
proof -
  have "json_marks_from None (tokens_html (json_tokens 0 v) @ [])
      = tokens_pieces (json_tokens 0 v) @ json_marks_from None []"
    using lexes_value boundary_None stops_Nil unfolding lexes_def by blast
  then show ?thesis
    by (simp add: syntaxHighlight_def json_marks_def json_stringify_def tokens_html_def)
qed

text \<open>
  C29. Highlighting injects no markup: for any JSON text or stack trace the HTML shows, tags
  aside, exactly that text, and its tags are spans of the fixed classes.\<close>

theorem highlight_faithful:
  "shown_text (syntaxHighlight s) = s \<and> shown_text (highlightStackTrace s) = s \<and>
   set (snd (split_tags (syntaxHighlight s))) \<union> set (snd (split_tags (highlightStackTrace s)))
     \<subseteq> insert ''/span'' (span_tag ` (json_palette \<union> stack_palette))"
  using json.highlight_shows [of s] stack.highlight_shows [of s]
    json.highlight_tags [of _ s] stack.highlight_tags [of _ s]
  by (auto simp: syntaxHighlight_def highlightStackTrace_def)

end
