(* ===== verification/UIComponents.thy ===== *)
theory UIComponents
  imports Jsx Format Stringify
begin

text \<open>
  The shared components of \<open>components/UIComponents.tsx\<close>, \<open>FormComponents.tsx\<close> and
  \<open>Modal.tsx\<close>. Optional properties with defaults are records with the defaults as their
  initial value. Of a class name the part that depends on a property is kept. A handler is an
  attribute that names the action it runs, with its data.
\<close>

section \<open>Display components\<close>

definition flag :: "string \<Rightarrow> bool \<Rightarrow> (string \<times> string) list" where
  "flag name b = (if b then [(name, [])] else [])"

record badge_props =
  trueColor :: string
  falseColor :: string
  trueLabel :: string
  falseLabel :: string

definition badge :: badge_props where
  "badge = \<lparr>trueColor = ''bg-green-600'', falseColor = ''bg-gray-600'', trueLabel = ''Yes'', falseLabel = ''No''\<rparr>"

definition StatusBadge :: "badge_props \<Rightarrow> jsv \<Rightarrow> rendered" where
  "StatusBadge b v =
     ela ''span'' [(''className'', if truthy v then trueColor b else falseColor b)]
       [str_node (if truthy v then trueLabel b else falseLabel b)]"

definition default_value_class :: string where
  "default_value_class = ''text-white font-medium''"

text \<open>A string value is put in a span; another value, or an element, is shown as it is.\<close>

definition FieldRow_class :: "string \<Rightarrow> jsv \<Rightarrow> string \<Rightarrow> rendered" where
  "FieldRow_class label v cls =
     el ''div''
       [el ''span'' [str_node label, str_node '':''],
        (case v of JStr s \<Rightarrow> ela ''span'' [(''className'', cls)] [child v] | _ \<Rightarrow> child v)]"

definition FieldRow :: "string \<Rightarrow> jsv \<Rightarrow> rendered" where
  "FieldRow label v = FieldRow_class label v default_value_class"

definition FieldRow_node :: "string \<Rightarrow> rendered \<Rightarrow> rendered" where
  "FieldRow_node label node = el ''div'' [el ''span'' [str_node label, str_node '':''], node]"

definition ListSection_class :: "string \<Rightarrow> jsv \<Rightarrow> string \<Rightarrow> rendered" where
  "ListSection_class label items cls =
     el ''div''
       [el ''div'' [str_node label, str_node '':''],
        el ''div'' [map_child (Inr items) (\<lambda>item. ela ''div'' [(''className'', cls)] [child item])]]"

definition ListSection :: "string \<Rightarrow> jsv \<Rightarrow> rendered" where
  "ListSection label items = ListSection_class label items default_value_class"

definition TagBadges :: "jsv \<Rightarrow> rendered" where
  "TagBadges tags =
     el ''div''
       [el ''div'' [str_node ''Tags:''],
        el ''div'' [map_child (Inr tags) (\<lambda>tag. el ''span'' [child tag])]]"

definition CollapsibleSectionHeader :: "string \<Rightarrow> bool \<Rightarrow> string \<Rightarrow> rendered" where
  "CollapsibleSectionHeader title isCollapsed onToggle =
     ela ''div'' [(''onClick'', onToggle)]
       [el ''span'' [str_node title],
        ela ''svg'' [(''className'', if isCollapsed then ''-rotate-90'' else [])] [el ''path'' []]]"

datatype alert_type = error_alert | warning_alert | info_alert

fun alert_style :: "alert_type \<Rightarrow> string" where
  "alert_style error_alert = ''bg-red-900/20 border-red-700/50 text-red-400''"
| "alert_style warning_alert = ''bg-yellow-900/20 border-yellow-700/50 text-yellow-400''"
| "alert_style info_alert = ''bg-blue-900/20 border-blue-700/50 text-blue-400''"

definition AlertBox :: "alert_type \<Rightarrow> rendered list \<Rightarrow> string \<Rightarrow> rendered" where
  "AlertBox ty children cls =
     ela ''div'' [(''className'', alert_style ty @ '' '' @ cls)] children"

definition KeyboardKey :: "bool \<Rightarrow> rendered list \<Rightarrow> rendered" where
  "KeyboardKey wide children =
     ela ''kbd'' [(''className'', if wide then [] else ''min-w-[24px] text-center'')] children"

definition ControlLegendItem :: "string list \<Rightarrow> string \<Rightarrow> rendered" where
  "ControlLegendItem keys label =
     el ''div''
       (map (\<lambda>key. KeyboardKey (length key > 1) [str_node key]) keys
        @ [render_if (label \<noteq> []) (el ''span'' [str_node label])])"

definition CommandButton :: "string \<Rightarrow> bool \<Rightarrow> rendered list \<Rightarrow> rendered" where
  "CommandButton onClick disabled children =
     ela ''button'' ((''onClick'', onClick) # flag ''disabled'' disabled) children"

definition ToggleSwitch :: "bool \<Rightarrow> string \<Rightarrow> string \<Rightarrow> rendered" where
  "ToggleSwitch checked onChange label =
     el ''div''
       [render_if (label \<noteq> []) (el ''span'' [str_node label]),
        ela ''button'' [(''onClick'', onChange),
            (''className'', if checked then ''bg-green-600'' else ''bg-gray-600'')]
          [ela ''span'' [(''className'', if checked then ''translate-x-6'' else ''translate-x-1'')] []]]"

text \<open>The button writes its text to the clipboard.\<close>

definition write_clipboard :: "string \<Rightarrow> string" where
  "write_clipboard s = ''navigator.clipboard.writeText '' @ s"

definition CopyButton :: "string \<Rightarrow> bool \<Rightarrow> rendered" where
  "CopyButton s showLabel =
     ela ''button'' [(''onClick'', write_clipboard s), (''title'', ''Copy to clipboard'')]
       [el ''svg'' [el ''path'' []], render_if showLabel (str_node ''Copy'')]"

text \<open>\<open>JSON.stringify(undefined)\<close> is \<open>undefined\<close>, which has no \<open>replace\<close>.\<close>

definition JsonSyntaxHighlighter :: "jsv \<Rightarrow> rendered" where
  "JsonSyntaxHighlighter data =
     (if data = JUndef then Inl (type_error ''undefined'' ''replace'')
      else el ''pre'' [Inr [RawHtml (syntaxHighlight (json_stringify data))]])"

definition GoStackTraceSyntaxHighlighter :: "string \<Rightarrow> rendered" where
  "GoStackTraceSyntaxHighlighter stackTrace =
     el ''pre'' [Inr [RawHtml (highlightStackTrace stackTrace)]]"

text \<open>
  \<open>formatBytes\<close> on a value of unknown type: what is not a number (numeric strings excepted)
  makes it compute with \<open>NaN\<close>.
\<close>

definition formatBytes_of :: "jsv \<Rightarrow> string" where
  "formatBytes_of v =
     (case v of JNum n \<Rightarrow> formatBytes n | JBool b \<Rightarrow> if b then formatBytes 1 else ''NaN undefined''
      | _ \<Rightarrow> ''NaN undefined'')"

section \<open>Forms\<close>

datatype accent = purple | green | blue

fun focusBorderClasses :: "accent \<Rightarrow> string" where
  "focusBorderClasses purple = ''focus:border-purple-500''"
| "focusBorderClasses green = ''focus:border-green-500''"
| "focusBorderClasses blue = ''focus:border-blue-500''"

fun checkColorClasses :: "accent \<Rightarrow> string" where
  "checkColorClasses purple = ''text-purple-500 focus:ring-purple-500''"
| "checkColorClasses green = ''text-green-500 focus:ring-green-500''"
| "checkColorClasses blue = ''text-blue-500 focus:ring-blue-500''"

record input_settings =
  in_placeholder :: "string option"
  in_type :: string
  in_autoFocus :: bool
  in_focusColor :: accent
  in_min :: "int option"
  in_max :: "int option"
  in_class :: string

definition input_props :: input_settings where
  "input_props =
     \<lparr>in_placeholder = None, in_type = ''text'', in_autoFocus = False, in_focusColor = purple,
      in_min = None, in_max = None, in_class = []\<rparr>"

definition opt_attr :: "string \<Rightarrow> string option \<Rightarrow> (string \<times> string) list" where
  "opt_attr name v = (case v of None \<Rightarrow> [] | Some s \<Rightarrow> [(name, s)])"

definition FormInput :: "input_settings \<Rightarrow> string \<Rightarrow> string \<Rightarrow> rendered" where
  "FormInput p v onChange =
     ela ''input''
       ([(''type'', in_type p), (''value'', v), (''onChange'', onChange)]
        @ opt_attr ''placeholder'' (in_placeholder p) @ flag ''autoFocus'' (in_autoFocus p)
        @ opt_attr ''min'' (map_option show_int (in_min p))
        @ opt_attr ''max'' (map_option show_int (in_max p))
        @ [(''className'', focusBorderClasses (in_focusColor p) @ '' focus:outline-none '' @ in_class p)]) []"

definition FormLabel :: "rendered list \<Rightarrow> string \<Rightarrow> rendered" where
  "FormLabel children cls = ela ''label'' [(''className'', cls)] children"

definition FormSelect :: "string \<Rightarrow> string \<Rightarrow> (string \<times> string) list \<Rightarrow> accent \<Rightarrow> string \<Rightarrow> rendered" where
  "FormSelect v onChange options focusColor cls =
     ela ''select''
       [(''value'', v), (''onChange'', onChange),
        (''className'', focusBorderClasses focusColor @ '' focus:outline-none '' @ cls)]
       (map (\<lambda>(val, label). ela ''option'' [(''value'', val)] [str_node label]) options)"

datatype text_size = sm | md | lg

fun sizeClasses :: "text_size \<Rightarrow> string" where
  "sizeClasses sm = ''w-4 h-4''" | "sizeClasses md = ''w-4 h-4''" | "sizeClasses lg = ''w-5 h-5''"

fun textClasses :: "text_size \<Rightarrow> string" where
  "textClasses sm = ''text-sm''" | "textClasses md = ''text-base''" | "textClasses lg = ''text-lg''"

definition CheckboxListItem ::
  "string \<Rightarrow> bool \<Rightarrow> string \<Rightarrow> accent \<Rightarrow> bool \<Rightarrow> text_size \<Rightarrow> rendered" where
  "CheckboxListItem label checked onChange checkColor trunc sz =
     el ''label''
       [ela ''input''
          ([(''type'', ''checkbox'')] @ flag ''checked'' checked @ [(''onChange'', onChange),
            (''className'', sizeClasses sz @ '' '' @ checkColorClasses checkColor)]) [],
        ela ''span''
          [(''className'', textClasses sz @ '' '' @ (if trunc then ''truncate'' else [])), (''title'', label)]
          [str_node label]]"

definition ModalActionButtons ::
  "string \<Rightarrow> string \<Rightarrow> string \<Rightarrow> string \<Rightarrow> bool \<Rightarrow> rendered" where
  "ModalActionButtons onCancel onSubmit cancelText submitText submitDisabled =
     el ''div''
       [ela ''button'' [(''onClick'', onCancel)] [str_node cancelText],
        ela ''button'' ((''onClick'', onSubmit) # flag ''disabled'' submitDisabled) [str_node submitText]]"

text \<open>The keys of a modal bubble to its outermost element, from its buttons too.\<close>

definition Modal_handleKeyDown :: "'action option \<Rightarrow> string \<Rightarrow> 'action option" where
  "Modal_handleKeyDown onSubmit key = (if key = ''Enter'' then onSubmit else None)"

definition Modal :: "string \<Rightarrow> string \<Rightarrow> rendered list \<Rightarrow> rendered" where
  "Modal title onClose children =
     ela ''div'' [(''onKeyDown'', ''handleKeyDown'')]
       [el ''div''
         [el ''div'' [el ''h3'' [str_node title],
            ela ''button'' [(''onClick'', onClose)] [el ''svg'' [el ''path'' []]]],
          el ''div'' children]]"

section \<open>Rendering\<close>

lemma renders_badge [render_intros]: "renders (StatusBadge b v)"
  unfolding StatusBadge_def by (intro render_intros)

lemma renders_field_node [render_intros]: "renders n \<Longrightarrow> renders (FieldRow_node label n)"
  unfolding FieldRow_node_def by (intro render_intros)

text \<open>A value without an object in it can be shown.\<close>

fun showable :: "jsv \<Rightarrow> bool" where
  "showable (JObj m) = False"
| "showable (JBuf b) = False"
| "showable (JArr xs) = list_all showable xs"
| "showable _ = True"

lemma renders_child: "showable v \<Longrightarrow> renders (child v)"
  by (induction v rule: showable.induct)
    (auto simp: list_all_iff intro!: renders_nodes intro: render_intros)

lemma renders_field_class [render_intros]: "showable v \<Longrightarrow> renders (FieldRow_class label v cls)"
  unfolding FieldRow_class_def
  by (drule renders_child) (intro render_intros; cases v; simp del: child.simps add: render_intros)

lemma renders_field [render_intros]: "showable v \<Longrightarrow> renders (FieldRow label v)"
  unfolding FieldRow_def by (rule renders_field_class)

fun list_of :: "(jsv \<Rightarrow> bool) \<Rightarrow> jsv \<Rightarrow> bool" where
  "list_of P (JArr xs) = list_all P xs"
| "list_of P _ = False"

lemma renders_list: "list_of P v \<Longrightarrow> (\<And>x. P x \<Longrightarrow> renders (f x)) \<Longrightarrow> renders (map_child (Inr v) f)"
  by (cases v) (auto simp: list_all_iff intro: renders_map_child)

lemma renders_section_class [render_intros]:
  "list_of showable v \<Longrightarrow> renders (ListSection_class label v cls)"
  unfolding ListSection_class_def by (intro render_intros renders_list renders_child)

lemma renders_section [render_intros]: "list_of showable v \<Longrightarrow> renders (ListSection label v)"
  unfolding ListSection_def by (rule renders_section_class)

lemma renders_tags [render_intros]: "list_of showable v \<Longrightarrow> renders (TagBadges v)"
  unfolding TagBadges_def by (intro render_intros renders_list renders_child)

lemma renders_copy [render_intros]: "renders (CopyButton s l)"
  unfolding CopyButton_def by (intro render_intros)

lemma renders_header [render_intros]: "renders (CollapsibleSectionHeader title c act)"
  unfolding CollapsibleSectionHeader_def by (intro render_intros)

lemma renders_json [render_intros]: "v \<noteq> JUndef \<Longrightarrow> renders (JsonSyntaxHighlighter v)"
  unfolding JsonSyntaxHighlighter_def by (simp add: render_intros)

lemma renders_trace [render_intros]: "renders (GoStackTraceSyntaxHighlighter s)"
  unfolding GoStackTraceSyntaxHighlighter_def by (intro render_intros)

lemma renders_toggle [render_intros]: "renders (ToggleSwitch c act label)"
  unfolding ToggleSwitch_def by (intro render_intros)

lemma renders_legend [render_intros]: "renders (ControlLegendItem keys label)"
  unfolding ControlLegendItem_def KeyboardKey_def by (intro render_intros)

end
