(* ===== verification/ResultViews.thy ===== *)
theory ResultViews
  imports UIComponents CommandUtils
begin

text \<open>
  The views of the results of a command in \<open>components/CommandOutputsPanel.tsx\<close>, first part:
  ping, DNS query, preferences, drive shares and DNS configuration. A view is a function of the
  data of the selected host, of which nothing is known.
\<close>

section \<open>Shared parts\<close>

definition error_panel :: "jsv \<Rightarrow> rendered" where
  "error_panel e = el ''div'' [el ''p'' [child e]]"

text \<open>\<open>if (data.error) return \<dots>\<close>\<close>

definition unless_error :: "jsv \<Rightarrow> rendered \<Rightarrow> rendered" where
  "unless_error data view =
     exn_bind (js_prop data ''error'') (\<lambda>e. if truthy e then error_panel e else view)"

text \<open>A titled list of names, as the configuration views have many.\<close>

definition name_list :: "rendered list \<Rightarrow> jsv js_result \<Rightarrow> rendered" where
  "name_list title names =
     el ''div''
       [el ''h5'' (el ''svg'' [el ''path'' []] # title),
        el ''div'' [map_child names (\<lambda>n. el ''span'' [child n])]]"

section \<open>Ping\<close>

definition num_of :: "jsv \<Rightarrow> rat" where
  "num_of v = (case v of JNum n \<Rightarrow> n | JBool b \<Rightarrow> of_bool b | _ \<Rightarrow> 0)"

definition field_if :: "string \<Rightarrow> jsv js_result \<Rightarrow> rendered" where
  "field_if label r = and_then r (\<lambda>v. FieldRow label v)"

definition mono_if :: "string \<Rightarrow> jsv js_result \<Rightarrow> string \<Rightarrow> rendered" where
  "mono_if label r cls = and_then r (\<lambda>v. FieldRow_class label v cls)"

definition MONO :: string where
  "MONO = ''text-white font-mono''"

definition ping_badge :: "connection_info \<Rightarrow> rendered" where
  "ping_badge c = ela ''span'' [(''className'', ci_color c)] [str_node (ci_label c)]"

definition ping_details :: "jsv \<Rightarrow> rendered" where
  "ping_details result =
     el ''div''
       [el ''div''
          [el ''div''
             [ping_badge (getConnectionType result),
              and_then (js_prop result ''IsLocalIP'') (\<lambda>_. el ''span'' [str_node ''Local''])],
           if_defined (js_prop result ''LatencySeconds'') (\<lambda>v.
             render_if (positive v) (el ''span'' [str_node (formatLatency (num_of v))]))],
        el ''div''
          [field_if ''Node Name'' (js_prop result ''NodeName''),
           mono_if ''IP'' (js_prop result ''IP'') MONO,
           mono_if ''Node IP'' (js_prop result ''NodeIP'') MONO,
           mono_if ''Endpoint'' (js_prop result ''Endpoint'') MONO,
           mono_if ''Peer Relay'' (js_prop result ''PeerRelay'') MONO,
           field_if ''DERP Region'' (js_prop result ''DERPRegionCode''),
           if_defined (js_prop result ''DERPRegionID'') (\<lambda>v.
             render_if (positive v) (FieldRow ''DERP Region ID'' v)),
           mono_if ''Peer API URL'' (js_prop result ''PeerAPIURL'') MONO,
           if_defined (js_prop result ''PeerAPIPort'') (\<lambda>v.
             render_if (positive v) (FieldRow_class ''Peer API Port'' v MONO)),
           exn_bind (js_prop result ''IsLocalIP'') (\<lambda>v.
             FieldRow_node ''Is Local IP'' (StatusBadge badge v))]]"

definition ping_entry :: "jsv \<Rightarrow> rendered" where
  "ping_entry result =
     el ''div''
       [if \<not> truthy result then el ''div'' [str_node ''No data'']
        else exn_bind (js_prop result ''error'') (\<lambda>e. exn_bind (js_prop result ''Err'') (\<lambda>e'.
          if truthy (js_or e e') then el ''div'' [str_node ''Error: '', child (js_or e e')]
          else ping_details result))]"

definition ping_peer :: "string \<Rightarrow> jsv \<Rightarrow> rendered" where
  "ping_peer peerId peerData =
     (let pingResults = (case peerData of JArr xs \<Rightarrow> xs | _ \<Rightarrow> [peerData]);
          lastResult = (if pingResults = [] then JUndef else last pingResults) in
      el ''div''
        (el ''div''
           [el ''h4'' [str_node peerId],
            render_if (truthy lastResult) (ping_badge (getConnectionType lastResult))]
         # map ping_entry pingResults))"

definition PingResultsContent :: "jsv \<Rightarrow> rendered" where
  "PingResultsContent data =
     unless_error data
       (exn_bind (js_entries data) (\<lambda>entries.
          let peerEntries = filter (\<lambda>(key, _). key \<noteq> ''error'' \<and> key \<noteq> ''host'') entries in
          if peerEntries = [] then el ''p'' [str_node ''No ping results available.'']
          else el ''div'' (map (\<lambda>(peerId, peerData). ping_peer peerId peerData) peerEntries)))"

section \<open>DNS query\<close>

fun getResponseCodeColor :: "jsv \<Rightarrow> string js_result" where
  "getResponseCodeColor (JStr rcode) =
     Inr (if rcode = ''NOERROR'' \<or> rcode = ''Success'' \<or> js_includes rcode ''Success'' then ''bg-green-600''
          else if rcode = ''NXDOMAIN'' then ''bg-orange-600'' else ''bg-red-600'')"
| "getResponseCodeColor (JArr xs) =
     Inr (if JStr ''Success'' \<in> set xs then ''bg-green-600'' else ''bg-red-600'')"
| "getResponseCodeColor JUndef = Inl (type_error ''undefined'' ''includes'')"
| "getResponseCodeColor JNull = Inl (type_error ''null'' ''includes'')"
| "getResponseCodeColor _ = Inl (Error ''rcode.includes is not a function'')"

definition error_box :: "rendered list \<Rightarrow> jsv \<Rightarrow> rendered" where
  "error_box heading data =
     and_then (js_prop data ''error'') (\<lambda>e. el ''div'' (heading @ [el ''p'' [child e]]))"

definition dns_header :: "jsv \<Rightarrow> rendered" where
  "dns_header header =
     el ''div''
       [el ''h5'' [str_node ''DNS Query Result''],
        and_then (js_prop header ''responseCode'') (\<lambda>rc.
          exn_bind (getResponseCodeColor rc) (\<lambda>color. ela ''span'' [(''className'', color)] [child rc]))]"

definition dns_details :: "jsv \<Rightarrow> rendered" where
  "dns_details header =
     el ''div''
       [mono_if ''Name'' (js_prop header ''name'') ''text-white font-medium break-all'',
        field_if ''Type'' (js_prop header ''type''),
        field_if ''Class'' (js_prop header ''class''),
        if_defined (js_prop header ''ttl'') (\<lambda>v. FieldRow ''TTL'' (JStr (to_str v @ ''s'')))]"

definition QueryDNSResultsContent :: "jsv \<Rightarrow> rendered" where
  "QueryDNSResultsContent data =
     el ''div'' [el ''div''
       [error_box [el ''h5'' [str_node ''Error'']] data,
        and_then (js_prop data ''header'') (\<lambda>header.
          el ''div''
            [dns_header header, dns_details header,
             and_then (some_items (js_prop data ''responses'')) (\<lambda>_.
               el ''div''
                 [el ''h6'' [str_node ''Responses''],
                  el ''div'' [map_child (js_prop data ''responses'') (\<lambda>r.
                    el ''div'' [el ''p'' [child r]])]]),
             and_then (some_items (js_prop data ''resolvers'')) (\<lambda>_.
               exn_bind (js_prop data ''resolvers'') (\<lambda>rs.
                 ListSection_class ''Resolvers'' rs ''text-white font-mono text-sm''))])]]"

section \<open>Preferences\<close>

definition TableRow :: "string \<Rightarrow> rendered list \<Rightarrow> rendered" where
  "TableRow label children = el ''tr'' [el ''td'' [str_node label], el ''td'' children]"

definition badge_row :: "jsv \<Rightarrow> string \<Rightarrow> string \<Rightarrow> badge_props \<Rightarrow> rendered" where
  "badge_row data label key b =
     exn_bind (js_prop data key) (\<lambda>v. TableRow label [StatusBadge b v])"

definition prefs_flags :: "jsv \<Rightarrow> rendered" where
  "prefs_flags data =
     el ''table'' [el ''tbody''
       [and_then (js_prop data ''Hostname'') (\<lambda>v. TableRow ''Hostname'' [child v]),
        badge_row data ''Want Running'' ''WantRunning'' badge,
        badge_row data ''Logged Out'' ''LoggedOut'' (badge\<lparr>trueColor := ''bg-red-600''\<rparr>),
        badge_row data ''Route All'' ''RouteAll'' badge,
        badge_row data ''Corp DNS'' ''CorpDNS'' badge,
        badge_row data ''Run SSH'' ''RunSSH'' badge,
        badge_row data ''Run Web Client'' ''RunWebClient'' badge,
        badge_row data ''Shields Up'' ''ShieldsUp'' badge]]"

definition prefs_network :: "jsv \<Rightarrow> rendered" where
  "prefs_network data =
     el ''table'' [el ''tbody''
       [badge_row data ''No SNAT'' ''NoSNAT'' badge,
        badge_row data ''No Stateful Filtering'' ''NoStatefulFiltering'' badge,
        if_defined (js_prop data ''NetfilterMode'') (\<lambda>v. TableRow ''Netfilter Mode'' [child v]),
        badge_row data ''Exit Node Allow LAN'' ''ExitNodeAllowLANAccess'' badge,
        and_then (js_prop data ''ExitNodeID'') (\<lambda>v. TableRow ''Exit Node ID'' [el ''span'' [child v]]),
        and_then (js_prop data ''OperatorUser'') (\<lambda>v. TableRow ''Operator User'' [child v]),
        and_then (js_prop data ''AutoUpdate'') (\<lambda>u. badge_row u ''Auto Update Check'' ''Check'' badge),
        and_then (js_prop data ''AppConnector'') (\<lambda>c.
          badge_row c ''App Connector'' ''Advertise''
            (badge\<lparr>trueLabel := ''Advertising'', falseLabel := ''Not Advertising''\<rparr>))]]"

definition prefs_user :: "jsv \<Rightarrow> rendered" where
  "prefs_user profile =
     el ''div''
       [el ''h5'' [str_node ''User Profile''],
        el ''div''
          [and_then (js_prop profile ''ProfilePicURL'') (\<lambda>url.
             exn_bind (js_prop profile ''DisplayName'') (\<lambda>name.
               ela ''img'' (js_attr ''src'' url @ js_attr ''alt'' name) [])),
           el ''div''
             [el ''p'' [child_of (js_prop profile ''DisplayName'')],
              el ''p'' [child_of (js_prop profile ''LoginName'')]]]]"

definition PrefsResultsContent :: "jsv \<Rightarrow> rendered" where
  "PrefsResultsContent data =
     unless_error data
       (el ''div'' [el ''div''
         [el ''h4'' [str_node ''Preferences''],
          el ''div'' [prefs_flags data, prefs_network data],
          and_then (js_prop data ''ControlURL'') (\<lambda>v.
            el ''div'' [el ''span'' [str_node ''Control URL''], el ''p'' [child v]]),
          and_then (opt_dot (js_prop data ''Persist'') ''NodeID'') (\<lambda>v.
            el ''div'' [el ''span'' [str_node ''Node ID''], el ''p'' [child v]]),
          and_then (some_items (js_prop data ''AdvertiseRoutes'')) (\<lambda>_.
            exn_bind (js_prop data ''AdvertiseRoutes'') (\<lambda>v.
              el ''div'' [ListSection_class ''Advertise Routes'' v MONO])),
          and_then (some_items (js_prop data ''AdvertiseTags'')) (\<lambda>_.
            exn_bind (js_prop data ''AdvertiseTags'') (\<lambda>v. el ''div'' [TagBadges v])),
          and_then (opt_dot (js_prop data ''Persist'') ''UserProfile'') prefs_user]])"

section \<open>Drive shares\<close>

definition share_card :: "jsv \<Rightarrow> rendered" where
  "share_card share =
     el ''div''
       [el ''div'' [el ''svg'' [el ''path'' []],
          exn_bind (js_prop share ''Name'') (\<lambda>n.
            el ''h5'' [child (js_or n (JStr ''Unnamed Share''))])],
        el ''div''
          [and_then (js_prop share ''Path'') (\<lambda>v.
             el ''div'' [el ''span'' [str_node ''Path''], el ''p'' [child v]]),
           and_then (js_prop share ''Who'') (\<lambda>v.
             el ''div'' [el ''span'' [str_node ''Run As''], el ''p'' [child v]])]]"

definition DriveSharesResultsContent :: "jsv \<Rightarrow> rendered" where
  "DriveSharesResultsContent data =
     exn_bind (js_prop data ''Shares'') (\<lambda>s.
       let shares = js_or s (JArr []) in
       exn_bind (js_prop shares ''length'') (\<lambda>len.
       exn_bind (js_prop data ''error'') (\<lambda>e.
         el ''div'' [el ''div''
           [el ''h4''
              [str_node ''Drive Shares '',
               render_if (positive len) (el ''span'' [str_node ''('', child len, str_node '')''])],
            error_box [] data,
            if len = JNum 0 \<and> \<not> truthy e
            then el ''p'' [str_node ''No drive shares configured on this host.'']
            else el ''div'' [map_child (Inr shares) share_card]]])))"

section \<open>DNS configuration\<close>

definition DNSConfigResultsContent :: "jsv \<Rightarrow> rendered" where
  "DNSConfigResultsContent data =
     exn_bind (some_items (js_prop data ''Nameservers'')) (\<lambda>hasNameservers.
     exn_bind (some_items (js_prop data ''SearchDomains'')) (\<lambda>hasSearchDomains.
     exn_bind (some_items (js_prop data ''MatchDomains'')) (\<lambda>hasMatchDomains.
     exn_bind (js_prop data ''error'') (\<lambda>e.
       let hasAnyConfig = js_or (js_or hasNameservers hasSearchDomains) hasMatchDomains in
       el ''div'' [el ''div''
         [el ''h4'' [str_node ''DNS Configuration''],
          error_box [] data,
          if \<not> truthy hasAnyConfig \<and> \<not> truthy e
          then el ''p'' [str_node ''No DNS configuration available for this host.'']
          else el ''div''
            [and_then (Inr hasNameservers) (\<lambda>_.
               name_list [str_node ''Nameservers''] (js_prop data ''Nameservers'')),
             and_then (Inr hasSearchDomains) (\<lambda>_.
               name_list [str_node ''Search Domains''] (js_prop data ''SearchDomains'')),
             and_then (Inr hasMatchDomains) (\<lambda>_.
               name_list [str_node ''Match Domains''] (js_prop data ''MatchDomains''))]]]))))"

end
