(* ===== verification/ServeViews.thy ===== *)
theory ServeViews
  imports ResultViews
begin

text \<open>
  The views of the results of a command in \<open>components/CommandOutputsPanel.tsx\<close>, second part:
  the serve configuration and the routes of the app connector.
\<close>

section \<open>Serve configuration\<close>

text \<open>\<open>v.substring(0, n)\<close>\<close>

fun js_prefix :: "nat \<Rightarrow> jsv \<Rightarrow> string js_result" where
  "js_prefix n (JStr s) = Inr (take n s)"
| "js_prefix n JUndef = Inl (type_error ''undefined'' ''substring'')"
| "js_prefix n JNull = Inl (type_error ''null'' ''substring'')"
| "js_prefix n _ = Inl (Error ''substring is not a function'')"

definition labelled :: "string \<Rightarrow> jsv js_result \<Rightarrow> rendered" where
  "labelled label r = and_then r (\<lambda>v. el ''p'' [str_node label, el ''span'' [child v]])"

definition tcp_handler :: "string \<Rightarrow> jsv \<Rightarrow> rendered" where
  "tcp_handler port handler =
     el ''div''
       [el ''div''
          [el ''span'' [str_node '':'', str_node port],
           and_then (js_prop handler ''HTTPS'') (\<lambda>_. el ''span'' [str_node ''HTTPS'']),
           and_then (js_prop handler ''HTTP'') (\<lambda>_. el ''span'' [str_node ''HTTP''])],
        labelled ''Forward: '' (js_prop handler ''TCPForward''),
        labelled ''TLS: '' (js_prop handler ''TerminateTLS'')]"

definition web_mount :: "string \<Rightarrow> jsv \<Rightarrow> rendered" where
  "web_mount mount handler =
     el ''div''
       [el ''span'' [str_node mount],
        labelled ''Proxy: '' (js_prop handler ''Proxy''),
        labelled ''Path: '' (js_prop handler ''Path''),
        labelled ''Text: '' (js_prop handler ''Text'')]"

definition web_server :: "string \<Rightarrow> jsv \<Rightarrow> rendered" where
  "web_server hostPort webConfig =
     el ''div''
       [el ''div'' [el ''span'' [str_node hostPort]],
        and_then (js_prop webConfig ''Handlers'') (\<lambda>_.
          entries_child (js_prop webConfig ''Handlers'') web_mount)]"

definition section_title :: "rendered list \<Rightarrow> rendered" where
  "section_title title = el ''h5'' (el ''svg'' [el ''path'' []] # title)"

definition key_count :: "jsv js_result \<Rightarrow> rendered" where
  "key_count r = exn_bind r (\<lambda>v. exn_bind (js_keys v) (\<lambda>ks. str_node (show_nat (length ks))))"

definition name_spans :: "jsv js_result \<Rightarrow> rendered" where
  "name_spans r = el ''div'' [keys_child r (\<lambda>k. el ''span'' [str_node k])]"

definition enabled_spans :: "jsv js_result \<Rightarrow> rendered" where
  "enabled_spans r =
     el ''div'' [entries_child r (\<lambda>hostPort enabled.
       render_if (truthy enabled) (el ''span'' [str_node hostPort]))]"

definition serve_sections :: "jsv \<Rightarrow> (string \<Rightarrow> jsv) \<Rightarrow> rendered" where
  "serve_sections data has =
     el ''div''
       [and_then (Inr (has ''TCP'')) (\<lambda>_. el ''div''
          [section_title [str_node ''TCP Handlers''],
           el ''div'' [entries_child (js_prop data ''TCP'') tcp_handler]]),
        and_then (Inr (has ''Web'')) (\<lambda>_. el ''div''
          [section_title [str_node ''Web Handlers''],
           el ''div'' [entries_child (js_prop data ''Web'') web_server]]),
        and_then (Inr (has ''Services'')) (\<lambda>_. el ''div''
          [section_title [str_node ''Services''], name_spans (js_prop data ''Services'')]),
        and_then (Inr (has ''AllowFunnel'')) (\<lambda>_. el ''div''
          [section_title [str_node ''Funnel Enabled''], enabled_spans (js_prop data ''AllowFunnel'')]),
        and_then (Inr (has ''Foreground'')) (\<lambda>_. el ''div''
          [section_title [str_node ''Foreground Sessions ('', key_count (js_prop data ''Foreground''),
             str_node '')''],
           name_spans (js_prop data ''Foreground'')])]"

text \<open>The five conditions \<open>hasTCP\<close>, \<dots>, \<open>hasForeground\<close>, by the name of their property.\<close>

definition has_keys :: "jsv \<Rightarrow> string \<Rightarrow> jsv" where
  "has_keys data k = (case some_keys (js_prop data k) of Inl _ \<Rightarrow> JUndef | Inr v \<Rightarrow> v)"

definition serve_keys :: "string list" where
  "serve_keys = [''TCP'', ''Web'', ''Services'', ''AllowFunnel'', ''Foreground'']"

definition ServeConfigResultsContent :: "jsv \<Rightarrow> rendered" where
  "ServeConfigResultsContent data =
     exn_bind (js_prop data ''error'') (\<lambda>e.
       let hasAnyConfig = foldl (\<lambda>acc k. js_or acc (has_keys data k)) (JBool False) serve_keys in
       el ''div'' [el ''div''
         [el ''div''
            [el ''h4'' [str_node ''Serve Configuration''],
             and_then (js_prop data ''ETag'') (\<lambda>etag.
               exn_bind (js_prefix 16 etag) (\<lambda>s.
                 el ''span'' [str_node ''ETag: '', str_node s, str_node ''...'']))],
          error_box [] data,
          if \<not> truthy hasAnyConfig \<and> \<not> truthy e
          then el ''p'' [str_node ''No serve configuration on this host.'']
          else serve_sections data (has_keys data)]])"

text \<open>A test of the keys throws only where reading the property throws.\<close>

lemma some_keys_total: "js_prop data ''error'' = Inr e \<Longrightarrow> \<exists>v. some_keys (js_prop data k) = Inr v"
proof -
  assume "js_prop data ''error'' = Inr e"
  then have "\<exists>w. js_prop data k = Inr w" by (cases data) auto
  then obtain w where "js_prop data k = Inr w" by blast
  then show ?thesis by (cases w) (auto simp: some_keys_def js_keys_def)
qed

section \<open>Routes of the app connector\<close>

definition domain_card :: "string \<Rightarrow> jsv \<Rightarrow> rendered" where
  "domain_card domain addrs =
     el ''div''
       [el ''div'' [el ''span'' [str_node domain]],
        el ''div'' [map_child (Inr addrs) (\<lambda>addr. el ''span'' [child addr])]]"

definition AppConnRoutesResultsContent :: "jsv \<Rightarrow> rendered" where
  "AppConnRoutesResultsContent data =
     exn_bind (some_items (js_prop data ''Control'')) (\<lambda>hasControl.
     exn_bind (some_keys (js_prop data ''Domains'')) (\<lambda>hasDomains.
     exn_bind (some_items (js_prop data ''Wildcards'')) (\<lambda>hasWildcards.
     exn_bind (js_prop data ''error'') (\<lambda>e.
       let hasAnyRoutes = js_or (js_or hasControl hasDomains) hasWildcards in
       el ''div'' [el ''div''
         [el ''h4'' [str_node ''App Connector Routes''],
          error_box [] data,
          if \<not> truthy hasAnyRoutes \<and> \<not> truthy e
          then el ''p'' [str_node ''No app connector routes configured on this host.'']
          else el ''div''
            [and_then (Inr hasControl) (\<lambda>_.
               name_list [str_node ''Control Routes (ACL)''] (js_prop data ''Control'')),
             and_then (Inr hasWildcards) (\<lambda>_.
               name_list [str_node ''Wildcard Domains''] (js_prop data ''Wildcards'')),
             and_then (Inr hasDomains) (\<lambda>_. el ''div''
               [section_title [str_node ''Discovered Domains ('', key_count (js_prop data ''Domains''),
                  str_node '')''],
                el ''div'' [entries_child (js_prop data ''Domains'') domain_card]])]]]))))"

end
