(* ===== verification/Goroutines.thy ===== *)
theory Goroutines
  imports JsValue
begin

text \<open>
  The view of goroutine dumps (\<open>components/CommandOutputsPanel.tsx\<close>): splitting a dump at the
  goroutine headers, reading each header, and formatting one goroutine for the clipboard. The
  regular expressions are written out as the recursive functions they denote.
\<close>

section \<open>Splitting the dump\<close>

text \<open>The look-ahead \<open>goroutine \d+\<close>\<close>

definition marker :: "string \<Rightarrow> bool" where
  "marker s \<longleftrightarrow>
     take 10 s = ''goroutine '' \<and> (case drop 10 s of c # _ \<Rightarrow> js_digit c | [] \<Rightarrow> False)"

text \<open>
  \<open>s.split(/(?=^goroutine \d+)/m)\<close>: a cut before every marker that starts a line, except at
  the very beginning.
\<close>

fun split_markers :: "string \<Rightarrow> string list" where
  "split_markers [] = [[]]"
| "split_markers (c # s) =
     (case split_markers s of
        [] \<Rightarrow> [[c]]
      | p # ps \<Rightarrow>
          if line_terminator c \<and> marker s then [c] # p # ps else (c # p) # ps)"

section \<open>Reading a header\<close>

text \<open>\<open>/^goroutine (\d+) \[([^\]]+)\]:/\<close>, its two groups\<close>

definition header_match :: "string \<Rightarrow> (string \<times> string) option" where
  "header_match part =
     (if take 10 part \<noteq> ''goroutine '' then None
      else
        let r1 = drop 10 part; i = takeWhile js_digit r1; r2 = dropWhile js_digit r1
        in if i = [] \<or> take 2 r2 \<noteq> '' ['' then None
           else
             let r3 = drop 2 r2; info = takeWhile (\<lambda>c. c \<noteq> CHR '']'') r3;
                 r4 = dropWhile (\<lambda>c. c \<noteq> CHR '']'') r3
             in if info = [] \<or> take 2 r4 \<noteq> '']:'' then None else Some (i, info))"

text \<open>
  \<open>,\s*(.+)$\<close> after the comma: the white space is taken greedily, but its last character is
  given back when nothing else is left, and the dot matches no line terminator.
\<close>

definition after_comma :: "string \<Rightarrow> string option" where
  "after_comma s =
     (let r = dropWhile js_space s
      in if r \<noteq> [] then (if list_ex line_terminator r then None else Some r)
         else if s \<noteq> [] \<and> \<not> line_terminator (last s) then Some [last s] else None)"

text \<open>\<open>/^(.+?),\s*(.+)$/\<close>: the first comma that makes the rest match.\<close>

fun duration_match :: "string \<Rightarrow> string \<Rightarrow> (string \<times> string) option" where
  "duration_match pre [] = None"
| "duration_match pre (c # s) =
     (case (if c = CHR '','' \<and> pre \<noteq> [] then after_comma s else None) of
        Some d \<Rightarrow> Some (pre, d)
      | None \<Rightarrow> if line_terminator c then None else duration_match (pre @ [c]) s)"

record goroutine =
  g_id :: string
  g_state :: string
  g_duration :: "string option"
  g_stack :: string

definition parse_goroutine :: "string \<Rightarrow> goroutine" where
  "parse_goroutine part =
     (case header_match part of
        None \<Rightarrow> \<lparr>g_id = ''?'', g_state = ''unknown'', g_duration = None, g_stack = js_trim part\<rparr>
      | Some (i, stateInfo) \<Rightarrow>
          let durationMatch = duration_match [] stateInfo;
              nl = char_of (10::nat)
          in \<lparr>g_id = i,
              g_state = (case durationMatch of Some (st, _) \<Rightarrow> st | None \<Rightarrow> stateInfo),
              g_duration = map_option snd durationMatch,
              g_stack = js_trim (js_join [nl] (tl (js_split nl part)))\<rparr>)"

definition parseGoroutines :: "string \<Rightarrow> goroutine list" where
  "parseGoroutines stackTrace =
     map parse_goroutine (filter (\<lambda>part. js_trim part \<noteq> []) (split_markers stackTrace))"

definition getStateColor :: "string \<Rightarrow> string" where
  "getStateColor state =
     (let stateLower = to_lower state in
      if stateLower = ''running'' then ''bg-green-600''
      else if js_includes stateLower ''wait'' \<or> js_includes stateLower ''receive''
              \<or> js_includes stateLower ''select'' then ''bg-blue-600''
      else if js_includes stateLower ''sleep'' then ''bg-yellow-600''
      else if js_includes stateLower ''syscall'' then ''bg-purple-600''
      else if js_includes stateLower ''chan'' then ''bg-cyan-600''
      else if js_includes stateLower ''sync'' then ''bg-orange-600''
      else ''bg-gray-600'')"

definition formatGoroutineText :: "goroutine \<Rightarrow> string" where
  "formatGoroutineText g =
     (let header = (case g_duration g of
                      Some d \<Rightarrow>
                        if d \<noteq> [] then ''goroutine '' @ g_id g @ '' ['' @ g_state g @ '', '' @ d @ '']:''
                        else ''goroutine '' @ g_id g @ '' ['' @ g_state g @ '']:''
                    | None \<Rightarrow> ''goroutine '' @ g_id g @ '' ['' @ g_state g @ '']:'')
      in header @ [char_of (10::nat)] @ g_stack g)"

section \<open>Lemmas: splitting\<close>

lemma split_markers_ne [simp]: "split_markers s \<noteq> []"
  by (cases s) (auto split: list.splits)

lemma concat_split_markers: "concat (split_markers s) = s"
  by (induction s) (auto split: list.splits)

text \<open>A line terminator is no character of a marker, so a marker does not reach across one.\<close>

lemma marker_across:
  assumes "line_terminator c" shows "marker (v @ c # r) \<longleftrightarrow> marker v"
proof (cases "length v \<ge> 11")
  case True
  then have "take 10 (v @ c # r) = take 10 v" "\<exists>x xs ys. drop 10 v = x # xs \<and> drop 10 (v @ c # r) = x # ys"
    by (auto simp: Cons_nth_drop_Suc [symmetric, of 10 v])
  then show ?thesis by (auto simp: marker_def)
next
  case False
  have no: "\<not> marker w" if "length w < 11" for w
    using that by (auto simp: marker_def split: list.splits)
  have plain: "x \<noteq> c" if "x \<in> set ''goroutine ''" for x
    using that assms by (auto simp: line_terminator_def code_of_def)
  have "\<not> marker (v @ c # r)"
  proof
    assume m: "marker (v @ c # r)"
    show False
    proof (cases "length v = 10")
      case True
      with m assms show False by (simp add: marker_def js_digit_def line_terminator_def)
    next
      case False
      with \<open>\<not> 11 \<le> length v\<close> have l: "length v < 10" by simp
      then have "take 10 (v @ c # r) ! length v = c" by (simp add: nth_append)
      moreover have "take 10 (v @ c # r) ! length v \<in> set (take 10 (v @ c # r))"
        using l by (intro nth_mem) simp
      ultimately show False using m plain by (metis marker_def)
    qed
  qed
  with no False show ?thesis by auto
qed

lemma split_at_marker:
  "\<lbrakk>line_terminator c; marker r; split_markers u = [u]\<rbrakk> \<Longrightarrow>
     split_markers (u @ c # r) = (u @ [c]) # split_markers r"
proof (induction u)
  case Nil
  then show ?case by (simp split: list.splits)
next
  case (Cons a u)
  from Cons.prems(3) have "split_markers u = [u]" "\<not> (line_terminator a \<and> marker u)"
    by (auto split: list.splits if_splits)
  with Cons show ?case by (simp add: marker_across)
qed

lemma split_markers_snoc:
  "line_terminator c \<Longrightarrow> split_markers u = [u] \<Longrightarrow> split_markers (u @ [c]) = [u @ [c]]"
proof (induction u)
  case (Cons a u)
  from Cons.prems(2) have "split_markers u = [u]" "\<not> (line_terminator a \<and> marker u)"
    by (auto split: list.splits if_splits)
  with Cons show ?case using marker_across [of c u "[]"] by simp
qed (simp add: marker_def)

lemma split_markers_plain:
  "\<forall>c \<in> set h. \<not> line_terminator c \<Longrightarrow> split_markers s = [s] \<Longrightarrow> split_markers (h @ s) = [h @ s]"
  by (induction h) auto

section \<open>Lemmas: headers\<close>

definition goroutine_header :: "goroutine \<Rightarrow> string" where
  "goroutine_header g =
     g_state g @ (case g_duration g of None \<Rightarrow> [] | Some d \<Rightarrow> '', '' @ d)"

text \<open>
  What a goroutine of a dump looks like: a number, a state without commas and brackets, a
  duration or remark without brackets, on one line, and a stack without white space around
  it, no line of which looks like a header.
\<close>

definition goroutine_wf :: "goroutine \<Rightarrow> bool" where
  "goroutine_wf g \<longleftrightarrow>
     g_id g \<noteq> [] \<and> list_all js_digit (g_id g)
     \<and> g_state g \<noteq> [] \<and> list_all (\<lambda>c. c \<noteq> CHR '']'' \<and> c \<noteq> CHR '','' \<and> \<not> line_terminator c) (g_state g)
     \<and> (case g_duration g of
          None \<Rightarrow> True
        | Some d \<Rightarrow> d \<noteq> [] \<and> \<not> js_space (hd d)
            \<and> list_all (\<lambda>c. c \<noteq> CHR '']'' \<and> \<not> line_terminator c) d)
     \<and> \<not> marker (g_stack g) \<and> split_markers (g_stack g) = [g_stack g]
     \<and> js_trim (g_stack g) = g_stack g"

lemma format_text:
  "goroutine_wf g \<Longrightarrow>
     formatGoroutineText g =
       ''goroutine '' @ g_id g @ '' ['' @ goroutine_header g @ '']:'' @ char_of (10::nat) # g_stack g"
  by (auto simp: formatGoroutineText_def goroutine_header_def goroutine_wf_def Let_def
      split: option.splits)

lemma header_chars:
  "goroutine_wf g \<Longrightarrow>
     goroutine_header g \<noteq> []
     \<and> (\<forall>c \<in> set (goroutine_header g). c \<noteq> CHR '']'' \<and> \<not> line_terminator c)"
proof -
  let ?ok = "\<lambda>c. c \<noteq> CHR '']'' \<and> \<not> line_terminator c"
  assume wf: "goroutine_wf g"
  have comma: "list_all ?ok '', ''" by (simp add: line_terminator_def code_of_def)
  have state: "g_state g \<noteq> []" "list_all ?ok (g_state g)"
    using wf by (simp_all add: goroutine_wf_def list_all_iff)
  have dur: "list_all ?ok d" if "g_duration g = Some d" for d
    using wf that by (simp add: goroutine_wf_def)
  show ?thesis
  proof (cases "g_duration g")
    case None
    with state show ?thesis by (simp add: goroutine_header_def list_all_iff)
  next
    case (Some d)
    have "list_all ?ok (g_state g @ '', '' @ d)"
      unfolding list_all_append using state(2) comma dur [OF Some] by blast
    then have "list_all ?ok (goroutine_header g)" by (simp only: goroutine_header_def Some option.case)
    moreover have "goroutine_header g \<noteq> []" using state(1) by (simp add: goroutine_header_def)
    ultimately show ?thesis by (simp only: list_all_iff) simp
  qed
qed

lemma header_match_text:
  assumes "i \<noteq> []" "list_all js_digit i" "info \<noteq> []" "CHR '']'' \<notin> set info"
  shows "header_match (''goroutine '' @ i @ '' ['' @ info @ '']:'' @ r) = Some (i, info)"
proof -
  have sp: "\<not> js_digit (CHR '' '')" by (simp add: js_digit_def code_of_def)
  have t: "takeWhile js_digit (i @ '' ['' @ info @ '']:'' @ r) = i"
    "dropWhile js_digit (i @ '' ['' @ info @ '']:'' @ r) = '' ['' @ info @ '']:'' @ r"
    using assms(2) sp by (simp_all add: list_all_iff takeWhile_append2 dropWhile_append2)
  have u: "takeWhile (\<lambda>c. c \<noteq> CHR '']'') (info @ '']:'' @ r) = info"
    "dropWhile (\<lambda>c. c \<noteq> CHR '']'') (info @ '']:'' @ r) = '']:'' @ r"
    using assms(4) by (auto simp: takeWhile_tail dropWhile_until)
  from t u assms(1,3) show ?thesis by (simp add: header_match_def Let_def)
qed

lemma duration_none: "CHR '','' \<notin> set s \<Longrightarrow> duration_match pre s = None"
  by (induction pre s rule: duration_match.induct) auto

lemma duration_some:
  "\<lbrakk>\<forall>c \<in> set s. c \<noteq> CHR '','' \<and> \<not> line_terminator c; pre @ s \<noteq> []; after_comma r = Some d\<rbrakk> \<Longrightarrow>
     duration_match pre (s @ CHR '','' # r) = Some (pre @ s, d)"
  by (induction s arbitrary: pre) auto

lemma after_comma_space:
  "d \<noteq> [] \<Longrightarrow> \<not> js_space (hd d) \<Longrightarrow> list_all (\<lambda>c. \<not> line_terminator c) d \<Longrightarrow>
     after_comma (CHR '' '' # d) = Some d"
  by (cases d) (auto simp: after_comma_def js_space_def code_of_def list_ex_iff list_all_iff)

lemma duration_header:
  "goroutine_wf g \<Longrightarrow>
     duration_match [] (goroutine_header g) =
       (case g_duration g of None \<Rightarrow> None | Some d \<Rightarrow> Some (g_state g, d))"
proof (cases "g_duration g")
  case None
  assume "goroutine_wf g"
  with None have "CHR '','' \<notin> set (goroutine_header g)"
    by (auto simp: goroutine_header_def goroutine_wf_def list_all_iff)
  with None show ?thesis by (simp add: duration_none)
next
  case (Some d)
  assume wf: "goroutine_wf g"
  then have "after_comma (CHR '' '' # d) = Some d"
    using Some by (intro after_comma_space) (auto simp: goroutine_wf_def list_all_iff)
  moreover have "goroutine_header g = g_state g @ CHR '','' # CHR '' '' # d"
    using Some by (simp add: goroutine_header_def)
  ultimately show ?thesis
    using wf Some duration_some [of "g_state g" "[]" "CHR '' '' # d" d]
    by (simp add: goroutine_wf_def list_all_iff)
qed

lemma lit_plain:
  "list_all (\<lambda>c. \<not> line_terminator c) ''goroutine ''" "list_all (\<lambda>c. \<not> line_terminator c) '' [''"
  "list_all (\<lambda>c. \<not> line_terminator c) '']:''"
  by (simp_all add: line_terminator_def code_of_def)

lemma text_line:
  assumes "goroutine_wf g"
  shows "\<forall>c \<in> set (''goroutine '' @ g_id g @ '' ['' @ goroutine_header g @ '']:''). \<not> line_terminator c"
proof -
  have digits: "list_all js_digit (g_id g)" using assms by (simp add: goroutine_wf_def)
  then have "list_all (\<lambda>c. \<not> line_terminator c) (g_id g)"
    by (auto simp: list_all_iff js_digit_def line_terminator_def)
  moreover have "list_all (\<lambda>c. \<not> line_terminator c) (goroutine_header g)"
    using header_chars [OF assms] by (simp add: list_all_iff)
  ultimately have "list_all (\<lambda>c. \<not> line_terminator c)
      (''goroutine '' @ g_id g @ '' ['' @ goroutine_header g @ '']:'')"
    unfolding list_all_append using lit_plain by blast
  then show ?thesis by (simp only: list_all_iff)
qed

lemma parse_text:
  assumes "goroutine_wf g" and "set w \<subseteq> {char_of (10::nat)}"
  shows "parse_goroutine (formatGoroutineText g @ w) = g"
proof -
  let ?nl = "char_of (10::nat)" and ?h = "''goroutine '' @ g_id g @ '' ['' @ goroutine_header g @ '']:''"
  have body: "formatGoroutineText g @ w = ?h @ ?nl # g_stack g @ w"
    using assms(1) by (simp add: format_text)
  have m: "header_match (formatGoroutineText g @ w) = Some (g_id g, goroutine_header g)"
    using header_match_text [of "g_id g" "goroutine_header g" "?nl # g_stack g @ w"]
      header_chars [OF assms(1)] assms(1)
    by (auto simp: body goroutine_wf_def)
  have nl: "line_terminator ?nl" "js_space ?nl" "\<not> js_digit ?nl"
    by (simp_all add: line_terminator_def js_space_def js_digit_def code_of_def)
  have free: "?nl \<notin> set ?h" using text_line [OF assms(1)] nl(1) by blast
  have "tl (js_split ?nl (formatGoroutineText g @ w)) = js_split ?nl (g_stack g @ w)"
    unfolding body js_split_append [OF free] by (rule list.sel(3))
  then have "js_trim (js_join [?nl] (tl (js_split ?nl (formatGoroutineText g @ w)))) = js_trim (g_stack g @ w)"
    by (simp only: js_join_split)
  also have "\<dots> = g_stack g"
    using js_trim_pad_right [of w "g_stack g"] assms nl(2) by (auto simp: goroutine_wf_def)
  finally have stack: "js_trim (js_join [?nl] (tl (js_split ?nl (formatGoroutineText g @ w)))) = g_stack g" .
  have "g_duration g = None \<Longrightarrow> goroutine_header g = g_state g" by (simp add: goroutine_header_def)
  with stack duration_header [OF assms(1)] show ?thesis
    unfolding parse_goroutine_def m by (simp add: Let_def split: option.splits)
qed

lemma marker_text: "goroutine_wf g \<Longrightarrow> marker (formatGoroutineText g @ r)"
  by (cases "g_id g") (auto simp: format_text marker_def goroutine_wf_def)

lemma split_text: "goroutine_wf g \<Longrightarrow> split_markers (formatGoroutineText g) = [formatGoroutineText g]"
proof -
  let ?nl = "char_of (10::nat)"
  assume wf: "goroutine_wf g"
  have "split_markers (?nl # g_stack g) = [?nl # g_stack g]"
    using wf by (simp add: goroutine_wf_def)
  from split_markers_plain [OF text_line [OF wf] this] show ?thesis
    using wf by (simp only: format_text append_assoc)
qed

text \<open>Goroutines are separated by an empty line, as the Go runtime prints them.\<close>

definition dump_text :: "goroutine list \<Rightarrow> string" where
  "dump_text gs = js_join [char_of (10::nat), char_of (10::nat)] (map formatGoroutineText gs)"

lemma dump_cons:
  "dump_text (g # h # gs) =
     (formatGoroutineText g @ [char_of (10::nat)]) @ char_of (10::nat) # dump_text (h # gs)"
  by (simp add: dump_text_def)

lemma parts_of_dump:
  "\<forall>g \<in> set gs. goroutine_wf g \<Longrightarrow> gs \<noteq> [] \<Longrightarrow>
     \<exists>ws. split_markers (dump_text gs) = map2 (\<lambda>g w. formatGoroutineText g @ w) gs ws
       \<and> length ws = length gs \<and> (\<forall>w \<in> set ws. set w \<subseteq> {char_of (10::nat)})"
proof (induction gs)
  case (Cons g gs)
  let ?nl = "char_of (10::nat)"
  have nl: "line_terminator ?nl" by (simp add: line_terminator_def code_of_def)
  have wf: "goroutine_wf g" using Cons.prems by simp
  show ?case
  proof (cases gs)
    case Nil
    have "split_markers (dump_text [g]) = map2 (\<lambda>g w. formatGoroutineText g @ w) [g] [[]]"
      using split_text [OF wf] by (simp add: dump_text_def)
    then show ?thesis unfolding Nil by (intro exI [of _ "[[]]"]) simp
  next
    case more: (Cons h hs)
    from more Cons.IH Cons.prems obtain ws where
      ws: "split_markers (dump_text gs) = map2 (\<lambda>g w. formatGoroutineText g @ w) gs ws"
        "length ws = length gs" "\<forall>w \<in> set ws. set w \<subseteq> {?nl}" by auto
    have "\<exists>r. dump_text gs = formatGoroutineText h @ r"
      unfolding more dump_text_def by (cases hs) auto
    then have "marker (dump_text gs)" using marker_text Cons.prems more by auto
    moreover have "split_markers (formatGoroutineText g @ [?nl]) = [formatGoroutineText g @ [?nl]]"
      by (rule split_markers_snoc [OF nl split_text [OF wf]])
    ultimately have "split_markers ((formatGoroutineText g @ [?nl]) @ ?nl # dump_text gs) =
        ((formatGoroutineText g @ [?nl]) @ [?nl]) # split_markers (dump_text gs)"
      using nl by (intro split_at_marker)
    then have "split_markers (dump_text (g # gs)) =
        map2 (\<lambda>g w. formatGoroutineText g @ w) (g # gs) ([?nl, ?nl] # ws)"
      using ws(1) unfolding more dump_cons by simp
    with ws show ?thesis by (intro exI [of _ "[?nl, ?nl] # ws"]) simp
  qed
qed simp

text \<open>
  C30. A goroutine dump is read back exactly: formatting any well-formed goroutines as the
  runtime does, separated by empty lines, and parsing the text gives the same list of
  identifiers, states, durations and stacks, in order; what the copy button puts on the
  clipboard for one of them parses to it again.
\<close>

theorem goroutine_dump_roundtrip:
  assumes "\<forall>g \<in> set gs. goroutine_wf g"
  shows "parseGoroutines (dump_text gs) = gs"
proof (cases "gs = []")
  case False
  from parts_of_dump [OF assms False] obtain ws where
    ws: "split_markers (dump_text gs) = map2 (\<lambda>g w. formatGoroutineText g @ w) gs ws"
      "length ws = length gs" "\<forall>w \<in> set ws. set w \<subseteq> {char_of (10::nat)}" by blast
  have "js_trim (formatGoroutineText g @ w) \<noteq> []" if "goroutine_wf g" for g w
  proof -
    have "CHR ''g'' \<in> set (formatGoroutineText g @ w)" using that by (simp add: format_text)
    moreover have "\<not> js_space (CHR ''g'')" by (simp add: js_space_def code_of_def)
    ultimately show ?thesis unfolding js_trim_nonempty by blast
  qed
  then have "filter (\<lambda>part. js_trim part \<noteq> []) (map2 (\<lambda>g w. formatGoroutineText g @ w) gs ws) =
      map2 (\<lambda>g w. formatGoroutineText g @ w) gs ws"
    using assms by (auto simp: filter_id_conv dest!: set_zip_leftD)
  then have "parseGoroutines (dump_text gs) =
      map parse_goroutine (map2 (\<lambda>g w. formatGoroutineText g @ w) gs ws)"
    by (simp only: parseGoroutines_def ws(1))
  also have "\<dots> = gs"
    using ws(2,3) assms
  proof (induction gs ws rule: list_induct2')
    case (4 g gs w ws)
    then show ?case using parse_text [of g w] by simp
  qed simp_all
  finally show ?thesis .
qed (simp add: dump_text_def parseGoroutines_def js_trim_def)

definition sample_goroutines :: "goroutine list" where
  "sample_goroutines =
     [\<lparr>g_id = ''1'', g_state = ''IO wait'', g_duration = Some ''3 minutes'', g_stack = ''main.main()''\<rparr>,
      \<lparr>g_id = ''42'', g_state = ''running'', g_duration = None, g_stack = []\<rparr>]"

theorem goroutine_dump_roundtrip_witness:
  "parseGoroutines (dump_text sample_goroutines) = sample_goroutines"
proof (rule goroutine_dump_roundtrip)
  have "list_all goroutine_wf sample_goroutines" by code_simp
  then show "\<forall>g \<in> set sample_goroutines. goroutine_wf g" by (simp add: list_all_iff)
qed

end
