(* ===== verification/StatusView.thy ===== *)
theory StatusView
  imports ResultViews Goroutines
begin

text \<open>
  The views of the results of a command in \<open>components/CommandOutputsPanel.tsx\<close>, third part:
  goroutines, streams and status.
\<close>

section \<open>Goroutines\<close>

definition goroutine_card :: "goroutine \<Rightarrow> rendered" where
  "goroutine_card g =
     el ''div''
       [el ''div''
          [el ''span'' [str_node ''#'', str_node (g_id g)],
           ela ''span'' [(''className'', getStateColor (g_state g))] [str_node (g_state g)],
           (case g_duration g of
              None \<Rightarrow> Inr []
            | Some d \<Rightarrow> render_if (d \<noteq> []) (el ''span'' [str_node d])),
           ela ''button'' [(''onClick'', write_clipboard (formatGoroutineText g)),
               (''title'', ''Copy this goroutine'')]
             [el ''svg'' [el ''path'' []], str_node ''Copy'']],
        el ''div'' [GoStackTraceSyntaxHighlighter (g_stack g)]]"

definition GoroutinesResultsContent :: "jsv \<Rightarrow> rendered" where
  "GoroutinesResultsContent data =
     (let e = js_opt_prop data ''error'' in
      if truthy e then error_panel e
      else
        let stackTrace = (case data of JStr s \<Rightarrow> s | _ \<Rightarrow> []) in
        if stackTrace = [] then el ''p'' [str_node ''No goroutine data available.'']
        else
          let goroutines = parseGoroutines stackTrace in
          el ''div''
            [el ''div''
               [el ''h4'' [str_node ''Goroutines '',
                  el ''span'' [str_node ''('', str_node (show_nat (length goroutines)), str_node '')'']],
                ela ''button'' [(''onClick'', write_clipboard stackTrace), (''title'', ''Copy all goroutines'')]
                  [el ''svg'' [el ''path'' []], str_node ''Copy All'']],
             el ''div'' (map goroutine_card goroutines)])"

section \<open>Streams\<close>

definition waiting_message :: "string \<Rightarrow> string" where
  "waiting_message title =
     (if title = ''Logs'' then ''Waiting for logs...'' else ''Waiting for bus events...'')"

definition stream_text :: "string jsobj \<Rightarrow> string \<Rightarrow> string" where
  "stream_text streamData host = (case obj_get streamData host of None \<Rightarrow> [] | Some s \<Rightarrow> s)"

definition StreamResultsContent :: "string jsobj \<Rightarrow> string \<Rightarrow> bool \<Rightarrow> string \<Rightarrow> rendered" where
  "StreamResultsContent streamData selectedOutputHost isStreaming title =
     (let s = stream_text streamData selectedOutputHost in
      el ''div''
        [el ''div''
           [el ''h4'' [str_node title],
            render_if isStreaming (el ''div'' [el ''div'' [], el ''span'' [str_node ''Streaming...'']])],
         el ''div'' [el ''div''
           [CopyButton s True,
            el ''div'' [el ''pre''
              [str_node (if s = [] then waiting_message title else s),
               ela ''div'' [(''ref'', ''streamEndRef'')] []]]]]])"

section \<open>Status\<close>

definition field_or :: "string \<Rightarrow> jsv js_result \<Rightarrow> string \<Rightarrow> rendered" where
  "field_or label r dflt = exn_bind r (\<lambda>v. FieldRow label (js_or v (JStr dflt)))"

definition enabled_badge :: badge_props where
  "enabled_badge = badge\<lparr>trueLabel := ''Enabled'', falseLabel := ''Disabled''\<rparr>"

definition status_overview :: "jsv \<Rightarrow> rendered" where
  "status_overview data =
     el ''div''
       [field_or ''Version'' (js_prop data ''Version'') ''N/A'',
        exn_bind (js_prop data ''BackendState'') (\<lambda>st.
          FieldRow_node ''Backend State''
            (el ''span''
               [ela ''span'' [(''className'', if st = JStr ''Running'' then ''bg-green-500'' else ''bg-red-500'')] [],
                child (js_or st (JStr ''Unknown''))])),
        exn_bind (js_prop data ''TUN'') (\<lambda>v. FieldRow_node ''TUN'' (StatusBadge enabled_badge v)),
        field_or ''Tailnet'' (opt_dot (js_prop data ''CurrentTailnet'') ''Name'') ''N/A'',
        exn_bind (opt_dot (js_prop data ''CurrentTailnet'') ''MagicDNSEnabled'') (\<lambda>v.
          FieldRow_node ''MagicDNS'' (StatusBadge enabled_badge v)),
        exn_bind (js_prop data ''MagicDNSSuffix'') (\<lambda>v.
          FieldRow_class ''MagicDNS Suffix'' (js_or v (JStr ''N/A'')) MONO),
        and_then (some_items (js_prop data ''CertDomains'')) (\<lambda>_.
          exn_bind (js_prop data ''CertDomains'') (\<lambda>v.
            el ''div'' [ListSection_class ''Cert Domains'' v MONO]))]"

text \<open>The bullet, U+2022, stands as the character 149.\<close>

definition status_health :: "jsv \<Rightarrow> rendered" where
  "status_health data =
     and_then (some_items (js_prop data ''Health'')) (\<lambda>_.
       el ''div''
         [el ''h5'' [str_node ''Health Warnings''],
          el ''ul'' [map_child (js_prop data ''Health'') (\<lambda>w.
            el ''li'' [str_node [char_of (149 :: nat), CHR '' ''], child w])]])"

definition MONO_MEDIUM :: string where
  "MONO_MEDIUM = ''text-white font-medium font-mono''"

definition list_if :: "string \<Rightarrow> jsv \<Rightarrow> string \<Rightarrow> string \<Rightarrow> rendered" where
  "list_if label data key cls =
     and_then (some_items (js_prop data key)) (\<lambda>_.
       exn_bind (js_prop data key) (\<lambda>v. el ''div'' [ListSection_class label v cls]))"

definition tags_if :: "jsv \<Rightarrow> rendered" where
  "tags_if data =
     and_then (some_items (js_prop data ''Tags'')) (\<lambda>_.
       exn_bind (js_prop data ''Tags'') (\<lambda>v. el ''div'' [TagBadges v]))"

definition field :: "string \<Rightarrow> jsv js_result \<Rightarrow> rendered" where
  "field label r = exn_bind r (\<lambda>v. FieldRow label v)"

definition bytes_field :: "string \<Rightarrow> jsv js_result \<Rightarrow> rendered" where
  "bytes_field label r =
     exn_bind r (\<lambda>v. FieldRow label (JStr (formatBytes_of (js_or v (JNum 0)))))"

definition time_field :: "clock \<Rightarrow> string \<Rightarrow> jsv js_result \<Rightarrow> rendered" where
  "time_field clk label r = exn_bind r (\<lambda>v. FieldRow label (JStr (formatTimestamp clk v)))"

definition online_badge :: "string \<Rightarrow> badge_props" where
  "online_badge off =
     badge\<lparr>trueLabel := ''Online'', falseLabel := ''Offline'', trueColor := ''bg-green-600'', falseColor := off\<rparr>"

definition status_self :: "clock \<Rightarrow> jsv \<Rightarrow> rendered" where
  "status_self clk self =
     el ''div''
       [el ''div''
          [field ''Hostname'' (js_prop self ''HostName''),
           field ''DNS Name'' (js_prop self ''DNSName''),
           field ''OS'' (js_prop self ''OS''),
           exn_bind (js_prop self ''Online'') (\<lambda>v.
             FieldRow_node ''Status'' (StatusBadge (online_badge ''bg-red-600'') v)),
           field_if ''DERP Relay'' (js_prop self ''Relay''),
           mono_if ''Node ID'' (js_prop self ''ID'') MONO],
        list_if ''Tailscale IPs'' self ''TailscaleIPs'' MONO_MEDIUM,
        tags_if self,
        el ''div''
          [bytes_field ''Data Sent'' (js_prop self ''TxBytes''),
           bytes_field ''Data Received'' (js_prop self ''RxBytes''),
           time_field clk ''Created'' (js_prop self ''Created''),
           time_field clk ''Last Write'' (js_prop self ''LastWrite'')],
        exn_bind (js_prop self ''ExitNode'') (\<lambda>en.
        exn_bind (js_prop self ''ExitNodeOption'') (\<lambda>eno.
          and_then (Inr (js_or en eno)) (\<lambda>_. el ''div''
            [and_then (Inr en) (\<lambda>_. StatusBadge (badge\<lparr>trueLabel := ''Exit Node''\<rparr>) (JBool True)),
             and_then (Inr eno) (\<lambda>_.
               StatusBadge (badge\<lparr>trueLabel := ''Exit Node Option'', trueColor := ''bg-blue-600''\<rparr>) (JBool True))])))]"

definition status_user :: "jsv \<Rightarrow> rendered" where
  "status_user user =
     el ''div''
       [and_then (js_prop user ''ProfilePicURL'') (\<lambda>url.
          exn_bind (js_prop user ''DisplayName'') (\<lambda>name.
            ela ''img'' (js_attr ''src'' url @ js_attr ''alt'' name) [])),
        el ''div''
          [el ''p'' [child_of (js_prop user ''DisplayName'')],
           el ''p'' [child_of (js_prop user ''LoginName'')]]]"

definition status_peer :: "clock \<Rightarrow> jsv \<Rightarrow> rendered" where
  "status_peer clk peer =
     el ''div''
       [el ''div''
          [el ''div''
             [el ''p'' [child_of (js_prop peer ''HostName'')],
              el ''p'' [child_of (js_prop peer ''DNSName'')]],
           el ''div''
             [exn_bind (js_prop peer ''Online'') (\<lambda>v. StatusBadge (online_badge ''bg-gray-600'') v),
              and_then (js_prop peer ''Active'') (\<lambda>_.
                StatusBadge (badge\<lparr>trueLabel := ''Active'', trueColor := ''bg-blue-600''\<rparr>) (JBool True))]],
        el ''div''
          [field ''OS'' (js_prop peer ''OS''),
           field_if ''Relay'' (js_prop peer ''Relay''),
           field_if ''Direct'' (js_prop peer ''CurAddr''),
           time_field clk ''Last Seen'' (js_prop peer ''LastSeen''),
           and_then (js_prop peer ''LastHandshake'') (\<lambda>v.
             render_if (v \<noteq> JStr zero_time) (FieldRow ''Handshake'' (JStr (formatTimestamp clk v)))),
           bytes_field ''TX'' (js_prop peer ''TxBytes''),
           bytes_field ''RX'' (js_prop peer ''RxBytes''),
           and_then (js_prop peer ''KeyExpiry'') (\<lambda>v.
             FieldRow ''Key Expiry'' (JStr (formatTimestamp clk v)))],
        list_if ''IPs'' peer ''TailscaleIPs'' MONO_MEDIUM,
        tags_if peer,
        list_if ''Routes'' peer ''PrimaryRoutes'' MONO_MEDIUM]"

definition counted_title :: "string \<Rightarrow> jsv js_result \<Rightarrow> rendered" where
  "counted_title title r =
     exn_bind r (\<lambda>v. exn_bind (js_keys v) (\<lambda>ks.
       el ''h4'' [str_node (title @ '' (''), str_node (show_nat (length ks)), str_node '')'']))"

definition StatusResultsContent :: "clock \<Rightarrow> jsv \<Rightarrow> rendered" where
  "StatusResultsContent clk data =
     unless_error data
       (el ''div''
          [el ''div''
             [el ''h4'' [str_node ''Overview''],
              status_overview data, status_health data,
              and_then (js_prop data ''Self'') (status_self clk)],
           and_then (some_keys (js_prop data ''User'')) (\<lambda>_. el ''div''
             [counted_title ''Users'' (js_prop data ''User''),
              el ''div'' [entries_child (js_prop data ''User'') (\<lambda>_ user. status_user user)]]),
           and_then (some_keys (js_prop data ''Peer'')) (\<lambda>_. el ''div''
             [counted_title ''Peers'' (js_prop data ''Peer''),
              el ''div'' [entries_child (js_prop data ''Peer'') (\<lambda>_ peer. status_peer clk peer)]])])"

end
