(* ===== verification/PprofViewer.thy ===== *)
theory PprofViewer
  imports UIComponents
begin

text \<open>
  \<open>components/PprofViewer.tsx\<close>: the download of a profile. The blob URL of the profile is a
  resource of the browser: the effect creates one when the data changes and its cleanup
  revokes it.
\<close>

section \<open>Names\<close>

definition type_labels :: "(string \<times> string) list" where
  "type_labels =
     [(''profile'', ''CPU Profile''), (''heap'', ''Heap Profile''), (''allocs'', ''Allocations Profile''),
      (''goroutine'', ''Goroutine Profile''), (''block'', ''Block Profile''), (''mutex'', ''Mutex Profile''),
      (''threadcreate'', ''Thread Create Profile''), (''trace'', ''Trace''), (''cmdline'', ''Command Line'')]"

definition getTypeLabel :: "string \<Rightarrow> string" where
  "getTypeLabel pprofType =
     (case map_of type_labels pprofType of Some l \<Rightarrow> l | None \<Rightarrow> ''Pprof - '' @ pprofType)"

definition getFileExtension :: "string \<Rightarrow> string" where
  "getFileExtension pprofType = (if pprofType = ''trace'' then ''trace'' else ''pprof'')"

section \<open>The blob URL\<close>

text \<open>
  The viewer holds its state \<open>profileUrl\<close>, the URL its last effect will revoke, and the
  browser the URLs that are alive.
\<close>

record viewer =
  profileUrl :: string
  cleanup_url :: "string option"
  live_urls :: "string set"

definition viewer_init :: "string set \<Rightarrow> viewer" where
  "viewer_init urls = \<lparr>profileUrl = [], cleanup_url = None, live_urls = urls\<rparr>"

definition viewer_cleanup :: "viewer \<Rightarrow> viewer" where
  "viewer_cleanup v =
     (case cleanup_url v of
        None \<Rightarrow> v
      | Some url \<Rightarrow>
          if url = [] then v\<lparr>cleanup_url := None\<rparr>
          else v\<lparr>cleanup_url := None, live_urls := live_urls v - {url}\<rparr>)"

text \<open>
  \<open>!data || data.error || !data.data\<close>; the component has read \<open>data.host\<close> before, so the
  data is neither \<open>undefined\<close> nor \<open>null\<close>.
\<close>

definition no_profile :: "jsv \<Rightarrow> bool" where
  "no_profile data \<longleftrightarrow>
     \<not> truthy data \<or> truthy (js_opt_prop data ''error'') \<or> \<not> truthy (js_opt_prop data ''data'')"

text \<open>The effect on new data, after the cleanup of the one before; \<open>url\<close> is the URL that
  \<open>createObjectURL\<close> returns.\<close>

definition viewer_effect :: "jsv \<Rightarrow> string \<Rightarrow> viewer \<Rightarrow> viewer" where
  "viewer_effect data url v =
     (let w = viewer_cleanup v in
      if no_profile data then w
      else w\<lparr>profileUrl := url, cleanup_url := Some url, live_urls := insert url (live_urls w)\<rparr>)"

definition viewer_unmount :: "viewer \<Rightarrow> viewer" where
  "viewer_unmount v = viewer_cleanup v"

section \<open>The view\<close>

definition file_name :: "string \<Rightarrow> string \<Rightarrow> string" where
  "file_name hostName pprofType = hostName @ ''-'' @ pprofType @ ''.'' @ getFileExtension pprofType"

definition pprof_command :: "string \<Rightarrow> string \<Rightarrow> string" where
  "pprof_command hostName pprofType =
     ''go tool pprof -http=:8000 '' @ file_name hostName pprofType"

text \<open>\<open>data.data?.byteLength ? formatBytes(data.data.byteLength) : ''\<close>\<close>

definition profile_size :: "jsv \<Rightarrow> string" where
  "profile_size d =
     (let n = js_opt_prop d ''byteLength'' in if truthy n then formatBytes_of n else [])"

definition PprofViewer_body :: "string \<Rightarrow> jsv \<Rightarrow> jsv \<Rightarrow> string \<Rightarrow> rendered" where
  "PprofViewer_body profile_url host pprof_type fileSize =
     (let hostName = to_str host; pprofType = to_str pprof_type;
          shown_name = [child host, str_node ''-'', child pprof_type, str_node ''.'',
            str_node (getFileExtension pprofType)] in
      el ''div'' [el ''div''
        [el ''h4'' [child host, str_node '' - '', str_node (getTypeLabel pprofType)],
         el ''div''
           [el ''p'' [str_node ''Profile data collected successfully. Download the file to analyze with your preferred tool.''],
            el ''div'' [ela ''a'' [(''href'', profile_url), (''download'', file_name hostName pprofType)]
              [el ''svg'' [el ''path'' []], str_node ''Download'']],
            el ''div''
              [el ''span'' [str_node ''Example:''],
               el ''code'' (str_node ''go tool pprof -http=:8000 '' # shown_name),
               ela ''button'' [(''onClick'', write_clipboard (pprof_command hostName pprofType)),
                   (''title'', ''Copy command'')] [el ''svg'' [el ''path'' []]]],
            el ''div''
              (shown_name @ [str_node '' '', render_if (fileSize \<noteq> []) (str_node (''('' @ fileSize @ '')''))])]]])"

definition PprofViewer :: "string \<Rightarrow> jsv \<Rightarrow> rendered" where
  "PprofViewer profile_url data =
     exn_bind (js_prop data ''host'') (\<lambda>host. exn_bind (js_prop data ''hostname'') (\<lambda>hostname.
     exn_bind (js_prop data ''pprofType'') (\<lambda>ty. exn_bind (js_prop data ''data'') (\<lambda>d.
       let hostName = js_or (js_or host hostname) (JStr ''unknown'');
           pprofType = js_or ty (JStr ''profile'');
           e = js_opt_prop data ''error'' in
       if truthy e then
         el ''div'' [el ''h5'' [str_node ''Error''], el ''p'' [child e]]
       else if \<not> truthy data \<or> \<not> truthy d then
         el ''div'' [el ''div'' [str_node ''Loading profile...'']]
       else PprofViewer_body profile_url hostName pprofType (profile_size d)))))"

section \<open>No blob URL leaks\<close>

text \<open>
  \<open>old\<close> are the URLs alive before the viewer was mounted.
\<close>

definition viewer_inv :: "string set \<Rightarrow> viewer \<Rightarrow> bool" where
  "viewer_inv old v \<longleftrightarrow>
     (case cleanup_url v of
        None \<Rightarrow> live_urls v = old
      | Some u \<Rightarrow> u \<noteq> [] \<and> u \<notin> old \<and> live_urls v = insert u old \<and> profileUrl v = u)"

inductive viewer_step :: "viewer \<Rightarrow> jsv \<times> string \<Rightarrow> viewer \<Rightarrow> bool" where
  viewer_new_data: "url \<noteq> [] \<Longrightarrow> url \<notin> live_urls v \<Longrightarrow> viewer_step v (data, url) (viewer_effect data url v)"

lemma viewer_inv_cleanup: "viewer_inv old v \<Longrightarrow> live_urls (viewer_cleanup v) = old
    \<and> cleanup_url (viewer_cleanup v) = None"
  by (auto simp: viewer_inv_def viewer_cleanup_def split: option.splits)

lemma viewer_old: "viewer_inv old v \<Longrightarrow> old \<subseteq> live_urls v"
  by (auto simp: viewer_inv_def split: option.splits)

lemma viewer_inv_step: "viewer_inv old v \<Longrightarrow> viewer_step v e w \<Longrightarrow> viewer_inv old w"
  using viewer_inv_cleanup [of old v] viewer_old [of old v]
  by (auto simp: viewer_effect_def viewer_inv_def Let_def elim!: viewer_step.cases)

interpretation viewer: step_invariant viewer_step "\<lambda>v. v = viewer_init old" "viewer_inv old"
  by unfold_locales (simp add: viewer_init_def viewer_inv_def, rule viewer_inv_step)

text \<open>
  Whatever data the viewer is given in turn, the URL it offers is alive while it shows a
  profile, and once it is unmounted every URL it created has been revoked.\<close>

lemma viewer_no_leak:
  assumes "run viewer_step (viewer_init old) (es @ [(data, url)]) v"
  shows "live_urls (viewer_unmount v) = old \<and>
    (\<not> no_profile data \<longrightarrow> profileUrl v = url \<and> url \<in> live_urls v)"
proof -
  have "viewer_inv old v" using viewer.inv_reach [OF refl assms] .
  moreover have "\<exists>w. v = viewer_effect data url w"
    using run_snocE [OF assms] by (auto elim: viewer_step.cases)
  ultimately show ?thesis
    by (auto simp: viewer_unmount_def viewer_inv_cleanup viewer_effect_def Let_def)
qed

lemma viewer_no_leak_example:
  "live_urls (viewer_unmount (viewer_effect (JObj [(''data'', JBuf ''p'')]) ''blob:2''
      (viewer_effect (JObj [(''data'', JBuf ''p'')]) ''blob:1'' (viewer_init {''blob:0''})))) = {''blob:0''}"
proof -
  let ?d = "JObj [(''data'', JBuf ''p'')]"
  let ?v1 = "viewer_effect ?d ''blob:1'' (viewer_init {''blob:0''})"
  have new: "''blob:2'' \<notin> live_urls ?v1"
    by (simp add: viewer_effect_def viewer_cleanup_def viewer_init_def Let_def)
  have "viewer_step (viewer_init {''blob:0''}) (?d, ''blob:1'') ?v1"
    by (rule viewer_new_data) (simp_all add: viewer_init_def)
  moreover have "viewer_step ?v1 (?d, ''blob:2'') (viewer_effect ?d ''blob:2'' ?v1)"
    by (rule viewer_new_data) (simp_all add: new)
  ultimately have "run viewer_step (viewer_init {''blob:0''}) ([(?d, ''blob:1'')] @ [(?d, ''blob:2'')])
      (viewer_effect ?d ''blob:2'' ?v1)"
    by (auto intro: run.intros)
  from viewer_no_leak [OF this] show ?thesis by blast
qed

end
