(* ===== verification/OutputPanel.thy ===== *)
theory OutputPanel
  imports ServeViews StatusView PprofViewer AppState
begin

text \<open>
  \<open>CommandOutputsPanel\<close>: the tabs of the hosts, and for the selected host its error, its raw
  JSON, or the view of the last command. The clock, the version of the build and the blob URL
  of the profile viewer are arguments.
\<close>

record page_context =
  pc_clock :: clock
  pc_version :: string
  pc_profile_url :: string
  pc_redact :: bool \<comment> \<open>\<open>REDACT_NODE_TITLES\<close>\<close>
  pc_collapsed :: "string list" \<comment> \<open>sections of the context menu\<close>

section \<open>The view of a command\<close>

definition result_view :: "page_context \<Rightarrow> app \<Rightarrow> string \<Rightarrow> jsv \<Rightarrow> rendered" where
  "result_view pc a host data =
     (let c = lastCommand a; w = app_stream a in
      if c = ''Ping'' then PingResultsContent data
      else if c = ''Query DNS'' then QueryDNSResultsContent data
      else if c = ''Pprof'' then PprofViewer (pc_profile_url pc) data
      else if c = ''Prefs'' then PrefsResultsContent data
      else if c = ''Drive Shares'' then DriveSharesResultsContent data
      else if c = ''DNS Config'' then DNSConfigResultsContent data
      else if c = ''Serve Config'' then ServeConfigResultsContent data
      else if c = ''AppConn Routes'' then AppConnRoutesResultsContent data
      else if c = ''Goroutines'' then GoroutinesResultsContent data
      else if c = ''Logs'' then StreamResultsContent (streamData w) host (isStreaming w) ''Logs''
      else if c = ''Bus Events'' then StreamResultsContent (streamData w) host (isStreaming w) ''Bus Events''
      else StatusResultsContent (pc_clock pc) data)"

definition host_view :: "page_context \<Rightarrow> app \<Rightarrow> string \<Rightarrow> jsv \<Rightarrow> rendered" where
  "host_view pc a host data =
     exn_bind (js_prop data ''error'') (\<lambda>e.
       el ''div''
         [if truthy e then el ''div'' [str_node ''Error: '', child e]
          else if showRawJson a then
            el ''div'' [CopyButton (json_stringify data) True, JsonSyntaxHighlighter data]
          else result_view pc a host data])"

definition centered :: "string \<Rightarrow> rendered" where
  "centered s = el ''div'' [el ''p'' [str_node s]]"

text \<open>The data of the selected host, where it is truthy.\<close>

definition selected_data :: "app \<Rightarrow> (string \<times> jsv) option" where
  "selected_data a =
     (case selectedOutputHost a of
        None \<Rightarrow> None
      | Some h \<Rightarrow>
          if h = [] then None
          else (case obj_get (outputData a) h of
                  None \<Rightarrow> None
                | Some d \<Rightarrow> if truthy d then Some (h, d) else None))"

definition panel_content :: "page_context \<Rightarrow> app \<Rightarrow> rendered" where
  "panel_content pc a =
     (if statusLoading a then centered ''Loading...''
      else if length (obj_keys (outputData a)) = 0
      then centered ''No command output yet. Run a command to see results.''
      else case selected_data a of
             Some (h, d) \<Rightarrow> host_view pc a h d
           | None \<Rightarrow> Inr [])"

section \<open>The panel\<close>

definition panel_header :: "app \<Rightarrow> rendered" where
  "panel_header a =
     (let small = isMinimized (app_panel a) in
      el ''div''
        [el ''div''
           [el ''h3'' [str_node ''Command Outputs'',
              render_if (lastCommand a \<noteq> []) (el ''span'' [str_node ''- '', str_node (lastCommand a)])],
            render_if (isStreaming (app_stream a))
              (ela ''button'' [(''onClick'', ''cancelStreaming'')] [str_node ''Cancel''])],
         el ''div''
           [ToggleSwitch (showRawJson a) ''setShowRawJson'' ''Raw JSON'',
            ela ''button''
              [(''onClick'', ''toggleMinimizePanel''),
               (''title'', if small then ''Restore panel'' else ''Minimize panel'')]
              [el ''svg'' [ela ''path''
                [(''d'', if small then ''M5 15l7-7 7 7'' else ''M19 9l-7 7-7-7'')] []]]]])"

definition panel_tabs :: "app \<Rightarrow> rendered" where
  "panel_tabs a =
     render_if (length (obj_keys (outputData a)) > 0)
       (el ''div'' (map (\<lambda>hostId.
          ela ''button''
            [(''onClick'', ''setSelectedOutputHost '' @ hostId),
             (''className'', if selectedOutputHost a = Some hostId
                then ''text-white bg-gray-900 border-b-2 border-green-500''
                else ''text-gray-400 hover:text-white hover:bg-gray-700'')]
            [str_node hostId]) (obj_keys (outputData a))))"

definition LEGEND :: "(string list \<times> string) list" where
  "LEGEND =
     [([''W'', ''A'', ''S'', ''D''], ''Pan''), ([''R''], ''Reset''), ([''F''], ''Fit to view''),
      ([''Esc''], ''Close menus''), ([''~''], ''Cycle layouts''), ([''Tab''], ''Cycle outputs''),
      ([''Space''], ''Toggle panel''), ([''Scroll''], ''Zoom''), ([''L-Drag''], ''Rotate/Move''),
      ([''R-Drag''], ''Pan''), ([''R-Click''], ''Context'')]"

definition panel_legend :: "string \<Rightarrow> rendered" where
  "panel_legend version =
     el ''div''
       [el ''div'' (map (\<lambda>(keys, label). ControlLegendItem keys label) LEGEND),
        el ''span'' [str_node version]]"

definition CommandOutputsPanel :: "page_context \<Rightarrow> app \<Rightarrow> rendered" where
  "CommandOutputsPanel pc a =
     ela ''div''
       [(''className'', if sidebarOpen a then ''left-120'' else ''left-12''),
        (''style'', ''height: '' @ show_int (statusPanelHeight (app_panel a)) @ ''px'')]
       [ela ''div''
          [(''className'', if isDragging (app_panel a) then ''bg-green-500'' else ''bg-gray-700 hover:bg-gray-600''),
           (''onMouseDown'', ''handleResizeStart'')] [el ''div'' []],
        panel_header a,
        panel_tabs a,
        el ''div'' [panel_content pc a],
        panel_legend (pc_version pc)]"

section \<open>Rendering of the frame\<close>

lemma renders_panel_header: "renders (panel_header a)"
  unfolding panel_header_def Let_def by (intro render_intros)

lemma renders_panel_tabs: "renders (panel_tabs a)"
  unfolding panel_tabs_def by (intro render_intros)

lemma renders_panel_legend: "renders (panel_legend v)"
  unfolding panel_legend_def case_prod_beta by (intro render_intros)

text \<open>The panel renders when the view of the selected host does.\<close>

lemma renders_panel:
  assumes "\<And>h d. selected_data a = Some (h, d) \<Longrightarrow> \<not> statusLoading a \<Longrightarrow> renders (host_view pc a h d)"
  shows "renders (CommandOutputsPanel pc a)"
proof -
  have "renders (panel_content pc a)"
    using assms unfolding panel_content_def centered_def
    by (auto intro!: render_intros split: option.splits)
  then show ?thesis
    unfolding CommandOutputsPanel_def
    by (intro render_intros renders_panel_header renders_panel_tabs renders_panel_legend)
qed

lemma selected_truthy: "selected_data a = Some (h, d) \<Longrightarrow> truthy d \<and> obj_get (outputData a) h = Some d"
  by (auto simp: selected_data_def split: option.splits if_splits)

end
