(* ===== verification/ApiTypes.thy ===== *)
theory ApiTypes
  imports JsValue
begin

text \<open>
  The types of \<open>api.ts\<close> as data, and what it means for a JSON value to have one. TypeScript
  checks them nowhere at run time: an answer of the server is taken to have its type. An object
  type is open, other properties may be present.
\<close>

section \<open>Types\<close>

datatype ty =
    TAny
  | TBool
  | TNum
  | TStr
  | TNull
  | TArr ty
  | TRec ty \<comment> \<open>\<open>Record<string, t>\<close>\<close>
  | TObj "(string \<times> bool \<times> ty) list" \<comment> \<open>the flag says that the property is optional\<close>
  | TOr ty ty

fun has_type :: "ty \<Rightarrow> jsv \<Rightarrow> bool" where
  "has_type TAny v = True"
| "has_type TBool v = (case v of JBool _ \<Rightarrow> True | _ \<Rightarrow> False)"
| "has_type TNum v = (case v of JNum _ \<Rightarrow> True | _ \<Rightarrow> False)"
| "has_type TStr v = (case v of JStr _ \<Rightarrow> True | _ \<Rightarrow> False)"
| "has_type TNull v = (v = JNull)"
| "has_type (TArr t) v = (case v of JArr xs \<Rightarrow> list_all (has_type t) xs | _ \<Rightarrow> False)"
| "has_type (TRec t) v = (case v of JObj m \<Rightarrow> list_all (\<lambda>(k, w). has_type t w) m | _ \<Rightarrow> False)"
| "has_type (TObj fs) v =
     (case v of
        JObj m \<Rightarrow>
          list_all (\<lambda>(k, opt, t).
            case obj_get m k of None \<Rightarrow> opt | Some w \<Rightarrow> (opt \<and> w = JUndef) \<or> has_type t w) fs
      | _ \<Rightarrow> False)"
| "has_type (TOr s t) v = (has_type s v \<or> has_type t v)"

definition req :: "string \<Rightarrow> ty \<Rightarrow> string \<times> bool \<times> ty" where
  "req k t = (k, False, t)"

definition opt :: "string \<Rightarrow> ty \<Rightarrow> string \<times> bool \<times> ty" where
  "opt k t = (k, True, t)"

definition or_null :: "ty \<Rightarrow> ty" where
  "or_null t = TOr t TNull"

section \<open>The interfaces\<close>

definition PeerNodeData :: ty where
  "PeerNodeData = TObj
     [req ''Active'' TBool, req ''Addrs'' (or_null (TArr TStr)), req ''AllowedIPs'' (TArr TStr),
      opt ''CapMap'' (TRec (or_null (TArr TAny))), req ''Created'' TStr, req ''CurAddr'' TStr,
      req ''DNSName'' TStr, req ''ExitNode'' TBool, req ''ExitNodeOption'' TBool, req ''HostName'' TStr,
      req ''ID'' TStr, req ''InEngine'' TBool, req ''InMagicSock'' TBool, req ''InNetworkMap'' TBool,
      opt ''KeyExpiry'' TStr, req ''LastHandshake'' TStr, req ''LastSeen'' TStr, req ''LastWrite'' TStr,
      req ''NoFileSharingReason'' TStr, req ''OS'' TStr, req ''Online'' TBool,
      req ''PeerAPIURL'' (TArr TStr), req ''PeerRelay'' TStr, opt ''PrimaryRoutes'' (TArr TStr),
      req ''PublicKey'' TStr, req ''Relay'' TStr, req ''RxBytes'' TNum, opt ''Tags'' (TArr TStr),
      req ''TaildropTarget'' TNum, req ''TailscaleIPs'' (TArr TStr), req ''TxBytes'' TNum,
      req ''UserID'' TNum]"

definition PeerNode :: ty where
  "PeerNode = TObj [req ''id'' TStr, req ''label'' TStr, req ''data'' PeerNodeData]"

definition PeerEdge :: ty where
  "PeerEdge = TObj [req ''id'' TStr, req ''source'' TStr, req ''target'' TStr]"

definition PeermapResponse :: ty where
  "PeermapResponse =
     TObj [req ''edges'' (TArr PeerEdge), req ''hosts'' (TArr TStr), req ''nodes'' (TArr PeerNode)]"

definition StatusData :: ty where
  "StatusData = TObj
     [opt ''Self'' (TObj [opt ''HostName'' TStr]), opt ''Peer'' (TRec TAny), opt ''User'' (TRec TAny),
      opt ''Version'' TStr, opt ''BackendState'' TStr, opt ''TUN'' TBool,
      opt ''CurrentTailnet''
        (TObj [opt ''Name'' TStr, opt ''MagicDNSEnabled'' TBool, opt ''MagicDNSSuffix'' TStr]),
      opt ''Health'' (TArr TStr), opt ''TailscaleIPs'' (TArr TStr), opt ''MagicDNSSuffix'' TStr,
      opt ''CertDomains'' (TArr TStr), opt ''HaveNodeKey'' TBool, opt ''AuthURL'' TStr]"

definition PingResult :: ty where
  "PingResult = TObj [req ''host'' TStr, req ''target'' TStr, req ''results'' (TArr TAny)]"

definition QueryDNSResult :: ty where
  "QueryDNSResult = TObj
     [req ''host'' TStr, opt ''error'' TStr, opt ''header'' TAny, opt ''responses'' (TArr TAny),
      opt ''resolvers'' (TArr TAny)]"

definition PrefsData :: ty where
  "PrefsData = TObj
     [opt ''Hostname'' TStr, opt ''AdvertiseRoutes'' (TArr TStr),
      opt ''AdvertiseServices'' (or_null (TArr TStr)), opt ''AdvertiseTags'' (or_null (TArr TStr)),
      opt ''ControlURL'' TStr, opt ''CorpDNS'' TBool, opt ''ExitNodeAllowLANAccess'' TBool,
      opt ''ExitNodeID'' TStr, opt ''ForceDaemon'' TBool, opt ''LoggedOut'' TBool,
      opt ''NetfilterMode'' TNum, opt ''NoSNAT'' TBool, opt ''NoStatefulFiltering'' TBool,
      opt ''RouteAll'' TBool, opt ''RunSSH'' TBool, opt ''RunWebClient'' TBool, opt ''ShieldsUp'' TBool,
      opt ''WantRunning'' TBool,
      opt ''AutoUpdate'' (TObj [opt ''Apply'' (or_null TBool), opt ''Check'' TBool]),
      opt ''AppConnector'' (TObj [opt ''Advertise'' TBool]),
      opt ''Persist'' (TObj
        [opt ''NodeID'' TStr,
         opt ''UserProfile'' (TObj
           [opt ''DisplayName'' TStr, opt ''ID'' TNum, opt ''LoginName'' TStr, opt ''ProfilePicURL'' TStr])])]"

definition DriveShare :: ty where
  "DriveShare = TObj [opt ''Name'' TStr, opt ''Path'' TStr, opt ''Who'' TStr, opt ''BookmarkData'' TStr]"

definition DNSOSConfig :: ty where
  "DNSOSConfig = TObj
     [opt ''Nameservers'' (TArr TStr), opt ''SearchDomains'' (TArr TStr), opt ''MatchDomains'' (TArr TStr)]"

definition TCPPortHandler :: ty where
  "TCPPortHandler = TObj
     [opt ''HTTPS'' TBool, opt ''HTTP'' TBool, opt ''TCPForward'' TStr, opt ''TerminateTLS'' TStr]"

definition WebHandler :: ty where
  "WebHandler = TObj [opt ''Path'' TStr, opt ''Proxy'' TStr, opt ''Text'' TStr]"

definition WebServerConfig :: ty where
  "WebServerConfig = TObj [opt ''Handlers'' (TRec WebHandler)]"

definition ServiceConfig :: ty where
  "ServiceConfig = TObj [opt ''TCP'' (TRec TCPPortHandler), opt ''Web'' (TRec WebServerConfig)]"

text \<open>The type is recursive through the foreground sessions: \<open>n\<close> is the depth that is described.\<close>

fun ServeConfig :: "nat \<Rightarrow> ty" where
  "ServeConfig n = TObj
     [opt ''TCP'' (or_null (TRec TCPPortHandler)), opt ''Web'' (or_null (TRec WebServerConfig)),
      opt ''Services'' (or_null (TRec ServiceConfig)), opt ''AllowFunnel'' (or_null (TRec TBool)),
      opt ''Foreground'' (or_null (TRec (case n of 0 \<Rightarrow> TAny | Suc m \<Rightarrow> ServeConfig m))),
      opt ''ETag'' TStr]"

declare ServeConfig.simps [simp del]

definition RouteInfo :: ty where
  "RouteInfo = TObj
     [opt ''Control'' (or_null (TArr TStr)), opt ''Domains'' (or_null (TRec (TArr TStr))),
      opt ''Wildcards'' (or_null (TArr TStr))]"

definition HostResult :: "ty \<Rightarrow> ty" where
  "HostResult t = TObj [req ''host'' TStr, opt ''error'' TStr, opt ''result'' t]"

section \<open>Reading a typed object\<close>

text \<open>What a property of a typed object holds.\<close>

fun field_val :: "ty \<Rightarrow> string \<Rightarrow> jsv \<Rightarrow> bool" where
  "field_val (TObj fs) k w =
     (case map_of fs k of None \<Rightarrow> True | Some (optional, t) \<Rightarrow> (optional \<and> w = JUndef) \<or> has_type t w)"
| "field_val _ k w = True"

text \<open>\<open>ok r P\<close>: the reading \<open>r\<close> does not throw, and gives a value with \<open>P\<close>.\<close>

definition ok :: "'a js_result \<Rightarrow> ('a \<Rightarrow> bool) \<Rightarrow> bool" where
  "ok r P \<longleftrightarrow> (\<exists>w. r = Inr w \<and> P w)"

lemma typed_prop: "has_type (TObj fs) d \<Longrightarrow> ok (js_prop d k) (field_val (TObj fs) k)"
proof -
  assume t: "has_type (TObj fs) d"
  then obtain m where d: "d = JObj m" by (auto split: jsv.splits)
  have "field_val (TObj fs) k (case obj_get m k of None \<Rightarrow> JUndef | Some v \<Rightarrow> v)"
    using t by (auto simp: d list_all_iff dest!: map_of_SomeD split: option.splits)
  then show ?thesis by (simp add: ok_def d)
qed

lemma has_type_simps:
  "has_type TBool v \<longleftrightarrow> (\<exists>b. v = JBool b)"
  "has_type TNum v \<longleftrightarrow> (\<exists>n. v = JNum n)"
  "has_type TStr v \<longleftrightarrow> (\<exists>s. v = JStr s)"
  "has_type (TArr t) v \<longleftrightarrow> (\<exists>xs. v = JArr xs \<and> (\<forall>x \<in> set xs. has_type t x))"
  "has_type (TRec t) v \<longleftrightarrow> (\<exists>m. v = JObj m \<and> (\<forall>(k, w) \<in> set m. has_type t w))"
  "has_type (or_null t) v \<longleftrightarrow> has_type t v \<or> v = JNull"
  by (cases v; auto simp: list_all_iff or_null_def)+

lemma object_truthy: "has_type (TObj fs) v \<Longrightarrow> truthy v"
  by (cases v) auto

end
