(* ===== verification/ViewTypes.thy ===== *)
theory ViewTypes
  imports OutputPanel ApiTypes
begin

text \<open>
  Type soundness of the views: data of the type that \<open>api.ts\<close> declares renders without an
  exception. For the values that \<open>api.ts\<close> leaves open (\<open>any\<close>) the types below say what the
  views rely on.
\<close>

section \<open>Rendering of what is read\<close>

lemma renders_ok: "ok r P \<Longrightarrow> (\<And>w. P w \<Longrightarrow> renders (f w)) \<Longrightarrow> renders (exn_bind r f)"
  by (auto simp: ok_def)

lemma renders_and_ok: "ok r P \<Longrightarrow> (\<And>w. P w \<Longrightarrow> truthy w \<Longrightarrow> renders (f w)) \<Longrightarrow> renders (and_then r f)"
  by (auto simp: ok_def intro: renders_and_then)

lemma renders_defined_ok:
  "ok r P \<Longrightarrow> (\<And>w. P w \<Longrightarrow> w \<noteq> JUndef \<Longrightarrow> renders (f w)) \<Longrightarrow> renders (if_defined r f)"
  by (auto simp: ok_def if_defined_def render_if_def renders_Inr)

lemma renders_child_ok: "ok r P \<Longrightarrow> (\<And>w. P w \<Longrightarrow> showable w) \<Longrightarrow> renders (child_of r)"
  by (auto simp: ok_def child_of_def renders_child)

lemma some_items_cases: "ok r P \<Longrightarrow> \<exists>w. r = Inr w \<and> P w \<and>
    (\<not> truthy w \<and> some_items r = Inr w \<or> truthy w \<and> (\<exists>b. some_items r = Inr (JBool b)))"
proof -
  assume "ok r P"
  then obtain w where w: "r = Inr w" "P w" by (auto simp: ok_def)
  then have "truthy w \<Longrightarrow> \<exists>b. some_items r = Inr (JBool b)"
    by (cases w) (auto simp: some_items_def)
  with w show ?thesis by (auto simp: some_items_def)
qed

lemma some_keys_cases: "ok r P \<Longrightarrow> \<exists>w. r = Inr w \<and> P w \<and>
    (\<not> truthy w \<and> some_keys r = Inr w \<or> truthy w \<and> (\<exists>b. some_keys r = Inr (JBool b)))"
proof -
  assume "ok r P"
  then obtain w where w: "r = Inr w" "P w" by (auto simp: ok_def)
  then have "truthy w \<Longrightarrow> \<exists>b. some_keys r = Inr (JBool b)"
    by (cases w) (auto simp: some_keys_def js_keys_def)
  with w show ?thesis by (auto simp: some_keys_def)
qed

text \<open>A section shown where the list, or the object, has elements.\<close>

lemma renders_some_items:
  assumes "ok r P" "\<And>w b. r = Inr w \<Longrightarrow> P w \<Longrightarrow> truthy w \<Longrightarrow> renders (f b)"
  shows "renders (and_then (some_items r) f)"
  using some_items_cases [OF assms(1)] assms(2)
  by (auto simp: and_then_def falsy_renders renders_Inr)

lemma renders_some_keys:
  assumes "ok r P" "\<And>w b. r = Inr w \<Longrightarrow> P w \<Longrightarrow> truthy w \<Longrightarrow> renders (f b)"
  shows "renders (and_then (some_keys r) f)"
  using some_keys_cases [OF assms(1)] assms(2)
  by (auto simp: and_then_def falsy_renders renders_Inr)

lemma ok_opt_dot: "ok r P \<Longrightarrow> (\<And>w. P w \<Longrightarrow> Q (js_opt_prop w k)) \<Longrightarrow> ok (opt_dot r k) Q"
  by (auto simp: ok_def opt_dot_def)

section \<open>Fields of typed objects\<close>

text \<open>A value of a flat type can be shown.\<close>

fun flat :: "ty \<Rightarrow> bool" where
  "flat TBool = True" | "flat TNum = True" | "flat TStr = True" | "flat TNull = True"
| "flat (TArr t) = flat t" | "flat (TOr s t) = (flat s \<and> flat t)"
| "flat _ = False"

lemma flat_showable: "flat t \<Longrightarrow> has_type t v \<Longrightarrow> showable v"
proof (induction t arbitrary: v)
  case (TArr t)
  then show ?case by (cases v) (auto simp: list_all_iff)
qed (auto split: jsv.splits)

fun list_ty :: "ty \<Rightarrow> bool" where
  "list_ty (TArr t) = flat t"
| "list_ty (TOr s t) = (list_ty s \<and> t = TNull)"
| "list_ty _ = False"

lemma list_ty_of: "list_ty t \<Longrightarrow> has_type t v \<Longrightarrow> truthy v \<Longrightarrow> list_of showable v"
proof (induction t arbitrary: v)
  case (TArr t)
  then show ?case by (cases v) (auto simp: list_all_iff dest: flat_showable)
qed auto

fun field_ty :: "ty \<Rightarrow> string \<Rightarrow> ty" where
  "field_ty (TObj fs) k = (case map_of fs k of None \<Rightarrow> TAny | Some (optional, t) \<Rightarrow> t)"
| "field_ty _ k = TAny"

lemma field_val_cases: "field_val T k w \<Longrightarrow> w = JUndef \<or> has_type (field_ty T k) w"
  by (cases "(T, k)" rule: field_ty.cases) (auto split: option.splits)

lemma field_showable: "field_val T k w \<Longrightarrow> flat (field_ty T k) \<Longrightarrow> showable w"
  using field_val_cases [of T k w] flat_showable by auto

lemma field_list_of: "field_val T k w \<Longrightarrow> truthy w \<Longrightarrow> list_ty (field_ty T k) \<Longrightarrow> list_of showable w"
  using field_val_cases [of T k w] list_ty_of by auto

text \<open>The forms in which the views read the fields of a typed object.\<close>

definition typed_reads :: "jsv \<Rightarrow> ty \<Rightarrow> bool" where
  "typed_reads d T \<longleftrightarrow> (\<forall>k. ok (js_prop d k) (field_val T k))"

lemma typed_readsI: "has_type (TObj fs) d \<Longrightarrow> typed_reads d (TObj fs)"
  by (simp add: typed_reads_def typed_prop)

lemma read_list:
  "typed_reads d T \<Longrightarrow> list_ty (field_ty T k) \<Longrightarrow> (\<And>w. list_of showable w \<Longrightarrow> renders (f w)) \<Longrightarrow>
   renders (and_then (some_items (js_prop d k)) (\<lambda>_. exn_bind (js_prop d k) f))"
  by (rule renders_some_items [of _ "field_val T k"])
    (auto simp: typed_reads_def dest: field_list_of)

lemma read_shown:
  "typed_reads d T \<Longrightarrow> flat (field_ty T k) \<Longrightarrow> (\<And>w. showable w \<Longrightarrow> renders (f w)) \<Longrightarrow>
   renders (and_then (js_prop d k) f)"
  by (rule renders_and_ok [of _ "field_val T k"]) (auto simp: typed_reads_def dest: field_showable)

lemma read_defined:
  "typed_reads d T \<Longrightarrow> flat (field_ty T k) \<Longrightarrow> (\<And>w. showable w \<Longrightarrow> renders (f w)) \<Longrightarrow>
   renders (if_defined (js_prop d k) f)"
  by (rule renders_defined_ok [of _ "field_val T k"]) (auto simp: typed_reads_def dest: field_showable)

lemma read_any:
  "typed_reads d T \<Longrightarrow> (\<And>w. renders (f w)) \<Longrightarrow> renders (exn_bind (js_prop d k) f)"
  by (rule renders_ok [of _ "field_val T k"]) (auto simp: typed_reads_def)

lemma read_child: "typed_reads d T \<Longrightarrow> flat (field_ty T k) \<Longrightarrow> renders (child_of (js_prop d k))"
  by (rule renders_child_ok [of _ "field_val T k"]) (auto simp: typed_reads_def dest: field_showable)

lemma read_object:
  assumes "typed_reads d T" "field_ty T k = TObj fs" "\<And>w. typed_reads w (TObj fs) \<Longrightarrow> renders (f w)"
  shows "renders (and_then (js_prop d k) f)"
proof (rule renders_and_ok)
  show "ok (js_prop d k) (field_val T k)" using assms(1) by (simp add: typed_reads_def)
  fix w assume "field_val T k w" "truthy w"
  then have "has_type (TObj fs) w" using field_val_cases [of T k w] assms(2) by auto
  then show "renders (f w)" by (intro assms(3) typed_readsI)
qed

lemma read_opt_object:
  assumes "typed_reads d T" "field_ty T k = TObj fs"
  shows "ok (opt_dot (js_prop d k) j) (\<lambda>v. v = JUndef \<or> field_val (TObj fs) j v)"
proof (rule ok_opt_dot)
  show "ok (js_prop d k) (field_val T k)" using assms(1) by (simp add: typed_reads_def)
  fix w assume "field_val T k w"
  then consider "w = JUndef" | "has_type (TObj fs) w" using field_val_cases assms(2) by metis
  then show "js_opt_prop w j = JUndef \<or> field_val (TObj fs) j (js_opt_prop w j)"
  proof cases
    case 2
    from typed_prop [OF this, of j] show ?thesis
      unfolding ok_def js_opt_prop_def by (elim exE conjE) simp
  qed (simp add: js_opt_prop_def)
qed

lemma read_opt_shown:
  assumes "typed_reads d T" "field_ty T k = TObj fs" "flat (field_ty (TObj fs) j)"
    "\<And>w. showable w \<Longrightarrow> renders (f w)"
  shows "renders (and_then (opt_dot (js_prop d k) j) f)"
  by (rule renders_and_ok [OF read_opt_object [OF assms(1,2)]])
    (use field_showable [OF _ assms(3)] assms(4) in \<open>auto simp del: field_val.simps\<close>)

lemma read_opt_inner:
  assumes "typed_reads d T" "field_ty T k = TObj fs" "field_ty (TObj fs) j = TObj gs"
    "\<And>w. typed_reads w (TObj gs) \<Longrightarrow> renders (f w)"
  shows "renders (and_then (opt_dot (js_prop d k) j) f)"
proof (rule renders_and_ok [OF read_opt_object [OF assms(1,2)]])
  fix w assume "w = JUndef \<or> field_val (TObj fs) j w" "truthy w"
  then have "has_type (TObj gs) w" using field_val_cases [of "TObj fs" j w] assms(3) by auto
  then show "renders (f w)" by (intro assms(4) typed_readsI)
qed

lemmas type_defs = req_def opt_def or_null_def

text \<open>Data without an error: the panel shows an error before any view.\<close>

definition error_free :: "jsv \<Rightarrow> bool" where
  "error_free d \<longleftrightarrow> js_prop d ''error'' = Inr JUndef"

lemma error_free_simps:
  "error_free d \<Longrightarrow> unless_error d v = v"
  "error_free d \<Longrightarrow> error_box h d = Inr []"
  by (simp_all add: error_free_def unless_error_def error_box_def and_then_def)

section \<open>Preferences\<close>

text \<open>The view also shows a field that the interface does not declare.\<close>

fun extend :: "ty \<Rightarrow> (string \<times> bool \<times> ty) list \<Rightarrow> ty" where
  "extend (TObj fs) gs = TObj (fs @ gs)"
| "extend t gs = t"

definition PrefsResult :: ty where
  "PrefsResult = extend PrefsData [opt ''OperatorUser'' TStr]"

lemmas prefs_type_defs = PrefsResult_def PrefsData_def type_defs

lemma prefs_reads: "has_type PrefsResult d \<Longrightarrow> typed_reads d PrefsResult"
  unfolding PrefsResult_def PrefsData_def extend.simps by (rule typed_readsI)

lemma badge_row_render: "typed_reads d T \<Longrightarrow> renders (badge_row d label k b)"
  unfolding badge_row_def TableRow_def by (intro render_intros read_any)

lemma prefs_flags_render: "typed_reads d PrefsResult \<Longrightarrow> renders (prefs_flags d)"
  unfolding prefs_flags_def TableRow_def
  by (intro render_intros; (rule badge_row_render, assumption | rule read_shown, assumption,
      simp add: prefs_type_defs, intro render_intros renders_child, assumption))

lemma prefs_network_render: "typed_reads d PrefsResult \<Longrightarrow> renders (prefs_network d)"
  unfolding prefs_network_def
  by (intro render_intros; (rule badge_row_render, assumption
     | (rule read_shown read_defined, assumption, (simp add: prefs_type_defs; fail),
        unfold TableRow_def, intro render_intros renders_child, assumption)
     | (rule read_object, assumption, (simp add: prefs_type_defs; fail),
        rule badge_row_render, assumption)))

lemma prefs_user_render:
  "typed_reads u (TObj [opt ''DisplayName'' TStr, opt ''ID'' TNum, opt ''LoginName'' TStr, opt ''ProfilePicURL'' TStr])
   \<Longrightarrow> renders (prefs_user u)"
  unfolding prefs_user_def
  by (intro render_intros; (rule read_shown, assumption, (simp add: type_defs; fail),
      rule read_any, assumption, intro render_intros | rule read_child, assumption, simp add: type_defs))

lemma prefs_render:
  assumes "has_type PrefsResult d" "error_free d"
  shows "renders (PrefsResultsContent d)"
  unfolding PrefsResultsContent_def error_free_simps(1) [OF assms(2)]
  by (insert prefs_reads [OF assms(1)],
     intro render_intros; (rule prefs_flags_render prefs_network_render, assumption
     | (rule read_shown, assumption, (simp add: prefs_type_defs; fail),
        intro render_intros renders_child, assumption)
     | (rule read_opt_shown, assumption, simp add: prefs_type_defs, simp,
        intro render_intros renders_child, assumption)
     | (rule read_list, assumption, (simp add: prefs_type_defs; fail), intro render_intros, assumption)
     | (rule read_opt_inner, assumption, simp add: prefs_type_defs, simp,
        rule prefs_user_render, simp add: type_defs)))

section \<open>Drive shares\<close>

definition DriveSharesResult :: ty where
  "DriveSharesResult = TObj [opt ''Shares'' (or_null (TArr DriveShare))]"

lemma share_card_render: "has_type DriveShare v \<Longrightarrow> renders (share_card v)"
proof -
  assume "has_type DriveShare v"
  then have r: "typed_reads v DriveShare" unfolding DriveShare_def by (rule typed_readsI)
  have "renders (exn_bind (js_prop v ''Name'') (\<lambda>n. el ''h5'' [child (js_or n (JStr ''Unnamed Share''))]))"
  proof (rule renders_ok)
    show "ok (js_prop v ''Name'') (field_val DriveShare ''Name'')" using r by (simp add: typed_reads_def)
    fix w assume "field_val DriveShare ''Name'' w"
    then have "showable w" by (rule field_showable) (simp add: DriveShare_def type_defs)
    then show "renders (el ''h5'' [child (js_or w (JStr ''Unnamed Share''))])"
      by (intro render_intros renders_child) (simp add: js_or_def)
  qed
  with r show ?thesis
    unfolding share_card_def
    by - (intro render_intros; (assumption | rule read_shown, assumption,
      simp add: DriveShare_def type_defs, intro render_intros renders_child, assumption))
qed

lemma shares_render:
  assumes "has_type DriveSharesResult d" "error_free d"
  shows "renders (DriveSharesResultsContent d)"
proof -
  have "ok (js_prop d ''Shares'') (field_val DriveSharesResult ''Shares'')"
    using assms(1) unfolding DriveSharesResult_def by (rule typed_prop)
  then obtain w where w: "js_prop d ''Shares'' = Inr w" "field_val DriveSharesResult ''Shares'' w"
    by (auto simp: ok_def)
  then obtain xs where xs: "js_or w (JArr []) = JArr xs" "\<forall>x \<in> set xs. has_type DriveShare x"
    by (auto simp: DriveSharesResult_def type_defs js_or_def list_all_iff split: jsv.splits)
  have "renders (map_child (Inr (JArr xs)) share_card)"
    by (rule renders_map_child [OF refl]) (use xs(2) share_card_render in blast)
  with assms(2) show ?thesis
    unfolding DriveSharesResultsContent_def w xs(1) Let_def error_free_simps(2) [OF assms(2)]
    by (auto simp: error_free_def xs(1) intro!: render_intros)
qed

section \<open>Configuration lists\<close>

lemma some_items_value:
  assumes "ok (js_prop d k) (field_val T k)" "list_ty (field_ty T k)"
  shows "\<exists>h w. some_items (js_prop d k) = Inr h \<and> js_prop d k = Inr w \<and> (truthy h \<longrightarrow> list_of showable w)"
  using some_items_cases [OF assms(1)] field_list_of [OF _ _ assms(2)]
  by (metis truthy.simps(3))

lemma name_list_render: "list_of showable w \<Longrightarrow> renders (name_list [str_node title] (Inr w))"
  unfolding name_list_def by (intro render_intros renders_list renders_child) (auto intro: renders_child)

lemma renders_and_name:
  "js_prop d k = Inr w \<Longrightarrow> (truthy h \<longrightarrow> list_of showable w) \<Longrightarrow>
   renders (and_then (Inr h) (\<lambda>_. name_list [str_node title] (js_prop d k)))"
  by (rule renders_and_then [OF refl]) (simp add: name_list_render)

lemma dns_config_render:
  assumes "has_type DNSOSConfig d" "error_free d"
  shows "renders (DNSConfigResultsContent d)"
proof -
  have r: "ok (js_prop d k) (field_val DNSOSConfig k)" for k
    using assms(1) unfolding DNSOSConfig_def by (rule typed_prop)
  obtain h1 w1 where 1: "some_items (js_prop d ''Nameservers'') = Inr h1" "js_prop d ''Nameservers'' = Inr w1"
      "truthy h1 \<longrightarrow> list_of showable w1"
    using some_items_value [OF r, of "''Nameservers''"] by (auto simp: DNSOSConfig_def type_defs)
  obtain h2 w2 where 2: "some_items (js_prop d ''SearchDomains'') = Inr h2" "js_prop d ''SearchDomains'' = Inr w2"
      "truthy h2 \<longrightarrow> list_of showable w2"
    using some_items_value [OF r, of "''SearchDomains''"] by (auto simp: DNSOSConfig_def type_defs)
  obtain h3 w3 where 3: "some_items (js_prop d ''MatchDomains'') = Inr h3" "js_prop d ''MatchDomains'' = Inr w3"
      "truthy h3 \<longrightarrow> list_of showable w3"
    using some_items_value [OF r, of "''MatchDomains''"] by (auto simp: DNSOSConfig_def type_defs)
  have e: "js_prop d ''error'' = Inr JUndef" using assms(2) by (simp add: error_free_def)
  have "renders (el ''div'' [and_then (Inr h1) (\<lambda>_. name_list [str_node ''Nameservers''] (js_prop d ''Nameservers'')),
      and_then (Inr h2) (\<lambda>_. name_list [str_node ''Search Domains''] (js_prop d ''SearchDomains'')),
      and_then (Inr h3) (\<lambda>_. name_list [str_node ''Match Domains''] (js_prop d ''MatchDomains''))])"
    by (intro render_intros renders_and_name [OF 1(2,3)] renders_and_name [OF 2(2,3)]
        renders_and_name [OF 3(2,3)])
  then show ?thesis
    unfolding DNSConfigResultsContent_def 1(1) 2(1) 3(1) e exn_bind_simps Let_def
      error_free_simps(2) [OF assms(2)]
    by (simp add: render_intros)
qed

section \<open>Records\<close>

definition record_of :: "ty \<Rightarrow> jsv \<Rightarrow> bool" where
  "record_of t w \<longleftrightarrow> (\<exists>m. w = JObj m \<and> (\<forall>k v. (k, v) \<in> set m \<longrightarrow> has_type t v))"

lemma field_record_of:
  assumes "field_val T k w" "truthy w" "field_ty T k = TRec t \<or> field_ty T k = or_null (TRec t)"
  shows "record_of t w"
proof -
  have "has_type (field_ty T k) w" using field_val_cases [OF assms(1)] assms(2) by auto
  with assms(2,3) show ?thesis
    by (cases w) (auto simp: record_of_def or_null_def list_all_iff)
qed

lemma some_keys_value:
  assumes "ok (js_prop d k) (field_val T k)" "field_ty T k = TRec t \<or> field_ty T k = or_null (TRec t)"
  shows "\<exists>h w. some_keys (js_prop d k) = Inr h \<and> js_prop d k = Inr w \<and> (truthy h \<longrightarrow> record_of t w)"
  using some_keys_cases [OF assms(1)] field_record_of [OF _ _ assms(2)]
  by (metis truthy.simps(3))

lemma record_entries:
  assumes "record_of t w" "\<And>k v. has_type t v \<Longrightarrow> renders (f k v)"
  shows "renders (entries_child (Inr w) f)"
proof -
  obtain m where m: "w = JObj m" "\<forall>k v. (k, v) \<in> set m \<longrightarrow> has_type t v"
    using assms(1) by (auto simp: record_of_def)
  have "renders (f k (case obj_get m k of None \<Rightarrow> JUndef | Some v \<Rightarrow> v))" if "k \<in> set (obj_keys m)" for k
  proof -
    from that obtain v where v: "obj_get m k = Some v" by (auto simp: set_obj_keys)
    then have "(k, v) \<in> set m" by (auto simp: obj_get_def dest: map_of_SomeD)
    with m(2) assms(2) v show ?thesis by auto
  qed
  then show ?thesis by (auto simp: entries_child_def m intro!: renders_nodes)
qed

lemma record_keys: "record_of t w \<Longrightarrow> (\<And>k. renders (f k)) \<Longrightarrow> renders (keys_child (Inr w) f)"
  by (auto simp: record_of_def keys_child_def js_keys_def intro!: renders_nodes)

lemma record_count: "record_of t w \<Longrightarrow> renders (key_count (Inr w))"
  by (auto simp: record_of_def key_count_def js_keys_def intro: render_intros)

section \<open>Routes of the app connector\<close>

lemma domain_card_render: "has_type (TArr TStr) v \<Longrightarrow> renders (domain_card domain v)"
proof -
  assume "has_type (TArr TStr) v"
  then have "list_of showable v" using list_ty_of [of "TArr TStr" v] by (cases v) simp_all
  then show ?thesis
    unfolding domain_card_def by (intro render_intros renders_list renders_child)
qed

lemma routes_render:
  assumes "has_type RouteInfo d" "error_free d"
  shows "renders (AppConnRoutesResultsContent d)"
proof -
  have r: "ok (js_prop d k) (field_val RouteInfo k)" for k
    using assms(1) unfolding RouteInfo_def by (rule typed_prop)
  obtain h1 w1 where 1: "some_items (js_prop d ''Control'') = Inr h1" "js_prop d ''Control'' = Inr w1"
      "truthy h1 \<longrightarrow> list_of showable w1"
    using some_items_value [OF r, of "''Control''"] by (auto simp: RouteInfo_def type_defs)
  obtain h2 w2 where 2: "some_keys (js_prop d ''Domains'') = Inr h2" "js_prop d ''Domains'' = Inr w2"
      "truthy h2 \<longrightarrow> record_of (TArr TStr) w2"
    using some_keys_value [OF r, of "''Domains''" "TArr TStr"] by (auto simp: RouteInfo_def type_defs)
  obtain h3 w3 where 3: "some_items (js_prop d ''Wildcards'') = Inr h3" "js_prop d ''Wildcards'' = Inr w3"
      "truthy h3 \<longrightarrow> list_of showable w3"
    using some_items_value [OF r, of "''Wildcards''"] by (auto simp: RouteInfo_def type_defs)
  have e: "js_prop d ''error'' = Inr JUndef" using assms(2) by (simp add: error_free_def)
  have domains: "renders (and_then (Inr h2) (\<lambda>_. el ''div''
      [section_title [str_node ''Discovered Domains ('', key_count (js_prop d ''Domains''), str_node '')''],
       el ''div'' [entries_child (js_prop d ''Domains'') domain_card]]))"
    unfolding section_title_def 2(2)
    by (rule renders_and_then [OF refl])
      (intro render_intros record_count record_entries domain_card_render; use 2(3) in blast)
  have "renders (el ''div''
      [and_then (Inr h1) (\<lambda>_. name_list [str_node ''Control Routes (ACL)''] (js_prop d ''Control'')),
       and_then (Inr h3) (\<lambda>_. name_list [str_node ''Wildcard Domains''] (js_prop d ''Wildcards'')),
       and_then (Inr h2) (\<lambda>_. el ''div''
         [section_title [str_node ''Discovered Domains ('', key_count (js_prop d ''Domains''), str_node '')''],
          el ''div'' [entries_child (js_prop d ''Domains'') domain_card]])])"
    by (intro render_intros renders_and_name [OF 1(2,3)] renders_and_name [OF 3(2,3)] domains)
  then show ?thesis
    unfolding AppConnRoutesResultsContent_def 1(1) 2(1) 3(1) e exn_bind_simps Let_def
      error_free_simps(2) [OF assms(2)]
    by (simp add: render_intros)
qed

section \<open>Serve configuration\<close>

lemma tcp_handler_render: "has_type TCPPortHandler v \<Longrightarrow> renders (tcp_handler port v)"
  unfolding TCPPortHandler_def tcp_handler_def labelled_def
  by (drule typed_readsI, intro render_intros; rule read_shown, assumption, simp add: type_defs, intro render_intros;
    (rule renders_child, assumption)?)

lemma web_mount_render: "has_type WebHandler v \<Longrightarrow> renders (web_mount mount v)"
  unfolding WebHandler_def web_mount_def labelled_def
  by (drule typed_readsI, intro render_intros; rule read_shown, assumption, simp add: type_defs, intro render_intros;
    (rule renders_child, assumption)?)

lemma web_server_render: "has_type WebServerConfig v \<Longrightarrow> renders (web_server hostPort v)"
proof -
  assume "has_type WebServerConfig v"
  then have r: "ok (js_prop v ''Handlers'') (field_val WebServerConfig ''Handlers'')"
    unfolding WebServerConfig_def by (rule typed_prop)
  have "renders (and_then (js_prop v ''Handlers'') (\<lambda>_. entries_child (js_prop v ''Handlers'') web_mount))"
  proof -
    obtain w where w: "js_prop v ''Handlers'' = Inr w" "field_val WebServerConfig ''Handlers'' w"
      using r by (auto simp: ok_def)
    show ?thesis
      unfolding w(1)
      by (rule renders_and_then [OF refl], rule record_entries [OF field_record_of [OF w(2)]])
        (assumption, simp add: WebServerConfig_def type_defs, erule web_mount_render)
  qed
  then show ?thesis unfolding web_server_def by (intro render_intros)
qed

lemma serve_has:
  assumes "ok (js_prop d k) (field_val T k)" "field_ty T k = TRec t \<or> field_ty T k = or_null (TRec t)"
  shows "\<exists>w. js_prop d k = Inr w \<and> (truthy (has_keys d k) \<longrightarrow> record_of t w)"
  using some_keys_value [OF assms] by (auto simp: has_keys_def)

lemma serve_field_ty:
  "field_ty (ServeConfig n) ''TCP'' = or_null (TRec TCPPortHandler)"
  "field_ty (ServeConfig n) ''Web'' = or_null (TRec WebServerConfig)"
  "field_ty (ServeConfig n) ''Services'' = or_null (TRec ServiceConfig)"
  "field_ty (ServeConfig n) ''AllowFunnel'' = or_null (TRec TBool)"
  "field_ty (ServeConfig n) ''Foreground'' = or_null (TRec (case n of 0 \<Rightarrow> TAny | Suc m \<Rightarrow> ServeConfig m))"
  "field_ty (ServeConfig n) ''ETag'' = TStr"
  by (subst ServeConfig.simps; simp add: type_defs)+

lemma serve_sections_render:
  assumes "\<And>k. ok (js_prop d k) (field_val (ServeConfig n) k)"
  shows "renders (serve_sections d (has_keys d))"
proof -
  note has = serve_has [OF assms]
  obtain tcp where tcp: "js_prop d ''TCP'' = Inr tcp" "truthy (has_keys d ''TCP'') \<longrightarrow> record_of TCPPortHandler tcp"
    using has [of "''TCP''" TCPPortHandler] by (auto simp: serve_field_ty)
  obtain web where web: "js_prop d ''Web'' = Inr web" "truthy (has_keys d ''Web'') \<longrightarrow> record_of WebServerConfig web"
    using has [of "''Web''" WebServerConfig] by (auto simp: serve_field_ty)
  obtain svc where svc: "js_prop d ''Services'' = Inr svc" "truthy (has_keys d ''Services'') \<longrightarrow> record_of ServiceConfig svc"
    using has [of "''Services''" ServiceConfig] by (auto simp: serve_field_ty)
  obtain fl where fl: "js_prop d ''AllowFunnel'' = Inr fl" "truthy (has_keys d ''AllowFunnel'') \<longrightarrow> record_of TBool fl"
    using has [of "''AllowFunnel''" TBool] by (auto simp: serve_field_ty)
  obtain fg where fg: "js_prop d ''Foreground'' = Inr fg"
      "truthy (has_keys d ''Foreground'') \<longrightarrow> record_of (case n of 0 \<Rightarrow> TAny | Suc m \<Rightarrow> ServeConfig m) fg"
    using has [of "''Foreground''"] by (auto simp: serve_field_ty)
  show ?thesis
    unfolding serve_sections_def section_title_def name_spans_def enabled_spans_def tcp web svc fl fg
    by (intro render_intros; rule renders_and_then [OF refl]; intro render_intros record_count
        record_keys record_entries tcp_handler_render web_server_render;
        use tcp(2) web(2) svc(2) fl(2) fg(2) in blast)
qed

lemma serve_render:
  assumes "has_type (ServeConfig n) d" "error_free d"
  shows "renders (ServeConfigResultsContent d)"
proof -
  have r: "ok (js_prop d k) (field_val (ServeConfig n) k)" for k
    using assms(1) unfolding ServeConfig.simps [of n] by (rule typed_prop)
  have e: "js_prop d ''error'' = Inr JUndef" using assms(2) by (simp add: error_free_def)
  have etag: "renders (and_then (js_prop d ''ETag'') (\<lambda>etag. exn_bind (js_prefix 16 etag) (\<lambda>s.
      el ''span'' [str_node ''ETag: '', str_node s, str_node ''...''])))"
  proof (rule renders_and_ok [OF r])
    fix w assume "field_val (ServeConfig n) ''ETag'' w" "truthy w"
    then have "has_type TStr w" using field_val_cases serve_field_ty(6) by (metis truthy.simps(1))
    then obtain s where "w = JStr s" by (cases w) auto
    then show "renders (exn_bind (js_prefix 16 w) (\<lambda>s. el ''span'' [str_node ''ETag: '', str_node s, str_node ''...'']))"
      by (simp add: render_intros)
  qed
  show ?thesis
    unfolding ServeConfigResultsContent_def e exn_bind_simps Let_def error_free_simps(2) [OF assms(2)]
    using etag serve_sections_render [OF r]
    by (auto intro!: render_intros)
qed

section \<open>Goroutines\<close>

lemma goroutines_render: "renders (GoroutinesResultsContent (JStr s))"
proof -
  have "js_opt_prop (JStr s) ''error'' = JUndef"
  proof -
    have "array_index ''error'' = None" by code_simp
    then show ?thesis by (simp add: js_opt_prop_def)
  qed
  then show ?thesis
    unfolding GoroutinesResultsContent_def Let_def goroutine_card_def
    by (auto split: option.splits intro!: render_intros)
qed

section \<open>Status\<close>

text \<open>
  \<open>api.ts\<close> leaves the node, the peers and the users of a status open; this is what the view
  relies on. A time and a flag may be anything.
\<close>

definition StatusNode :: ty where
  "StatusNode = TObj
     [opt ''HostName'' TStr, opt ''DNSName'' TStr, opt ''OS'' TStr, opt ''Relay'' TStr, opt ''ID'' TStr,
      opt ''CurAddr'' TStr, opt ''TailscaleIPs'' (or_null (TArr TStr)), opt ''Tags'' (or_null (TArr TStr)),
      opt ''PrimaryRoutes'' (or_null (TArr TStr)), opt ''ExitNode'' TBool, opt ''ExitNodeOption'' TBool,
      opt ''Active'' TBool]"

definition UserProfile :: ty where
  "UserProfile = TObj [opt ''DisplayName'' TStr, opt ''LoginName'' TStr, opt ''ProfilePicURL'' TStr]"

definition StatusResult :: ty where
  "StatusResult = TObj
     [opt ''Version'' TStr, opt ''BackendState'' TStr, opt ''TUN'' TBool,
      opt ''CurrentTailnet''
        (TObj [opt ''Name'' TStr, opt ''MagicDNSEnabled'' TBool, opt ''MagicDNSSuffix'' TStr]),
      opt ''MagicDNSSuffix'' TStr, opt ''CertDomains'' (or_null (TArr TStr)),
      opt ''Health'' (or_null (TArr TStr)), opt ''Self'' StatusNode, opt ''Peer'' (or_null (TRec StatusNode)),
      opt ''User'' (or_null (TRec UserProfile))]"

lemmas status_type_defs = StatusResult_def StatusNode_def UserProfile_def type_defs

lemma read_field:
  "typed_reads d T \<Longrightarrow> flat (field_ty T k) \<Longrightarrow> renders (field label (js_prop d k))"
  unfolding field_def
  by (rule renders_ok [of _ "field_val T k"])
    (auto simp: typed_reads_def intro!: render_intros dest: field_showable)

lemma read_field_or:
  "ok r P \<Longrightarrow> (\<And>w. P w \<Longrightarrow> showable w) \<Longrightarrow> renders (field_or label r dflt)"
  unfolding field_or_def
  by (erule renders_ok) (auto simp: js_or_def intro!: renders_field)

lemma read_bytes: "typed_reads d T \<Longrightarrow> renders (bytes_field label (js_prop d k))"
  unfolding bytes_field_def by (erule read_any) (simp add: render_intros)

lemma read_time: "typed_reads d T \<Longrightarrow> renders (time_field clk label (js_prop d k))"
  unfolding time_field_def by (erule read_any) (simp add: render_intros)

lemma read_field_if: "typed_reads d T \<Longrightarrow> flat (field_ty T k) \<Longrightarrow> renders (field_if label (js_prop d k))"
  unfolding field_if_def by (erule (1) read_shown) (rule renders_field)

lemma read_mono_if: "typed_reads d T \<Longrightarrow> flat (field_ty T k) \<Longrightarrow> renders (mono_if label (js_prop d k) cls)"
  unfolding mono_if_def by (erule (1) read_shown) (rule renders_field_class)

lemma read_list_if: "typed_reads d T \<Longrightarrow> list_ty (field_ty T k) \<Longrightarrow> renders (list_if label d k cls)"
  unfolding list_if_def by (erule (1) read_list) (intro render_intros)

lemma read_tags: "typed_reads d T \<Longrightarrow> list_ty (field_ty T ''Tags'') \<Longrightarrow> renders (tags_if d)"
  unfolding tags_if_def by (erule (1) read_list) (intro render_intros)

lemmas read_parts = read_field read_bytes read_time read_field_if read_mono_if read_list_if read_tags

lemma status_user_render: "has_type UserProfile u \<Longrightarrow> renders (status_user u)"
proof -
  assume "has_type UserProfile u"
  then have r: "typed_reads u UserProfile" unfolding UserProfile_def by (rule typed_readsI)
  show ?thesis
    unfolding status_user_def
    by (insert r, intro render_intros; (rule read_shown, assumption, (simp add: status_type_defs; fail),
        rule read_any, assumption, intro render_intros | rule read_child, assumption, simp add: status_type_defs))
qed

lemma status_peer_render: "has_type StatusNode p \<Longrightarrow> renders (status_peer clk p)"
proof -
  assume "has_type StatusNode p"
  then have r: "typed_reads p StatusNode" unfolding StatusNode_def by (rule typed_readsI)
  have loose: "renders (and_then (js_prop p k) f)" if "\<And>w. renders (f w)" for k f
    using r that by (auto simp: typed_reads_def intro: renders_and_ok)
  show ?thesis
    unfolding status_peer_def
    by (insert r, intro render_intros;
       (rule read_parts, assumption, (simp add: status_type_defs; fail)?
        | rule read_child, assumption, simp add: status_type_defs
        | rule read_any, assumption, intro render_intros
        | rule loose, intro render_intros, simp?))
qed

lemma status_self_render: "typed_reads u StatusNode \<Longrightarrow> renders (status_self clk u)"
proof -
  assume r: "typed_reads u StatusNode"
  obtain en eno where e: "js_prop u ''ExitNode'' = Inr en" "js_prop u ''ExitNodeOption'' = Inr eno"
    using r unfolding typed_reads_def ok_def by metis
  have exits: "renders (and_then (Inr (js_or en eno)) (\<lambda>_. el ''div''
      [and_then (Inr en) (\<lambda>_. StatusBadge (badge\<lparr>trueLabel := ''Exit Node''\<rparr>) (JBool True)),
       and_then (Inr eno) (\<lambda>_.
         StatusBadge (badge\<lparr>trueLabel := ''Exit Node Option'', trueColor := ''bg-blue-600''\<rparr>) (JBool True))]))"
    by (rule renders_and_then [OF refl], intro render_intros; rule renders_and_then [OF refl], intro render_intros)
  show ?thesis
    unfolding status_self_def e exn_bind_simps
    by (insert r exits, intro render_intros;
       (assumption
        | rule read_parts, assumption, (simp add: status_type_defs; fail)?
        | rule read_any, assumption, intro render_intros))
qed

lemma status_overview_render: "typed_reads d StatusResult \<Longrightarrow> renders (status_overview d)"
proof -
  assume r: "typed_reads d StatusResult"
  have showable_read: "ok (js_prop d k) showable" if "flat (field_ty StatusResult k)" for k
    using r that by (auto simp: typed_reads_def ok_def dest: field_showable)
  have any_read: "ok (js_prop d k) (\<lambda>_. True)" for k
    using r by (auto simp: typed_reads_def ok_def)
  have tailnet: "ok (opt_dot (js_prop d ''CurrentTailnet'') ''Name'') showable"
  proof -
    let ?t = "[opt ''Name'' TStr, opt ''MagicDNSEnabled'' TBool, opt ''MagicDNSSuffix'' TStr]"
    have "ok (opt_dot (js_prop d ''CurrentTailnet'') ''Name'') (\<lambda>v. v = JUndef \<or> field_val (TObj ?t) ''Name'' v)"
      by (rule read_opt_object [OF r]) (simp add: status_type_defs)
    moreover have "field_val (TObj ?t) ''Name'' v \<Longrightarrow> showable v" for v
      by (erule field_showable) (simp add: type_defs)
    ultimately show ?thesis by (fastforce simp: ok_def)
  qed
  have magic: "ok (opt_dot (js_prop d ''CurrentTailnet'') k) (\<lambda>_. True)" for k
    using any_read [of "''CurrentTailnet''"] by (rule ok_opt_dot) simp
  have backend: "renders (exn_bind (js_prop d ''BackendState'') (\<lambda>st.
      FieldRow_node ''Backend State''
        (el ''span''
          [ela ''span'' [(''className'', if st = JStr ''Running'' then ''bg-green-500'' else ''bg-red-500'')] [],
           child (js_or st (JStr ''Unknown''))])))"
    by (rule renders_ok [OF showable_read])
      (simp add: status_type_defs, intro render_intros renders_child, simp add: js_or_def)
  have suffix: "renders (exn_bind (js_prop d ''MagicDNSSuffix'') (\<lambda>v.
      FieldRow_class ''MagicDNS Suffix'' (js_or v (JStr ''N/A'')) MONO))"
    by (rule renders_ok [OF showable_read])
      (simp add: status_type_defs, intro render_intros, simp add: js_or_def)
  have certs: "renders (and_then (some_items (js_prop d ''CertDomains'')) (\<lambda>_.
      exn_bind (js_prop d ''CertDomains'') (\<lambda>v. el ''div'' [ListSection_class ''Cert Domains'' v MONO])))"
    by (rule read_list [OF r]) (simp add: status_type_defs, intro render_intros)
  have version: "renders (field_or ''Version'' (js_prop d ''Version'') ''N/A'')"
    by (rule read_field_or [OF showable_read]) (simp_all add: status_type_defs)
  show ?thesis
    unfolding status_overview_def
    by (intro render_intros backend suffix certs version read_field_or [OF tailnet]
        renders_ok [OF magic] renders_ok [OF any_read])
qed

lemma status_health_render: "typed_reads d StatusResult \<Longrightarrow> renders (status_health d)"
proof -
  assume r: "typed_reads d StatusResult"
  then have h: "ok (js_prop d ''Health'') (field_val StatusResult ''Health'')" by (simp add: typed_reads_def)
  show ?thesis
    unfolding status_health_def
  proof (rule renders_some_items [OF h])
    fix w b assume w: "js_prop d ''Health'' = Inr w" "field_val StatusResult ''Health'' w" "truthy w"
    then have "list_of showable w" by (intro field_list_of [of StatusResult "''Health''"]) (simp_all add: status_type_defs)
    then show "renders (el ''div'' [el ''h5'' [str_node ''Health Warnings''],
        el ''ul'' [map_child (js_prop d ''Health'') (\<lambda>w. el ''li'' [str_node [char_of (149 :: nat), CHR '' ''], child w])]])"
      unfolding w(1) by (intro render_intros renders_list renders_child)
  qed
qed

lemma counted_title_render: "record_of t w \<Longrightarrow> renders (counted_title title (Inr w))"
  by (auto simp: counted_title_def record_of_def js_keys_def intro!: render_intros)

lemma record_section_render:
  assumes "ok (js_prop d k) (field_val T k)" "field_ty T k = or_null (TRec t)"
    and "\<And>v. has_type t v \<Longrightarrow> renders (f v)"
  shows "renders (and_then (some_keys (js_prop d k)) (\<lambda>_. el ''div''
      [counted_title title (js_prop d k), el ''div'' [entries_child (js_prop d k) (\<lambda>_ v. f v)]]))"
proof (rule renders_some_keys [OF assms(1)])
  fix w b assume w: "js_prop d k = Inr w" "field_val T k w" "truthy w"
  then have "record_of t w" using assms(2) by (intro field_record_of) auto
  then show "renders (el ''div'' [counted_title title (js_prop d k),
      el ''div'' [entries_child (js_prop d k) (\<lambda>_ v. f v)]])"
    unfolding w(1) by (intro render_intros counted_title_render record_entries assms(3))
qed

lemma status_render:
  assumes "has_type StatusResult d" "error_free d"
  shows "renders (StatusResultsContent clk d)"
proof -
  have r: "typed_reads d StatusResult" using assms(1) unfolding StatusResult_def by (rule typed_readsI)
  have o: "ok (js_prop d k) (field_val StatusResult k)" for k using r by (simp add: typed_reads_def)
  have self: "renders (and_then (js_prop d ''Self'') (status_self clk))"
    by (rule read_object [OF r])
      (simp add: StatusResult_def StatusNode_def type_defs, rule status_self_render,
       simp add: StatusNode_def type_defs)
  show ?thesis
    unfolding StatusResultsContent_def error_free_simps(1) [OF assms(2)]
    by (intro render_intros status_overview_render [OF r] status_health_render [OF r] self
        record_section_render [OF o] status_user_render status_peer_render)
      (simp_all add: StatusResult_def type_defs)
qed

end
