(* ===== verification/ContextMenu.thy ===== *)
theory ContextMenu
  imports ViewTypes JsSet
begin

text \<open>
  \<open>components/ContextMenu.tsx\<close>: the menu of a node, with sections that collapse. Its state is
  the set of collapsed sections; its data is a graph node with the data of the peer.
\<close>

section \<open>The state\<close>

definition menu_init :: "string list" where
  "menu_init =
     new_set [''identity'', ''network'', ''exitnode'', ''tags'', ''traffic'', ''timestamps'', ''additional'']"

definition toggleSection :: "string \<Rightarrow> string list \<Rightarrow> string list" where
  "toggleSection sec collapsed = set_toggle sec collapsed"

section \<open>The view\<close>

text \<open>A section: its header, and its content unless it is collapsed.\<close>

definition menu_section :: "string list \<Rightarrow> string \<Rightarrow> string \<Rightarrow> rendered list \<Rightarrow> rendered" where
  "menu_section collapsed title sec content =
     el ''div''
       [CollapsibleSectionHeader title (set_has collapsed sec) (''toggleSection '' @ sec),
        render_if (\<not> set_has collapsed sec) (el ''div'' content)]"

definition badge_field :: "jsv \<Rightarrow> string \<Rightarrow> string \<Rightarrow> badge_props \<Rightarrow> rendered" where
  "badge_field d label k b =
     exn_bind (js_prop d k) (\<lambda>v. FieldRow_node label (StatusBadge b v))"

definition list_field :: "jsv \<Rightarrow> string \<Rightarrow> string \<Rightarrow> string \<Rightarrow> rendered" where
  "list_field d label k cls =
     and_then (some_items (js_prop d k)) (\<lambda>_.
       exn_bind (js_prop d k) (\<lambda>v. ListSection_class label v cls))"

definition local_time :: "clock \<Rightarrow> jsv \<Rightarrow> string \<Rightarrow> string \<Rightarrow> rendered" where
  "local_time clk d label k =
     and_then (js_prop d k) (\<lambda>v.
       FieldRow_class label (JStr (formatTimestampLocal clk v)) ''text-white font-medium text-xs'')"

definition MONO_XS :: string where "MONO_XS = ''text-white font-mono text-xs break-all''"
definition MONO_SM :: string where "MONO_SM = ''text-white font-medium font-mono text-sm''"

definition menu_status :: "jsv \<Rightarrow> rendered list" where
  "menu_status d =
     [badge_field d ''Online'' ''Online'' (badge\<lparr>trueColor := ''bg-green-600'', falseColor := ''bg-red-600''\<rparr>),
      badge_field d ''Active'' ''Active'' badge,
      if_defined (js_prop d ''hasSymbiote'') (\<lambda>v.
        FieldRow_node ''Has Symbiote'' (StatusBadge (badge\<lparr>trueColor := ''bg-purple-600''\<rparr>) v))]"

definition menu_identity :: "jsv \<Rightarrow> rendered list" where
  "menu_identity d =
     [field_if ''Hostname'' (js_prop d ''HostName''),
      mono_if ''DNS Name'' (js_prop d ''DNSName'') ''text-white font-medium break-all'',
      field_if ''OS'' (js_prop d ''OS''),
      mono_if ''User ID'' (js_prop d ''UserID'') MONO_XS,
      mono_if ''ID'' (js_prop d ''ID'') MONO_XS,
      and_then (js_prop d ''PublicKey'') (\<lambda>v.
        el ''div'' [el ''div'' [str_node ''Public Key:''], el ''div'' [child v]])]"

definition menu_network :: "jsv \<Rightarrow> rendered list" where
  "menu_network d =
     [list_field d ''Tailscale IPs'' ''TailscaleIPs'' MONO_SM,
      list_field d ''Allowed IPs'' ''AllowedIPs'' MONO_SM,
      list_field d ''Addresses'' ''Addrs'' MONO_SM,
      mono_if ''Current Address'' (js_prop d ''CurAddr'') MONO_XS,
      field_if ''Relay'' (js_prop d ''Relay''),
      field_if ''Peer Relay'' (js_prop d ''PeerRelay'')]"

definition menu_exit :: "jsv \<Rightarrow> rendered list" where
  "menu_exit d =
     [badge_field d ''Exit Node'' ''ExitNode'' badge,
      badge_field d ''Exit Node Option'' ''ExitNodeOption'' badge]"

definition menu_tags :: "jsv \<Rightarrow> rendered list" where
  "menu_tags d =
     [and_then (some_items (js_prop d ''Tags'')) (\<lambda>_. exn_bind (js_prop d ''Tags'') TagBadges),
      list_field d ''Primary Routes'' ''PrimaryRoutes'' MONO_SM]"

definition menu_traffic :: "jsv \<Rightarrow> rendered list" where
  "menu_traffic d =
     [if_defined (js_prop d ''RxBytes'') (\<lambda>v. FieldRow ''Received'' (JStr (formatBytes_of v))),
      if_defined (js_prop d ''TxBytes'') (\<lambda>v. FieldRow ''Sent'' (JStr (formatBytes_of v)))]"

definition menu_times :: "clock \<Rightarrow> jsv \<Rightarrow> rendered list" where
  "menu_times clk d =
     [local_time clk d ''Created'' ''Created'', local_time clk d ''Last Write'' ''LastWrite'',
      local_time clk d ''Last Seen'' ''LastSeen'', local_time clk d ''Last Handshake'' ''LastHandshake'',
      local_time clk d ''Key Expiry'' ''KeyExpiry'']"

text \<open>The keys of an object as the items of a list\<close>

definition key_list :: "jsv \<Rightarrow> jsv js_result" where
  "key_list v = exn_bind (js_keys v) (\<lambda>ks. Inr (JArr (map JStr ks)))"

definition menu_additional :: "jsv \<Rightarrow> rendered list" where
  "menu_additional d =
     [list_field d ''Peer API URLs'' ''PeerAPIURL'' (MONO_SM @ '' break-all''),
      list_field d ''Capabilities'' ''Capabilities'' default_value_class,
      and_then (some_keys (js_prop d ''CapMap'')) (\<lambda>_.
        exn_bind (js_prop d ''CapMap'') (\<lambda>c. exn_bind (key_list c) (ListSection ''Capability Map''))),
      badge_field d ''In Network Map'' ''InNetworkMap'' badge,
      badge_field d ''In Magic Sock'' ''InMagicSock'' badge,
      badge_field d ''In Engine'' ''InEngine'' badge,
      if_defined (js_prop d ''TaildropTarget'') (FieldRow ''Taildrop Target''),
      field_if ''No File Sharing Reason'' (js_prop d ''NoFileSharingReason'')]"

text \<open>\<open>data.data.RxBytes !== undefined || data.data.TxBytes !== undefined\<close>\<close>

definition has_traffic :: "jsv \<Rightarrow> bool" where
  "has_traffic d \<longleftrightarrow> js_opt_prop d ''RxBytes'' \<noteq> JUndef \<or> js_opt_prop d ''TxBytes'' \<noteq> JUndef"

definition menu_sections :: "clock \<Rightarrow> string list \<Rightarrow> jsv \<Rightarrow> rendered" where
  "menu_sections clk collapsed d =
     exn_bind (js_prop d ''ExitNode'') (\<lambda>en. exn_bind (js_prop d ''ExitNodeOption'') (\<lambda>eno.
     exn_bind (some_items (js_prop d ''Tags'')) (\<lambda>tags.
     exn_bind (some_items (js_prop d ''PrimaryRoutes'')) (\<lambda>routes.
       el ''div''
         [menu_section collapsed ''Status'' ''status'' (menu_status d),
          menu_section collapsed ''Identity'' ''identity'' (menu_identity d),
          menu_section collapsed ''Network'' ''network'' (menu_network d),
          and_then (Inr (js_or en eno)) (\<lambda>_. menu_section collapsed ''Exit Node'' ''exitnode'' (menu_exit d)),
          and_then (Inr (js_or tags routes)) (\<lambda>_. menu_section collapsed ''Tags & Routes'' ''tags'' (menu_tags d)),
          render_if (has_traffic d) (menu_section collapsed ''Traffic'' ''traffic'' (menu_traffic d)),
          menu_section collapsed ''Timestamps'' ''timestamps'' (menu_times clk d),
          menu_section collapsed ''Additional'' ''additional'' (menu_additional d)]))))"

definition NodeContextMenu :: "clock \<Rightarrow> string list \<Rightarrow> bool \<Rightarrow> jsv \<Rightarrow> rendered" where
  "NodeContextMenu clk collapsed canFilter data =
     el ''div''
       [el ''div''
          [el ''h4'' [child_of (js_prop data ''label'')],
           el ''div''
             [render_if canFilter
                (ela ''button'' [(''onClick'', ''onFilterToHost; onClose'')] [str_node ''Filter To Host'']),
              ela ''button'' [(''onClick'', ''onClose'')] [el ''svg'' [el ''path'' []]]]],
        exn_bind (js_prop data ''data'') (menu_sections clk collapsed)]"

section \<open>The menu of a typed node\<close>

text \<open>
  The nodes of the graph have the data of the peer map with flags added; \<open>Capabilities\<close> is not
  declared by the interface, but the menu shows it.
\<close>

definition MenuData :: ty where
  "MenuData = extend PeerNodeData [opt ''hasSymbiote'' TBool, opt ''Capabilities'' (or_null (TArr TStr))]"

definition MenuNode :: ty where
  "MenuNode = TObj [req ''label'' TStr, req ''data'' MenuData]"

lemmas menu_type_defs = MenuData_def PeerNodeData_def type_defs

lemma list_field_render: "typed_reads d T \<Longrightarrow> list_ty (field_ty T k) \<Longrightarrow> renders (list_field d label k cls)"
  unfolding list_field_def by (erule (1) read_list) (rule renders_section_class)

lemma badge_field_render: "typed_reads d T \<Longrightarrow> renders (badge_field d label k b)"
  unfolding badge_field_def by (erule read_any) (intro render_intros)

lemma loose_and_render: "typed_reads d T \<Longrightarrow> (\<And>w. renders (f w)) \<Longrightarrow> renders (and_then (js_prop d k) f)"
  by (rule renders_and_ok [of _ "field_val T k"]) (auto simp: typed_reads_def)

lemma loose_defined_render: "typed_reads d T \<Longrightarrow> (\<And>w. renders (f w)) \<Longrightarrow> renders (if_defined (js_prop d k) f)"
  by (rule renders_defined_ok [of _ "field_val T k"]) (auto simp: typed_reads_def)

lemma local_time_render: "typed_reads d T \<Longrightarrow> renders (local_time clk d label k)"
  unfolding local_time_def by (erule loose_and_render) (simp add: render_intros)

lemma section_render: "all_render content \<Longrightarrow> renders (menu_section collapsed title sec content)"
  unfolding menu_section_def by (intro render_intros)

lemma menu_lists_render:
  assumes "typed_reads d MenuData"
  shows "all_render (menu_status d)" "all_render (menu_identity d)" "all_render (menu_network d)"
    "all_render (menu_exit d)" "all_render (menu_tags d)" "all_render (menu_traffic d)"
    "all_render (menu_times clk d)"
proof -
  show "all_render (menu_status d)"
    unfolding menu_status_def
    by (intro render_intros badge_field_render [OF assms] loose_defined_render [OF assms])
  show "all_render (menu_identity d)"
    unfolding menu_identity_def
    by (intro render_intros read_field_if [OF assms] read_mono_if [OF assms] read_shown [OF assms] renders_child)
      (simp_all add: menu_type_defs)
  show "all_render (menu_network d)"
    unfolding menu_network_def
    by (intro render_intros read_field_if [OF assms] read_mono_if [OF assms] list_field_render [OF assms])
      (simp_all add: menu_type_defs)
  show "all_render (menu_exit d)"
    unfolding menu_exit_def by (intro render_intros badge_field_render [OF assms])
  show "all_render (menu_tags d)"
    unfolding menu_tags_def
    by (intro render_intros list_field_render [OF assms] read_list [OF assms])
      (simp_all add: menu_type_defs render_intros)
  show "all_render (menu_traffic d)"
    unfolding menu_traffic_def by (intro render_intros loose_defined_render [OF assms]) simp_all
  show "all_render (menu_times clk d)"
    unfolding menu_times_def by (intro render_intros local_time_render [OF assms])
qed

lemma menu_additional_render:
  assumes "typed_reads d MenuData"
  shows "all_render (menu_additional d)"
proof -
  have o: "ok (js_prop d k) (field_val MenuData k)" for k using assms by (simp add: typed_reads_def)
  have caps: "renders (and_then (some_keys (js_prop d ''CapMap'')) (\<lambda>_.
      exn_bind (js_prop d ''CapMap'') (\<lambda>c. exn_bind (key_list c) (ListSection ''Capability Map''))))"
  proof (rule renders_some_keys [OF o])
    fix w b assume w: "js_prop d ''CapMap'' = Inr w" "field_val MenuData ''CapMap'' w" "truthy w"
    have "record_of (or_null (TArr TAny)) w"
      by (rule field_record_of [OF w(2,3)]) (simp add: menu_type_defs)
    then have "\<exists>ks. key_list w = Inr (JArr (map JStr ks))"
      by (auto simp: record_of_def key_list_def js_keys_def simp del: map_map)
    then show "renders (exn_bind (js_prop d ''CapMap'') (\<lambda>c. exn_bind (key_list c) (ListSection ''Capability Map'')))"
      by (auto simp: w(1) list_all_iff intro!: renders_section)
  qed
  have drop: "renders (if_defined (js_prop d ''TaildropTarget'') (FieldRow ''Taildrop Target''))"
    by (rule read_defined [OF assms]) (simp_all add: menu_type_defs renders_field)
  show ?thesis
    unfolding menu_additional_def
    by (intro render_intros list_field_render [OF assms] caps drop badge_field_render [OF assms]
        read_field_if [OF assms]) (simp_all add: menu_type_defs)
qed

lemma menu_sections_render:
  assumes "has_type MenuData d"
  shows "renders (menu_sections clk collapsed d)"
proof -
  have r: "typed_reads d MenuData"
    using assms unfolding MenuData_def PeerNodeData_def extend.simps by (rule typed_readsI)
  have o: "ok (js_prop d k) (field_val MenuData k)" for k using r by (simp add: typed_reads_def)
  obtain en eno where ex: "js_prop d ''ExitNode'' = Inr en" "js_prop d ''ExitNodeOption'' = Inr eno"
    using o unfolding ok_def by metis
  obtain t rt where tags: "some_items (js_prop d ''Tags'') = Inr t" "some_items (js_prop d ''PrimaryRoutes'') = Inr rt"
    using some_items_cases [OF o, of "''Tags''"] some_items_cases [OF o, of "''PrimaryRoutes''"] by metis
  note sections = section_render [OF menu_lists_render(1) [OF r]] section_render [OF menu_lists_render(2) [OF r]]
    section_render [OF menu_lists_render(3) [OF r]] section_render [OF menu_lists_render(4) [OF r]]
    section_render [OF menu_lists_render(5) [OF r]] section_render [OF menu_lists_render(6) [OF r]]
    section_render [OF menu_lists_render(7) [OF r]] section_render [OF menu_additional_render [OF r]]
  show ?thesis
    unfolding menu_sections_def ex tags exn_bind_simps
    by (intro render_intros renders_and_then [OF refl] sections)
qed

text \<open>
  The menu of any node of a well typed peer map renders, whichever of its sections are
  collapsed; toggling a section twice restores it and leaves the others as they are.\<close>

lemma menu_typed:
  assumes "has_type MenuNode data"
  shows "renders (NodeContextMenu clk collapsed canFilter data) \<and>
    set (toggleSection sec (toggleSection sec collapsed)) = set collapsed \<and>
    (other \<noteq> sec \<longrightarrow> set_has (toggleSection sec collapsed) other = set_has collapsed other)"
proof -
  have r: "typed_reads data MenuNode" using assms unfolding MenuNode_def by (rule typed_readsI)
  have "renders (exn_bind (js_prop data ''data'') (menu_sections clk collapsed))"
  proof (rule renders_ok)
    show "ok (js_prop data ''data'') (has_type MenuData)"
      using typed_prop [of "[req ''label'' TStr, req ''data'' MenuData]" data "''data''"] assms
      by (simp add: MenuNode_def type_defs ok_def)
  qed (rule menu_sections_render)
  moreover have "renders (child_of (js_prop data ''label''))"
    by (rule read_child [OF r]) (simp add: MenuNode_def type_defs)
  ultimately have "renders (NodeContextMenu clk collapsed canFilter data)"
    unfolding NodeContextMenu_def by (intro render_intros)
  moreover have "set (toggleSection sec (toggleSection sec collapsed)) = set collapsed"
    using lset.toggle_toggle [of sec collapsed] by (simp add: toggleSection_def set_toggle_def)
  moreover have "other \<noteq> sec \<Longrightarrow> set_has (toggleSection sec collapsed) other = set_has collapsed other"
    using lset.toggle_other [of other sec collapsed]
    by (simp add: toggleSection_def set_toggle_def set_has_def)
  ultimately show ?thesis by blast
qed

definition sample_peer :: jsv where
  "sample_peer = JObj
     ([(''Addrs'', JNull), (''TaildropTarget'', JNum 0), (''RxBytes'', JNum 2048), (''TxBytes'', JNum 0),
       (''UserID'', JNum 0)]
      @ map (\<lambda>k. (k, JArr [JStr ''100.64.0.1''])) [''AllowedIPs'', ''PeerAPIURL'', ''TailscaleIPs'']
      @ map (\<lambda>k. (k, JBool True))
          [''Active'', ''ExitNode'', ''ExitNodeOption'', ''InEngine'', ''InMagicSock'', ''InNetworkMap'', ''Online'']
      @ map (\<lambda>k. (k, JStr ''x''))
          [''Created'', ''CurAddr'', ''DNSName'', ''HostName'', ''ID'', ''LastHandshake'', ''LastSeen'', ''LastWrite'',
           ''NoFileSharingReason'', ''OS'', ''PeerRelay'', ''PublicKey'', ''Relay''])"

lemma menu_typed_example:
  "renders (NodeContextMenu \<lparr>clk_now = 0, clk_time = (\<lambda>_. None), clk_date = show_int, clk_datetime = show_int\<rparr>
      menu_init True (JObj [(''label'', JStr ''a''), (''data'', sample_peer)]))"
proof -
  have "has_type MenuNode (JObj [(''label'', JStr ''a''), (''data'', sample_peer)])"
    by (simp add: MenuNode_def menu_type_defs sample_peer_def obj_get_def)
  from menu_typed [OF this] show ?thesis by blast
qed

text \<open>A user id of zero is not left out but shown as a stray zero.\<close>

lemma zero_user_id: "js_prop d ''UserID'' = Inr (JNum 0) \<Longrightarrow>
    mono_if ''User ID'' (js_prop d ''UserID'') MONO_XS = str_node (num_str 0)"
  by (simp add: mono_if_def and_then_def)

end
