(* ===== verification/PageView.thy ===== *)
theory PageView
  imports ContextMenu Session
begin

text \<open>
  What \<open>App\<close> renders: \<open>components/SidebarPanel.tsx\<close>, \<open>components/GraphControls.tsx\<close>, the graph
  and its overlays, the output panel and the two modals. \<open>GraphCanvas\<close> is a third-party
  component: in the tree it is an element with the nodes, as \<open>renderNode\<close> draws them, and the
  edges it is given.
\<close>

section \<open>The sidebar\<close>

definition display_name :: "page_context \<Rightarrow> string \<Rightarrow> string" where
  "display_name pc i = (if pc_redact pc then ''*****'' else i)"

definition count_of :: "nat \<Rightarrow> nat \<Rightarrow> rendered list" where
  "count_of n m = [str_node (show_nat n), str_node ''/'', str_node (show_nat m), str_node '')'']"

definition search_input :: "string \<Rightarrow> string \<Rightarrow> string \<Rightarrow> accent \<Rightarrow> rendered" where
  "search_input v setter placeholder color =
     FormInput (input_props\<lparr>in_placeholder := Some placeholder, in_focusColor := color\<rparr>) v setter"

definition hosts_section :: "page_context \<Rightarrow> app \<Rightarrow> rendered" where
  "hosts_section pc a =
     el ''div''
       [el ''h3'' (str_node ''Hosts ('' # count_of (length (selectedHosts a)) (length (app_hosts a))),
        search_input (hostSearchFilter a) ''setHostSearchFilter'' ''Search hosts...'' green,
        ela ''button'' [(''onClick'', ''toggleAllHosts'')]
          [str_node (if length (selectedHosts a) = length (app_hosts a) then ''Deselect All'' else ''Select All'')],
        el ''div'' (map (\<lambda>h. CheckboxListItem (display_name pc h) (set_has (selectedHosts a) h)
            (''toggleHost '' @ h) green True lg) (filteredHostsForDisplay a))]"

definition peers_section :: "page_context \<Rightarrow> app \<Rightarrow> rendered" where
  "peers_section pc a =
     (let reachable = app_reachable a; targets = filteredTargetsForDisplay a in
      el ''div''
        [el ''h3'' (str_node ''Peers ('' # count_of (length (selectedTargets a)) (length reachable)),
         CheckboxListItem ''Hide Offline'' (hideOfflinePeers a) ''setHideOfflinePeers'' blue True md,
         search_input (targetSearchFilter a) ''setTargetSearchFilter'' ''Search peers...'' blue,
         ela ''button'' ((''onClick'', ''toggleAllTargets'') # flag ''disabled'' (length reachable = 0))
           [str_node (if length (selectedTargets a) = length reachable
                      then ''Deselect All Peers'' else ''Select All Peers'')],
         el ''div''
           (if length targets > 0 then
              map (\<lambda>t. CheckboxListItem (display_name pc t) (set_has (selectedTargets a) t)
                (''toggleTarget '' @ t) blue True lg) targets
            else [el ''p'' [str_node ''No target nodes available'']])])"

text \<open>The buttons of the commands, with their handlers; the last two start a stream.\<close>

definition COMMAND_BUTTONS :: "(string \<times> string) list" where
  "COMMAND_BUTTONS =
     [(''openQueryDNSModal'', ''Query DNS''), (''openPprofModal'', ''Pprof''), (''fetchPrefs'', ''Prefs''),
      (''fetchDriveShares'', ''Drive Shares''), (''fetchDNSConfig'', ''DNS Config''),
      (''fetchServeConfig'', ''Serve Config''), (''fetchAppConnRoutes'', ''AppConn Routes'')]"

definition STREAM_BUTTONS :: "(string \<times> string) list" where
  "STREAM_BUTTONS = [(''fetchLogs'', ''Logs''), (''fetchBusEvents'', ''Bus Events'')]"

definition commands_section :: "app \<Rightarrow> rendered" where
  "commands_section a =
     (let none = (length (selectedHosts a) = 0) in
      el ''div''
        [el ''h3'' [str_node ''Commands''],
         el ''div''
           (CommandButton ''fetchStatus'' (none \<or> statusLoading a)
              [str_node (if statusLoading a then ''Loading...'' else ''Status'')]
            # map (\<lambda>(act, label). CommandButton act (none \<or> statusLoading a) [str_node label]) COMMAND_BUTTONS
            @ map (\<lambda>(act, label). CommandButton act (none \<or> isStreaming (app_stream a)) [str_node label])
                STREAM_BUTTONS)])"

definition SidebarPanel :: "page_context \<Rightarrow> app \<Rightarrow> rendered" where
  "SidebarPanel pc a =
     ela ''div'' [(''className'', if sidebarOpen a then ''w-120'' else ''w-12'')]
       [ela ''button'' [(''onClick'', ''setSidebarOpen'')]
          [ela ''svg'' [(''className'', if sidebarOpen a then [] else ''rotate-180'')] [el ''path'' []]],
        render_if (sidebarOpen a)
          (el ''div''
             [el ''div'' [el ''h1'' [str_node ''TSymbiote'']],
              el ''div''
                [el ''div'' [hosts_section pc a, peers_section pc a],
                 commands_section a]])]"

section \<open>Controls of the graph\<close>

definition LAYOUT_LABELS :: "(string \<times> string) list" where
  "LAYOUT_LABELS =
     zip LAYOUT_OPTIONS
       [''Force Directed 2D'', ''Force Directed 3D'', ''Circular 2D'', ''Concentric 2D'', ''Concentric 3D'',
        ''Tree Top-Down 2D'', ''Tree Top-Down 3D'', ''Tree Left-Right 2D'', ''Tree Left-Right 3D'',
        ''Radial Out 2D'', ''Radial Out 3D'', ''Hierarchical Top-Down'', ''Hierarchical Left-Right'',
        ''No Overlap'', ''Force Atlas 2'']"

definition GraphControls :: "app \<Rightarrow> rendered" where
  "GraphControls a =
     el ''div''
       [ela ''select'' [(''value'', layoutType a), (''onChange'', ''setLayoutType'')]
          (map (\<lambda>(v, l). ela ''option'' [(''value'', v)] [str_node l]) LAYOUT_LABELS),
        ela ''button'' [(''onClick'', ''onReset'')] [str_node ''Reset''],
        ela ''button'' [(''onClick'', ''onFitToView'')] [str_node ''Fit To View'']]"

definition legend_row :: "string \<Rightarrow> string \<Rightarrow> rendered" where
  "legend_row color label =
     el ''div'' [ela ''div'' [(''backgroundColor'', color)] [], el ''span'' [str_node label]]"

definition ConnectionLegend :: rendered where
  "ConnectionLegend =
     el ''div''
       [el ''h4'' [str_node ''Connection Type''],
        el ''div''
          [legend_row EDGE_DIRECT ''Direct'', legend_row EDGE_PEER_API ''Peer API'',
           legend_row EDGE_PEER_RELAY ''Peer Relay'', legend_row EDGE_DERP ''DERP'']]"

definition number_input :: "int \<Rightarrow> int \<Rightarrow> int option \<Rightarrow> int \<Rightarrow> string \<Rightarrow> rendered" where
  "number_input mn mx step v setter =
     ela ''input''
       ([(''type'', ''number''), (''min'', show_int mn), (''max'', show_int mx)]
        @ opt_attr ''step'' (map_option show_int step)
        @ [(''value'', show_int v), (''onChange'', setter)]) []"

definition ping_settings :: "app \<Rightarrow> rendered" where
  "ping_settings a =
     el ''div''
       [el ''h4'' [str_node ''Ping Settings''],
        el ''div''
          [el ''div'' [el ''label'' [str_node ''Count''], number_input 1 20 None (pingCount a) ''setPingCount''],
           el ''div'' [el ''label'' [str_node ''Type''],
             ela ''select'' [(''value'', pingType a), (''onChange'', ''setPingType'')]
               (map (\<lambda>(v, l). ela ''option'' [(''value'', v)] [str_node l])
                 (zip PING_TYPES [''Disco'', ''TSMP'', ''ICMP'', ''PeerAPI'']))],
           el ''div'' [el ''label'' [str_node ''Delay (ms)''],
             number_input 0 2000 (Some 50) (pingDelay a) ''setPingDelay'']]]"

definition PingControls :: "app \<Rightarrow> rendered" where
  "PingControls a =
     el ''div''
       [el ''div''
          [ela ''button'' ((''onClick'', ''fetchPing'') # flag ''disabled'' (ping_disabled a))
             [str_node (if statusLoading a then ''Loading...'' else ''Ping'')],
           ela ''button'' [(''onClick'', ''setShowPingSettings''), (''title'', ''Ping settings'')]
             [ela ''svg'' [(''className'', if showPingSettings a then ''rotate-180'' else [])] [el ''path'' []]]],
        render_if (showPingSettings a) (ping_settings a),
        ConnectionLegend]"

section \<open>The graph\<close>

text \<open>The shape of a node, its size and its colour.\<close>

definition render_node :: "node \<Rightarrow> rendered" where
  "render_node n =
     (let r = (if n_size n = 0 then 7 else n_size n) in
      el ''group'' [el ''mesh''
        [if truthy (js_opt_prop (n_data n) ''hasSymbiote'')
         then ela ''icosahedronGeometry'' [(''args'', num_str (of_nat r * 3 / 2) @ '',0'')] []
         else ela ''sphereGeometry'' [(''args'', show_nat r @ '',32,32'')] [],
         ela ''meshMatcapMaterial'' [(''color'', if n_fill n = [] then NODE_DEFAULT else n_fill n)] []]])"

definition render_edge :: "edge \<times> string option \<Rightarrow> rendered" where
  "render_edge e =
     ela ''edge''
       ([(''id'', e_id (fst e)), (''source'', e_source (fst e)), (''target'', e_target (fst e))]
        @ opt_attr ''fill'' (snd e)) []"

text \<open>The menu is for nodes only: an edge has a source and a target.\<close>

definition menu_target :: "jsv \<Rightarrow> bool" where
  "menu_target data \<longleftrightarrow>
     truthy data \<and> truthy (js_opt_prop data ''data'') \<and>
     \<not> truthy (js_opt_prop data ''source'') \<and> \<not> truthy (js_opt_prop data ''target'')"

definition contextMenu :: "page_context \<Rightarrow> jsv \<Rightarrow> view \<Rightarrow> view \<times> rendered" where
  "contextMenu pc data v =
     (if \<not> menu_target data then (v\<lparr>v_menu := False\<rparr>, Inr [])
      else
        let isHost = (\<exists>h \<in> set (app_hosts (v_app v)). js_opt_prop data ''id'' = JStr h) in
        (v\<lparr>v_menu := True\<rparr>, NodeContextMenu (pc_clock pc) (pc_collapsed pc) isHost data))"

definition graph_canvas :: "app \<Rightarrow> rendered" where
  "graph_canvas a =
     ela ''GraphCanvas'' [(''key'', show_nat (graphKey a)), (''layoutType'', layoutType a)]
       (map render_node (filteredNodes a) @ map render_edge (filteredEdges a))"

definition graph_area :: "app \<Rightarrow> rendered" where
  "graph_area a =
     (let e = (case app_error a of None \<Rightarrow> [] | Some e \<Rightarrow> e) in
      if app_loading a then el ''div'' [el ''div'' [str_node ''Loading peer map...'']]
      else if e \<noteq> [] then el ''div'' [el ''div'' [str_node ''Error: '', str_node e]]
      else if length (app_nodes a) > 0 then graph_canvas a
      else el ''div'' [el ''div'' [str_node ''No nodes to display'']])"

section \<open>The modals\<close>

text \<open>What a modal runs on Enter.\<close>

definition dns_onSubmit :: "app \<Rightarrow> command option" where
  "dns_onSubmit a = (if js_trim (dnsName a) \<noteq> [] \<and> \<not> statusLoading a then Some DNSCmd else None)"

definition pprof_onSubmit :: "app \<Rightarrow> command option" where
  "pprof_onSubmit a =
     (if \<not> statusLoading a
      then Some (if pprofType a = ''goroutine'' then Host Goroutines else PprofCmd) else None)"

definition dns_modal :: "app \<Rightarrow> rendered" where
  "dns_modal a =
     Modal ''Query DNS'' ''closeQueryDNSModal''
       [el ''div'' [FormLabel [str_node ''Name''] [],
          FormInput (input_props\<lparr>in_placeholder := Some ''example.com'', in_autoFocus := True\<rparr>)
            (dnsName a) ''setDnsName''],
        el ''div'' [FormLabel [str_node ''Query Type''] [],
          FormSelect (dnsQueryType a) ''setDnsQueryType'' (map (\<lambda>t. (t, t)) QUERY_TYPES) purple []],
        ModalActionButtons ''closeQueryDNSModal'' ''fetchQueryDNS'' ''Cancel'' ''Query''
          (js_trim (dnsName a) = [] \<or> statusLoading a)]"

definition PPROF_LABELS :: "(string \<times> string) list" where
  "PPROF_LABELS =
     zip PPROF_TYPES
       [''Profile (CPU)'', ''Heap'', ''Allocs'', ''Goroutine'', ''Block'', ''Mutex'', ''Thread Create'']"

definition pprof_modal :: "app \<Rightarrow> rendered" where
  "pprof_modal a =
     (let lowest = (if allowsZero (pprofType a) then 0 else 1) in
      Modal ''Pprof'' ''closePprofModal''
        [el ''div'' [FormLabel [str_node ''Type''] [],
           FormSelect (pprofType a) ''select_pprof_type'' PPROF_LABELS purple []],
         render_if (needsDuration (pprofType a))
           (el ''div'' [FormLabel [str_node ''Duration (seconds)''] [],
              FormInput (input_props\<lparr>in_type := ''number'', in_min := Some lowest, in_max := Some 300\<rparr>)
                (pprofDuration a) ''setPprofDuration'',
              el ''p'' [str_node (''Valid range: '' @ show_int lowest @ ''-300 seconds'')]]),
         ModalActionButtons ''closePprofModal''
           (if pprofType a = ''goroutine'' then ''fetchGoroutines'' else ''fetchPprof'')
           ''Cancel'' ''Start'' (statusLoading a)])"

section \<open>The page\<close>

text \<open>\<open>components/Navbar.tsx\<close>, which no page uses.\<close>

definition Navbar :: rendered where
  "Navbar = el ''nav'' [el ''div'' [el ''div'' [el ''h1'' [str_node ''TSymbiote'']]]]"

definition App :: "page_context \<Rightarrow> app \<Rightarrow> rendered" where
  "App pc a =
     el ''div''
       [SidebarPanel pc a,
        GraphControls a,
        ela ''main'' [(''className'', if sidebarOpen a then ''ml-120'' else ''ml-12'')]
          [PingControls a, graph_area a],
        render_if (statusPanelOpen a) (CommandOutputsPanel pc a),
        render_if (showQueryDNSModal a) (dns_modal a),
        render_if (showPprofModal a) (pprof_modal a)]"

end
