(* ===== verification/PanelProperties.thy ===== *)
theory PanelProperties
  imports ViewTypes Session
begin

text \<open>
  The output panel after a host command: whatever the state of the page, an answer of the
  declared type is shown without an exception; and where the declared type is not the whole
  truth, what happens then.
\<close>

section \<open>Types of the results\<close>

fun result_type :: "nat \<Rightarrow> host_cmd \<Rightarrow> ty" where
  "result_type n Status = StatusResult"
| "result_type n Prefs = PrefsResult"
| "result_type n DriveShares = DriveSharesResult"
| "result_type n DNSConfig = DNSOSConfig"
| "result_type n host_cmd.ServeConfig = ApiTypes.ServeConfig n"
| "result_type n AppConnRoutes = RouteInfo"
| "result_type n Goroutines = TStr"

text \<open>One row of an answer: its type, and a result that has no member \<open>error\<close>.\<close>

definition typed_row :: "nat \<Rightarrow> host_cmd \<Rightarrow> jsv \<Rightarrow> bool" where
  "typed_row n c x \<longleftrightarrow>
     has_type (HostResult (result_type n c)) x \<and>
     js_opt_prop (js_opt_prop x ''result'') ''error'' = JUndef"

lemma exn_map_mem: "exn_map f xs = Inr ys \<Longrightarrow> y \<in> set ys \<Longrightarrow> \<exists>x \<in> set xs. f x = Inr y"
  by (induction xs arbitrary: ys) (auto simp: exn_bind_def split: sum.splits)

lemma typed_row_fields:
  assumes "typed_row n c x"
  shows "js_opt_prop x ''error'' = JUndef \<or> (\<exists>s. js_opt_prop x ''error'' = JStr s)"
    "js_opt_prop x ''result'' = JUndef \<or> has_type (result_type n c) (js_opt_prop x ''result'')"
proof -
  let ?fs = "[req ''host'' TStr, opt ''error'' TStr, opt ''result'' (result_type n c)]"
  have t: "has_type (TObj ?fs) x" using assms by (simp add: typed_row_def HostResult_def)
  have get: "field_val (TObj ?fs) k (js_opt_prop x k)" for k
    using typed_prop [OF t, of k] unfolding ok_def js_opt_prop_def by (elim exE conjE) simp
  show "js_opt_prop x ''error'' = JUndef \<or> (\<exists>s. js_opt_prop x ''error'' = JStr s)"
    using field_val_cases [OF get [of "''error''"]] by (cases "js_opt_prop x ''error''") (simp_all add: type_defs)
  show "js_opt_prop x ''result'' = JUndef \<or> has_type (result_type n c) (js_opt_prop x ''result'')"
    using field_val_cases [OF get [of "''result''"]] by (simp add: type_defs)
qed

section \<open>The panel shows what it is given\<close>

lemma host_view_error: "renders (host_view pc a h (JObj [(''error'', JStr s)]))" if "s \<noteq> []"
  using that by (simp add: host_view_def obj_get_def) (intro render_intros)

lemma host_view_result:
  assumes "error_free d" "renders (result_view pc a h d)"
  shows "renders (host_view pc a h d)"
proof -
  have "d \<noteq> JUndef" using assms(1) by (auto simp: error_free_def)
  with assms show ?thesis
    by (auto simp: host_view_def error_free_def intro!: render_intros)
qed

lemma stream_view_renders: "renders (StreamResultsContent m h s t)"
  unfolding StreamResultsContent_def Let_def by (intro render_intros)

lemma result_view_typed:
  assumes c: "lastCommand a \<in> {cmd_name c, ''Logs'', ''Bus Events''}"
    and d: "c = Goroutines \<and> (\<exists>s. d = JStr s) \<or> c \<noteq> Goroutines \<and> has_type (result_type n c) d" "error_free d"
  shows "renders (result_view pc a h d)"
proof (cases "lastCommand a \<in> {''Logs'', ''Bus Events''}")
  case True
  then show ?thesis by (auto simp: result_view_def Let_def intro: stream_view_renders)
next
  case False
  with c have "lastCommand a = cmd_name c" by simp
  with d show ?thesis
    by (cases c) (auto simp: result_view_def Let_def
        intro: status_render prefs_render shares_render dns_config_render serve_render
          routes_render goroutines_render)
qed

text \<open>What a typed row stores renders, whichever state the panel is in.\<close>

lemma error_free_opt: "truthy d \<Longrightarrow> js_opt_prop d ''error'' = JUndef \<Longrightarrow> error_free d"
  by (cases d) (auto simp: error_free_def js_opt_prop_def split: option.splits)

lemma string_error_free: "error_free (JStr s)"
proof -
  have "array_index ''error'' = None" by code_simp
  then show ?thesis by (simp add: error_free_def)
qed

lemma stored_row_renders:
  assumes x: "typed_row n c x" and row: "cmd_entry c x = Inr (k, d)" and d: "truthy d"
    and cmd: "lastCommand a \<in> {cmd_name c, ''Logs'', ''Bus Events''}"
  shows "renders (host_view pc a h d)"
proof -
  note fields = typed_row_fields [OF x]
  consider (error) s where "d = JObj [(''error'', JStr s)]" "s \<noteq> []"
    | (trace) s where "c = Goroutines" "d = JStr s"
    | (result) "c \<noteq> Goroutines" "\<not> truthy (js_opt_prop x ''error'')" "d = js_opt_prop x ''result''"
  proof (cases "truthy (js_opt_prop x ''error'')")
    case True
    with fields(1) obtain s where "js_opt_prop x ''error'' = JStr s" "s \<noteq> []" by auto
    with hc.entry_error [OF row True] that(1) show ?thesis by simp
  next
    case False
    show ?thesis
    proof (cases "c = Goroutines")
      case True
      with False row that(1,2) show ?thesis
        by (auto simp: goroutines_entry_def error_object_def Let_def exn_bind_def
            split: sum.splits if_splits option.splits)
    next
      case no: False
      with False row have "d = js_opt_prop x ''result''"
        by (cases c) (auto simp: host_entry_def Let_def exn_bind_def split: sum.splits)
      with no False that(3) show ?thesis by blast
    qed
  qed
  then show ?thesis
  proof cases
    case error
    then show ?thesis using host_view_error by blast
  next
    case trace
    with cmd show ?thesis
      by (intro host_view_result string_error_free result_view_typed [of _ c]) (auto intro: string_error_free)
  next
    case result
    with d have "has_type (result_type n c) d" using fields(2) by auto
    moreover have "error_free d"
      using error_free_opt [OF d] x result(3) by (simp add: typed_row_def)
    ultimately show ?thesis
      using result(1) cmd by (intro host_view_result result_view_typed [of _ c _ n]) auto
  qed
qed

lemma typed_row_object: "typed_row n c x \<Longrightarrow> x \<noteq> JUndef \<and> x \<noteq> JNull"
  by (auto simp: typed_row_def HostResult_def)

lemma command_finish_rows:
  assumes "\<forall>x \<in> set xs. x \<noteq> JUndef \<and> x \<noteq> JNull"
    and "obj_get (outputData (command_finish (cmd_entry c) (Inr (JArr xs)) a)) h = Some d"
  shows "\<exists>x \<in> set xs. cmd_entry c x = Inr (h, d)"
proof -
  have "\<exists>rows. exn_map (cmd_entry c) xs = Inr rows"
    using assms(1)
  proof (induction xs)
    case (Cons x xs)
    then show ?case using cmd_entry_total [of x c] by auto
  qed simp
  then obtain rows where rows: "exn_map (cmd_entry c) xs = Inr rows" by blast
  then have "outputData (command_finish (cmd_entry c) (Inr (JArr xs)) a) = assign_all obj_set [] rows"
    by (simp add: command_finish_def collect_results_def show_results_def show_first_def split: list.splits)
  with assms(2) have "map_of (rev rows) h = Some d"
    by (simp add: obj.lookup_assign_all obj.lookup_empty split: option.splits)
  then have "(h, d) \<in> set rows" by (auto dest: map_of_SomeD)
  from exn_map_mem [OF rows this] show ?thesis .
qed

text \<open>
  An answer of the declared type to any host command can be shown: in whatever state the
  page is when it arrives, and also when a stream was started meanwhile, the whole output panel
  renders without an exception.\<close>

lemma typed_answer_renders:
  assumes "\<forall>x \<in> set xs. typed_row n c x"
    and "lastCommand a \<in> {cmd_name c, ''Logs'', ''Bus Events''}"
  shows "renders (CommandOutputsPanel pc (cmd_deliver (PHost c) (Json (Inr (JArr xs))) a))"
proof (rule renders_panel)
  let ?b = "cmd_deliver (PHost c) (Json (Inr (JArr xs))) a"
  fix h d assume "selected_data ?b = Some (h, d)"
  then have d: "truthy d" "obj_get (outputData ?b) h = Some d" using selected_truthy by auto
  have "\<exists>x \<in> set xs. cmd_entry c x = Inr (h, d)"
    by (rule command_finish_rows [of xs c a]) (use d(2) assms(1) typed_row_object in auto)
  then obtain x where x: "x \<in> set xs" "cmd_entry c x = Inr (h, d)" by blast
  have "lastCommand ?b = lastCommand a"
    by (simp add: command_finish_def show_results_def show_first_def split: sum.splits list.splits)
  with x d(1) assms show "renders (host_view pc ?b h d)"
    by (intro stored_row_renders [of n c x]) auto
qed

definition dns_app :: app where
  "dns_app = (app_init 800)\<lparr>lastCommand := ''DNS Config'', statusLoading := True\<rparr>"

definition dns_row :: jsv where
  "dns_row = JObj [(''host'', JStr ''a''), (''result'', JObj [(''Nameservers'', JArr [JStr ''10.0.0.1''])])]"

definition sample_context :: page_context where
  "sample_context =
     \<lparr>pc_clock = \<lparr>clk_now = 0, clk_time = (\<lambda>_. None), clk_date = show_int, clk_datetime = show_int\<rparr>,
      pc_version = ''dev'', pc_profile_url = [], pc_redact = False, pc_collapsed = []\<rparr>"

lemma typed_answer_renders_example:
  "renders (CommandOutputsPanel sample_context (cmd_deliver (PHost DNSConfig) (Json (Inr (JArr [dns_row]))) dns_app))"
proof (rule typed_answer_renders [of _ 0])
  have "typed_row 0 DNSConfig dns_row"
    by (simp add: typed_row_def dns_row_def HostResult_def DNSOSConfig_def type_defs js_opt_prop_def obj_get_def)
  then show "\<forall>x \<in> set [dns_row]. typed_row 0 DNSConfig x" by simp
qed (simp add: dns_app_def)

section \<open>Beyond the declared types\<close>

text \<open>
  The routes view relies on every domain having a list of addresses: with a domain whose
  list is null, as Go prints a nil slice, the view throws, and with it the panel and the page,
  unless the raw JSON is shown.\<close>

lemma null_domain_throws:
  assumes "obj_get (outputData a) h = Some d" "selectedOutputHost a = Some h" "h \<noteq> []"
    and "\<not> statusLoading a" "\<not> showRawJson a" "lastCommand a = ''AppConn Routes''"
    and "d = JObj m" "error_free d" "obj_get m ''Domains'' = Some (JObj ds)" "obj_get ds k = Some JNull"
  shows "\<not> renders (CommandOutputsPanel pc a)"
proof
  assume "renders (CommandOutputsPanel pc a)"
  then have "renders (panel_content pc a)"
    by (simp add: CommandOutputsPanel_def renders_iffs)
  moreover have "h \<in> set (obj_keys (outputData a))" using assms(1) by (auto simp: set_obj_keys)
  then have "obj_keys (outputData a) \<noteq> []" by auto
  moreover have "selected_data a = Some (h, d)"
    using assms(1-3,7) by (simp add: selected_data_def)
  ultimately have "renders (host_view pc a h d)" using assms(4) by (simp add: panel_content_def)
  then have view: "renders (AppConnRoutesResultsContent d)"
    using assms(5,6,8) by (simp add: host_view_def error_free_def renders_iffs result_view_def)
  have k: "k \<in> set (obj_keys ds)" using assms(10) by (auto simp: set_obj_keys)
  have domains: "js_prop d ''Domains'' = Inr (JObj ds)" using assms(7,9) by simp
  have has: "some_keys (js_prop d ''Domains'') = Inr (JBool True)"
    using k by (auto simp: domains some_keys_def js_keys_def)
  have "renders (entries_child (js_prop d ''Domains'') domain_card)"
    using view unfolding AppConnRoutesResultsContent_def has
    by (auto simp: renders_iffs Let_def js_or_def and_then_def split: if_splits)
  then have "renders (domain_card k JNull)"
    using k assms(10) by (force simp: domains entries_child_def renders_iffs)
  then show False by (simp add: domain_card_def map_child_def renders_iffs) (simp add: renders_def)
qed

definition null_routes :: app where
  "null_routes = (app_init 800)
     \<lparr>outputData := [(''a'', JObj [(''Domains'', JObj [(''example.com'', JNull)])])],
      selectedOutputHost := Some ''a'', lastCommand := ''AppConn Routes''\<rparr>"

lemma null_domain_throws_example:
  "\<not> renders (CommandOutputsPanel sample_context null_routes)"
proof (rule null_domain_throws [where m = "[(''Domains'', JObj [(''example.com'', JNull)])]"])
  show "obj_get (outputData null_routes) ''a'' = Some (JObj [(''Domains'', JObj [(''example.com'', JNull)])])"
    by (simp add: null_routes_def obj_get_def)
  show "obj_get [(''Domains'', JObj [(''example.com'', JNull)])] ''Domains'' =
      Some (JObj [(''example.com'', JNull)])" by (simp add: obj_get_def)
  show "obj_get [(''example.com'', JNull)] ''example.com'' = Some JNull" by (simp add: obj_get_def)
qed (simp_all add: null_routes_def app_init_def error_free_def obj_get_def)

end
