(* ===== verification/PageProperties.thy ===== *)
theory PageProperties
  imports PageView PanelProperties
begin

text \<open>
  What the rendered page offers the user, against the step relation of the page
  (\<open>Session\<close>): the controls are enabled exactly where the steps are, and only the view of the
  selected host can throw.
\<close>

section \<open>Offered actions\<close>

text \<open>The handlers of the elements that are not disabled.\<close>

fun offered :: "ui \<Rightarrow> string set" where
  "offered (Jsx.Text s) = {}"
| "offered (RawHtml h) = {}"
| "offered (Elem tag attrs ks) =
     (if ''disabled'' \<in> fst ` set attrs then {}
      else {act. (''onClick'', act) \<in> set attrs \<or> (''onChange'', act) \<in> set attrs})
     \<union> \<Union> (set (map offered ks))"

definition offers :: "rendered \<Rightarrow> string \<Rightarrow> bool" where
  "offers r act \<longleftrightarrow> (\<exists>us. r = Inr us \<and> (\<exists>u \<in> set us. act \<in> offered u))"

definition own_action :: "(string \<times> string) list \<Rightarrow> string \<Rightarrow> bool" where
  "own_action attrs act \<longleftrightarrow>
     ''disabled'' \<notin> fst ` set attrs \<and> ((''onClick'', act) \<in> set attrs \<or> (''onChange'', act) \<in> set attrs)"

lemma offers_nodes: "all_render ks \<Longrightarrow> offers (nodes_of ks) act \<longleftrightarrow> (\<exists>k \<in> set ks. offers k act)"
proof (induction ks)
  case (Cons k ks)
  then obtain u us where u: "k = Inr u" "nodes_of ks = Inr us"
    using renders_nodes [of ks] by (auto simp: all_render_def renders_def)
  with Cons show ?case by (auto simp: offers_def all_render_def)
qed (simp add: offers_def)

lemma offers_ela:
  "all_render ks \<Longrightarrow> offers (ela tag attrs ks) act \<longleftrightarrow> own_action attrs act \<or> (\<exists>k \<in> set ks. offers k act)"
proof -
  assume ks: "all_render ks"
  then obtain us where us: "nodes_of ks = Inr us"
    using renders_nodes_all by (auto simp: renders_def)
  show ?thesis
    using offers_nodes [OF ks, of act]
    by (auto simp: us ela_def offers_def own_action_def)
qed

lemma offers_el: "all_render ks \<Longrightarrow> offers (el tag ks) act \<longleftrightarrow> (\<exists>k \<in> set ks. offers k act)"
  by (simp add: el_def offers_ela own_action_def)

lemma offers_text: "\<not> offers (str_node s) act"
  by (simp add: offers_def str_node_def)

lemma offers_if: "offers (render_if c r) act \<longleftrightarrow> c \<and> offers r act"
  by (simp add: render_if_def offers_def)

lemma flag_iff: "''disabled'' \<in> fst ` set (flag ''disabled'' b) \<longleftrightarrow> b"
  by (cases b) (simp_all add: flag_def)

lemma set_flag: "(k, v) \<in> set (flag name b) \<longleftrightarrow> b \<and> k = name \<and> v = []"
  by (cases b) (auto simp: flag_def)

lemma set_opt_attr: "(k, v) \<in> set (opt_attr name w) \<longleftrightarrow> k = name \<and> w = Some v"
  by (cases w) (auto simp: opt_attr_def)

lemma own_action_iff:
  "own_action attrs act \<longleftrightarrow>
     (\<forall>v. (''disabled'', v) \<notin> set attrs) \<and> ((''onClick'', act) \<in> set attrs \<or> (''onChange'', act) \<in> set attrs)"
  by (force simp: own_action_def)

lemmas own_action_simps = own_action_iff set_flag set_opt_attr

lemma offers_leaf: "offers (ela tag attrs []) act \<longleftrightarrow> own_action attrs act"
  by (simp add: offers_ela all_render_def)

lemma offers_labelled: "offers (ela tag attrs [str_node s]) act \<longleftrightarrow> own_action attrs act"
  by (subst offers_ela) (auto simp: offers_text intro!: render_intros)

lemma offers_button:
  "offers (CommandButton name disabled [str_node label]) act \<longleftrightarrow> act = name \<and> \<not> disabled"
  by (auto simp: CommandButton_def offers_labelled own_action_simps)

lemma offers_checkbox:
  "offers (CheckboxListItem label checked name color tr sz) act \<longleftrightarrow> act = name"
  unfolding CheckboxListItem_def
  by (subst offers_el, intro render_intros) (auto simp: offers_leaf offers_labelled own_action_simps)

lemma offers_input: "offers (FormInput p v name) act \<longleftrightarrow> act = name"
  by (auto simp: FormInput_def offers_leaf own_action_simps)

lemma renders_button [render_intros]: "all_render ks \<Longrightarrow> renders (CommandButton act d ks)"
  unfolding CommandButton_def by (intro render_intros)

lemma renders_checkbox [render_intros]: "renders (CheckboxListItem label checked name color tr sz)"
  unfolding CheckboxListItem_def by (intro render_intros)

lemma renders_input [render_intros]: "renders (FormInput p v name)"
  unfolding FormInput_def by (intro render_intros)

lemma renders_search [render_intros]: "renders (search_input v setter ph color)"
  unfolding search_input_def by (intro render_intros)

lemma renders_count [render_intros]: "all_render (count_of n m)"
  unfolding count_of_def by (intro render_intros)

section \<open>The sidebar\<close>

text \<open>The step of the page that stands behind a control of the sidebar.\<close>

inductive sidebar_event :: "string \<Rightarrow> event \<Rightarrow> bool" where
  "sidebar_event ''setHostSearchFilter'' (Form (SearchHosts s))"
| "sidebar_event ''setTargetSearchFilter'' (Form (SearchTargets s))"
| "sidebar_event ''toggleAllHosts'' (Select ToggleAllHosts)"
| "sidebar_event ''toggleAllTargets'' (Select ToggleAllTargets)"
| "sidebar_event ''setHideOfflinePeers'' (Select ToggleHideOffline)"
| "sidebar_event (''toggleHost '' @ h) (Select (ToggleHost h))"
| "sidebar_event (''toggleTarget '' @ t) (Select (ToggleTarget t))"
| "sidebar_event ''fetchStatus'' (Click (Host Status))"
| "sidebar_event ''fetchPrefs'' (Click (Host Prefs))"
| "sidebar_event ''fetchDriveShares'' (Click (Host DriveShares))"
| "sidebar_event ''fetchDNSConfig'' (Click (Host DNSConfig))"
| "sidebar_event ''fetchServeConfig'' (Click (Host ServeConfig))"
| "sidebar_event ''fetchAppConnRoutes'' (Click (Host AppConnRoutes))"
| "sidebar_event ''openQueryDNSModal'' (Form OpenDNS)"
| "sidebar_event ''openPprofModal'' (Form OpenPprof)"
| "sidebar_event ''fetchLogs'' (ClickLogs b)"
| "sidebar_event ''fetchBusEvents'' (ClickBusEvents b)"

lemma offers_hosts:
  "offers (hosts_section pc a) act \<longleftrightarrow>
     act = ''setHostSearchFilter'' \<or> act = ''toggleAllHosts''
     \<or> (\<exists>h \<in> set (filteredHostsForDisplay a). act = ''toggleHost '' @ h)"
proof -
  have "offers (el ''h3'' (str_node ''Hosts ('' # count_of n m)) act \<longleftrightarrow> False" for n m
    by (subst offers_el, intro render_intros) (simp add: count_of_def offers_text)
  moreover have "offers (el ''div'' (map (\<lambda>h. CheckboxListItem (f h) (g h) (''toggleHost '' @ h) c tr sz) hs)) act
      \<longleftrightarrow> (\<exists>h \<in> set hs. act = ''toggleHost '' @ h)" for f g c tr sz hs
    by (subst offers_el, intro render_intros) (simp add: offers_checkbox)
  ultimately show ?thesis
    unfolding hosts_section_def
    by (subst offers_el, intro render_intros)
      (auto simp: search_input_def offers_input offers_labelled own_action_simps)
qed

lemma offers_peers:
  "offers (peers_section pc a) act \<longleftrightarrow>
     act = ''setHideOfflinePeers'' \<or> act = ''setTargetSearchFilter''
     \<or> act = ''toggleAllTargets'' \<and> app_reachable a \<noteq> []
     \<or> (\<exists>t \<in> set (filteredTargetsForDisplay a). act = ''toggleTarget '' @ t)"
proof -
  have "offers (el ''h3'' (str_node ''Peers ('' # count_of n m)) act \<longleftrightarrow> False" for n m
    by (subst offers_el, intro render_intros) (simp add: count_of_def offers_text)
  moreover have "offers (el ''div''
      (if length ts > 0 then map (\<lambda>t. CheckboxListItem (f t) (g t) (''toggleTarget '' @ t) c tr sz) ts
       else [el ''p'' [str_node s]])) act
      \<longleftrightarrow> (\<exists>t \<in> set ts. act = ''toggleTarget '' @ t)" for f g c tr sz ts s
    by (cases "ts = []"; simp; subst offers_el)
      (auto simp: offers_checkbox offers_text el_def offers_labelled own_action_simps intro!: render_intros)
  ultimately show ?thesis
    unfolding peers_section_def Let_def
    by (subst offers_el, intro render_intros; (simp split: if_splits)?; (intro conjI impI render_intros)?)
      (auto simp: search_input_def offers_input offers_checkbox offers_labelled own_action_simps)
qed

lemma offers_buttons:
  "(\<exists>b \<in> set bs. offers (case b of (name, label) \<Rightarrow> CommandButton name d [str_node label]) act)
     \<longleftrightarrow> \<not> d \<and> act \<in> fst ` set bs"
  by (force simp: offers_button)

lemma renders_button_case [render_intros]:
  "renders (case b of (name, label) \<Rightarrow> CommandButton name d [str_node label])"
  by (cases b) (auto intro!: render_intros)

lemma offers_commands:
  "offers (commands_section a) act \<longleftrightarrow>
     selectedHosts a \<noteq> [] \<and>
     (\<not> statusLoading a \<and> act \<in> set (''fetchStatus'' # map fst COMMAND_BUTTONS)
      \<or> \<not> isStreaming (app_stream a) \<and> act \<in> set (map fst STREAM_BUTTONS))"
proof -
  have "offers (el ''div'' (CommandButton ''fetchStatus'' d [str_node s]
        # map (\<lambda>(name, label). CommandButton name d [str_node label]) bs
        @ map (\<lambda>(name, label). CommandButton name e [str_node label]) cs)) act
     \<longleftrightarrow> \<not> d \<and> act \<in> set (''fetchStatus'' # map fst bs) \<or> \<not> e \<and> act \<in> set (map fst cs)" for d e s bs cs
    by (subst offers_el, intro render_intros)
      (auto simp: offers_button offers_buttons bex_Un)
  then show ?thesis
    unfolding commands_section_def Let_def
    by (subst offers_el, intro render_intros)
      (auto simp: el_def offers_labelled own_action_simps)
qed

lemma renders_sections:
  "renders (hosts_section pc a)" "renders (peers_section pc a)" "renders (commands_section a)"
  unfolding hosts_section_def peers_section_def commands_section_def Let_def
  by (intro render_intros; (simp split: if_splits)?; (intro conjI impI render_intros)?)+

lemma offers_sidebar:
  "offers (SidebarPanel pc a) act \<longleftrightarrow>
     act = ''setSidebarOpen''
     \<or> sidebarOpen a \<and>
       (offers (hosts_section pc a) act \<or> offers (peers_section pc a) act \<or> offers (commands_section a) act)"
proof -
  let ?body = "el ''div''
     [el ''div'' [el ''h1'' [str_node ''TSymbiote'']],
      el ''div'' [el ''div'' [hosts_section pc a, peers_section pc a], commands_section a]]"
  have arrow: "offers (ela ''svg'' attrs [el ''path'' []]) act \<longleftrightarrow> own_action attrs act" for attrs
    by (subst offers_ela, intro render_intros) (simp add: el_def offers_leaf own_action_simps)
  have toggle: "offers (ela ''button'' [(''onClick'', ''setSidebarOpen'')]
      [ela ''svg'' attrs [el ''path'' []]]) act \<longleftrightarrow> act = ''setSidebarOpen'' \<or> own_action attrs act" for attrs
    by (subst offers_ela, intro render_intros) (simp add: arrow own_action_simps)
  have lists: "offers (el ''div'' [hosts_section pc a, peers_section pc a]) act
      \<longleftrightarrow> offers (hosts_section pc a) act \<or> offers (peers_section pc a) act"
    by (subst offers_el, intro render_intros renders_sections) auto
  have columns: "offers (el ''div'' [el ''div'' [hosts_section pc a, peers_section pc a], commands_section a]) act
      \<longleftrightarrow> offers (hosts_section pc a) act \<or> offers (peers_section pc a) act \<or> offers (commands_section a) act"
    by (subst offers_el, intro render_intros renders_sections) (simp add: lists)
  have title: "\<not> offers (el ''div'' [el ''h1'' [str_node ''TSymbiote'']]) act"
    by (subst offers_el, intro render_intros) (auto simp: el_def offers_labelled own_action_simps)
  have body: "offers ?body act \<longleftrightarrow>
      offers (hosts_section pc a) act \<or> offers (peers_section pc a) act \<or> offers (commands_section a) act"
    using columns title by (subst offers_el, intro render_intros renders_sections) auto
  show ?thesis
    unfolding SidebarPanel_def
    using body toggle
    by (subst offers_ela, intro render_intros renders_sections) (auto simp: offers_if own_action_simps)
qed

lemma event_image:
  "(\<exists>e. (\<exists>x. e = f x) \<and> P e) \<longleftrightarrow> (\<exists>x. P (f x))"
  "(\<exists>e. (\<exists>x. y = g x \<and> e = f x) \<and> P e) \<longleftrightarrow> (\<exists>x. P (f x) \<and> y = g x)"
  by auto

text \<open>
  C8. The open sidebar offers a control exactly where the step behind it is enabled: its search
  fields, selection toggles, command buttons and stream buttons are the steps of the page, one
  for one, and the closed sidebar offers only the button that opens it.
\<close>

theorem sidebar_offers_exactly:
  "offers (SidebarPanel pc (pg_app p)) act \<longleftrightarrow>
     act = ''setSidebarOpen''
     \<or> sidebarOpen (pg_app p) \<and> (\<exists>e. sidebar_event act e \<and> page_enabled e p)"
  unfolding offers_sidebar offers_hosts offers_peers offers_commands
  by (simp add: sidebar_event.simps COMMAND_BUTTONS_def STREAM_BUTTONS_def conj_disj_distribR
      ex_disj_distrib event_image Bex_def) argo

section \<open>The modals\<close>

text \<open>The command behind the submit button of a modal.\<close>

fun submit_command :: "string \<Rightarrow> command option" where
  "submit_command act =
     (if act = ''fetchQueryDNS'' then Some DNSCmd
      else if act = ''fetchPprof'' then Some PprofCmd
      else if act = ''fetchGoroutines'' then Some (Host Goroutines) else None)"

lemma submit_command_iff:
  "submit_command act = Some c \<longleftrightarrow>
     act = ''fetchQueryDNS'' \<and> c = DNSCmd \<or> act = ''fetchPprof'' \<and> c = PprofCmd
     \<or> act = ''fetchGoroutines'' \<and> c = Host Goroutines"
  by (auto split: if_splits)

definition modal_button :: "app \<Rightarrow> string \<Rightarrow> bool" where
  "modal_button a act \<longleftrightarrow>
     showQueryDNSModal a \<and> offers (dns_modal a) act \<or> showPprofModal a \<and> offers (pprof_modal a) act"

definition modal_enter :: "app \<Rightarrow> command \<Rightarrow> bool" where
  "modal_enter a c \<longleftrightarrow>
     showQueryDNSModal a \<and> Modal_handleKeyDown (dns_onSubmit a) ''Enter'' = Some c
     \<or> showPprofModal a \<and> Modal_handleKeyDown (pprof_onSubmit a) ''Enter'' = Some c"

lemma offers_action_buttons:
  "offers (ModalActionButtons cancel submit ct st d) act \<longleftrightarrow> act = cancel \<or> act = submit \<and> \<not> d"
  unfolding ModalActionButtons_def
  by (subst offers_el, intro render_intros) (auto simp: offers_labelled own_action_simps)

lemma renders_action_buttons [render_intros]: "renders (ModalActionButtons cancel submit ct st d)"
  unfolding ModalActionButtons_def by (intro render_intros)

lemma renders_form_label [render_intros]: "all_render ks \<Longrightarrow> renders (FormLabel ks cls)"
  unfolding FormLabel_def by (intro render_intros)

lemma offers_form_label: "\<not> offers (FormLabel [str_node s] cls) act"
  by (simp add: FormLabel_def offers_labelled own_action_simps)

lemma renders_option_case [render_intros]:
  "renders (case b of (v, label) \<Rightarrow> ela ''option'' [(''value'', v)] [str_node label])"
  by (cases b) (auto intro!: render_intros)

lemma renders_form_select [render_intros]: "renders (FormSelect v name opts color cls)"
  unfolding FormSelect_def by (intro render_intros)

lemma offers_form_select: "offers (FormSelect v name opts color cls) act \<longleftrightarrow> act = name"
  unfolding FormSelect_def
  by (subst offers_ela, intro render_intros) (auto simp: own_action_simps offers_labelled)

lemma offers_modal:
  "all_render ks \<Longrightarrow> offers (Modal title close ks) act \<longleftrightarrow> act = close \<or> (\<exists>k \<in> set ks. offers k act)"
proof -
  assume ks: "all_render ks"
  have icon: "\<not> offers (el ''svg'' [el ''path'' []]) act"
    by (subst offers_el, intro render_intros) (simp add: el_def offers_leaf own_action_simps)
  have x: "offers (ela ''button'' [(''onClick'', close)] [el ''svg'' [el ''path'' []]]) act \<longleftrightarrow> act = close"
    by (subst offers_ela, intro render_intros) (simp add: icon own_action_simps)
  have bar: "offers (el ''div'' [el ''h3'' [str_node title],
      ela ''button'' [(''onClick'', close)] [el ''svg'' [el ''path'' []]]]) act \<longleftrightarrow> act = close"
    using x by (subst offers_el, intro render_intros) (auto simp: el_def offers_labelled own_action_simps)
  have inner: "offers (el ''div'' [el ''div'' [el ''h3'' [str_node title],
        ela ''button'' [(''onClick'', close)] [el ''svg'' [el ''path'' []]]], el ''div'' ks]) act
      \<longleftrightarrow> act = close \<or> (\<exists>k \<in> set ks. offers k act)"
    using bar ks by (subst offers_el, intro render_intros) (auto simp: offers_el)
  show ?thesis
    unfolding Modal_def using inner ks
    by (subst offers_ela, intro render_intros) (auto simp: own_action_simps)
qed

lemma offers_dns_modal:
  "offers (dns_modal a) act \<longleftrightarrow>
     act \<in> {''closeQueryDNSModal'', ''setDnsName'', ''setDnsQueryType''}
     \<or> act = ''fetchQueryDNS'' \<and> js_trim (dnsName a) \<noteq> [] \<and> \<not> statusLoading a"
proof -
  have row: "offers (el ''div'' [FormLabel [str_node s] cls, k]) act \<longleftrightarrow> offers k act" if "renders k" for s cls k
    using that by (subst offers_el, intro render_intros) (auto simp: offers_form_label)
  show ?thesis
    unfolding dns_modal_def
    by (subst offers_modal, intro render_intros)
      (auto simp: row offers_input offers_form_select offers_action_buttons render_intros)
qed

lemma offers_pprof_modal:
  "offers (pprof_modal a) act \<longleftrightarrow>
     act \<in> {''closePprofModal'', ''select_pprof_type''}
     \<or> act = ''setPprofDuration'' \<and> needsDuration (pprofType a)
     \<or> act = (if pprofType a = ''goroutine'' then ''fetchGoroutines'' else ''fetchPprof'') \<and> \<not> statusLoading a"
proof -
  have row: "offers (el ''div'' [FormLabel [str_node s] cls, k]) act \<longleftrightarrow> offers k act" if "renders k" for s cls k
    using that by (subst offers_el, intro render_intros) (auto simp: offers_form_label)
  have row3: "offers (el ''div'' [FormLabel [str_node s] cls, k, el ''p'' [str_node t]]) act \<longleftrightarrow> offers k act"
    if "renders k" for s cls k t
    using that by (subst offers_el, intro render_intros)
      (auto simp: offers_form_label el_def offers_labelled own_action_simps)
  show ?thesis
    unfolding pprof_modal_def Let_def
    by (subst offers_modal, intro render_intros)
      (simp add: row row3 offers_if offers_input offers_form_select offers_action_buttons render_intros, argo)
qed

text \<open>
  In the two modals, the command that Enter runs and the command of the submit button agree,
  and they are the one that the page's step relation enables: a blank name and a pending command
  block both, and a goroutine dump takes the place of a profile where that type is chosen.
\<close>

lemma modal_enter_agrees:
  "(modal_enter a c \<longleftrightarrow> c \<in> {DNSCmd, PprofCmd, Host Goroutines} \<and> click_enabled c a)
   \<and> ((\<exists>act. submit_command act = Some c \<and> modal_button a act) \<longleftrightarrow>
       c \<in> {DNSCmd, PprofCmd, Host Goroutines} \<and> click_enabled c a)"
proof
  show "modal_enter a c \<longleftrightarrow> c \<in> {DNSCmd, PprofCmd, Host Goroutines} \<and> click_enabled c a"
    by (cases c) (auto simp: modal_enter_def Modal_handleKeyDown_def dns_onSubmit_def pprof_onSubmit_def)
  have buttons: "modal_button a ''fetchQueryDNS'' \<longleftrightarrow> click_enabled DNSCmd a"
    "modal_button a ''fetchPprof'' \<longleftrightarrow> click_enabled PprofCmd a"
    "modal_button a ''fetchGoroutines'' \<longleftrightarrow> click_enabled (Host Goroutines) a"
    by (auto simp: modal_button_def offers_dns_modal offers_pprof_modal)
  have "(\<exists>act. submit_command act = Some c \<and> modal_button a act) \<longleftrightarrow>
      c = DNSCmd \<and> modal_button a ''fetchQueryDNS'' \<or> c = PprofCmd \<and> modal_button a ''fetchPprof''
      \<or> c = Host Goroutines \<and> modal_button a ''fetchGoroutines''"
    unfolding submit_command_iff by blast
  also have "\<dots> \<longleftrightarrow> c \<in> {DNSCmd, PprofCmd, Host Goroutines} \<and> click_enabled c a"
    unfolding buttons by (cases c) auto
  finally show "(\<exists>act. submit_command act = Some c \<and> modal_button a act) \<longleftrightarrow>
      c \<in> {DNSCmd, PprofCmd, Host Goroutines} \<and> click_enabled c a" .
qed

section \<open>The page renders\<close>

lemma renders_node [render_intros]: "renders (render_node n)"
  unfolding render_node_def Let_def by (auto intro!: render_intros)

lemma renders_edge [render_intros]: "renders (render_edge e)"
  unfolding render_edge_def by (intro render_intros)

lemma renders_graph_area [render_intros]: "renders (graph_area a)"
  unfolding graph_area_def graph_canvas_def Let_def by (auto intro!: render_intros)

lemma renders_sidebar [render_intros]: "renders (SidebarPanel pc a)"
  unfolding SidebarPanel_def by (intro render_intros renders_sections)

lemma renders_graph_controls [render_intros]: "renders (GraphControls a)"
  unfolding GraphControls_def by (intro render_intros)

lemma renders_ping_controls [render_intros]: "renders (PingControls a)"
  unfolding PingControls_def ping_settings_def number_input_def ConnectionLegend_def legend_row_def
  by (intro render_intros)

lemma renders_modal [render_intros]: "all_render ks \<Longrightarrow> renders (Modal title close ks)"
  unfolding Modal_def by (intro render_intros)

lemma renders_modals [render_intros]: "renders (dns_modal a)" "renders (pprof_modal a)"
  unfolding dns_modal_def pprof_modal_def Let_def by (intro render_intros)+

lemma panel_renders_iff:
  "renders (CommandOutputsPanel pc a) \<longleftrightarrow>
     \<not> (\<not> statusLoading a \<and> (\<exists>h d. selected_data a = Some (h, d) \<and> \<not> renders (host_view pc a h d)))"
proof
  assume r: "renders (CommandOutputsPanel pc a)"
  show "\<not> (\<not> statusLoading a \<and> (\<exists>h d. selected_data a = Some (h, d) \<and> \<not> renders (host_view pc a h d)))"
  proof (clarify)
    fix h d
    assume a: "\<not> statusLoading a" "selected_data a = Some (h, d)" "\<not> renders (host_view pc a h d)"
    then have "length (obj_keys (outputData a)) \<noteq> 0"
      using selected_truthy [OF a(2)] using set_obj_keys [of "outputData a"] by auto
    then show False
      using r a by (simp add: CommandOutputsPanel_def panel_content_def renders_iffs)
  qed
next
  assume "\<not> (\<not> statusLoading a \<and> (\<exists>h d. selected_data a = Some (h, d) \<and> \<not> renders (host_view pc a h d)))"
  then show "renders (CommandOutputsPanel pc a)" by (intro renders_panel) auto
qed

lemma app_renders_panel:
  "renders (App pc a) \<longleftrightarrow> renders (render_if (statusPanelOpen a) (CommandOutputsPanel pc a))"
  unfolding App_def
  by (auto simp: renders_el_iff renders_ela_iff renders_sidebar renders_graph_controls
      renders_ping_controls renders_graph_area renders_if renders_modals)

text \<open>
  C21. The page never goes down except for the view of the output panel: rendering throws exactly
  when the panel is open, no command is pending, and the view of the selected host's data throws.
  The sidebar, the graph, its controls and the modals render in every state.
\<close>

theorem app_renders:
  "renders (App pc a) \<longleftrightarrow>
     \<not> (statusPanelOpen a \<and> \<not> statusLoading a
        \<and> (\<exists>h d. selected_data a = Some (h, d) \<and> \<not> renders (host_view pc a h d)))"
  unfolding app_renders_panel by (auto simp: render_if_def renders_Inr panel_renders_iff)

end
