(* ===== verification/AnswerViews.thy ===== *)
theory AnswerViews
  imports PanelProperties
begin

text \<open>
  Type soundness of the views of the answers that \<open>api.ts\<close> leaves open: the results of a ping,
  a DNS query and a profile. The types say what the views rely on.
\<close>

section \<open>Ping\<close>

definition PingEntry :: ty where
  "PingEntry = TObj
     [opt ''error'' TStr, opt ''Err'' TStr, opt ''IsLocalIP'' TBool, opt ''LatencySeconds'' TNum,
      opt ''NodeName'' TStr, opt ''IP'' TStr, opt ''NodeIP'' TStr, opt ''Endpoint'' TStr,
      opt ''PeerRelay'' TStr, opt ''DERPRegionCode'' TStr, opt ''DERPRegionID'' TNum,
      opt ''PeerAPIURL'' TStr, opt ''PeerAPIPort'' TNum]"

definition PingRow :: ty where
  "PingRow = TObj [opt ''host'' TStr, opt ''target'' TStr, opt ''results'' (or_null (TArr PingEntry))]"

lemmas ping_type_defs = PingEntry_def type_defs

lemma entry_reads: "has_type PingEntry v \<Longrightarrow> typed_reads v PingEntry"
  unfolding PingEntry_def by (rule typed_readsI)

lemma ping_details_render: "has_type PingEntry v \<Longrightarrow> renders (ping_details v)"
  unfolding ping_details_def field_if_def mono_if_def ping_badge_def
  by (drule entry_reads, intro render_intros;
      ((rule read_shown read_defined, assumption, (simp add: ping_type_defs; fail),
         intro render_intros renders_child; assumption?)
       | (rule read_any, assumption, intro render_intros)))

lemma entry_field: "has_type PingEntry v \<Longrightarrow> flat (field_ty PingEntry k) \<Longrightarrow>
    \<exists>w. js_prop v k = Inr w \<and> showable w"
  using entry_reads [of v] by (auto simp: typed_reads_def ok_def dest!: spec [of _ k] field_showable)

lemma ping_entry_render: "\<not> truthy v \<or> has_type PingEntry v \<Longrightarrow> renders (ping_entry v)"
proof (cases "truthy v")
  case True
  assume "\<not> truthy v \<or> has_type PingEntry v"
  with True have v: "has_type PingEntry v" by simp
  obtain e where e: "js_prop v ''error'' = Inr e" "showable e"
    using entry_field [OF v, of "''error''"] by (auto simp: ping_type_defs)
  obtain e' where e': "js_prop v ''Err'' = Inr e'" "showable e'"
    using entry_field [OF v, of "''Err''"] by (auto simp: ping_type_defs)
  have "showable (js_or e e')" using e(2) e'(2) by (simp add: js_or_def)
  with True ping_details_render [OF v] show ?thesis
    by (auto simp: ping_entry_def e(1) e'(1) intro!: render_intros renders_child)
qed (auto simp: ping_entry_def intro!: render_intros)

text \<open>What may be stored for a pair: the results, nothing, or the error of the request.\<close>

definition ping_value :: "jsv \<Rightarrow> bool" where
  "ping_value v \<longleftrightarrow> v = JUndef \<or> has_type (or_null (TArr PingEntry)) v \<or> has_type PingEntry v"

lemma ping_peer_render:
  assumes "ping_value v"
  shows "renders (ping_peer peer v)"
proof -
  let ?rs = "case v of JArr xs \<Rightarrow> xs | _ \<Rightarrow> [v]"
  have entries: "\<forall>x \<in> set ?rs. \<not> truthy x \<or> has_type PingEntry x"
    using assms by (cases v) (auto simp: ping_value_def or_null_def list_all_iff PingEntry_def)
  show ?thesis
    unfolding ping_peer_def Let_def ping_badge_def
    by (intro render_intros ping_entry_render) (use entries in blast)
qed

lemma ping_render:
  assumes "\<And>k v. obj_get m k = Some v \<Longrightarrow> ping_value v" "obj_get m ''error'' = None"
  shows "renders (PingResultsContent (JObj m))"
proof -
  let ?es = "filter (\<lambda>(key, _). key \<noteq> ''error'' \<and> key \<noteq> ''host'')
      (map (\<lambda>k. (k, case obj_get m k of None \<Rightarrow> JUndef | Some v \<Rightarrow> v)) (obj_keys m))"
  have "renders (ping_peer k v)" if "(k, v) \<in> set ?es" for k v
  proof -
    from that have "k \<in> dom (obj_get m)" "v = (case obj_get m k of None \<Rightarrow> JUndef | Some v \<Rightarrow> v)"
      using set_obj_keys [of m] by auto
    with assms(1) show ?thesis by (auto intro!: ping_peer_render)
  qed
  then have "all_render (map (\<lambda>(peerId, peerData). ping_peer peerId peerData) ?es)"
    by (auto simp: all_render_def simp del: set_filter)
  then show ?thesis
    using assms(2) by (auto simp: PingResultsContent_def unless_error_def Let_def intro!: render_intros)
qed

section \<open>DNS query\<close>

definition DNSHeader :: ty where
  "DNSHeader = TObj
     [opt ''name'' TStr, opt ''type'' TStr, opt ''class'' TStr, opt ''responseCode'' TStr, opt ''ttl'' TNum]"

definition DNSShown :: "(string \<times> bool \<times> ty) list" where
  "DNSShown =
     [opt ''error'' TStr, opt ''header'' DNSHeader, opt ''responses'' (or_null (TArr TStr)),
      opt ''resolvers'' (or_null (TArr TStr))]"

definition DNSRow :: ty where
  "DNSRow = TObj (req ''host'' TStr # DNSShown)"

lemmas dns_type_defs = DNSHeader_def DNSShown_def type_defs

lemma dns_header_render: "typed_reads hdr DNSHeader \<Longrightarrow> renders (dns_header hdr)"
proof -
  assume r: "typed_reads hdr DNSHeader"
  have "renders (and_then (js_prop hdr ''responseCode'') (\<lambda>rc.
      exn_bind (getResponseCodeColor rc) (\<lambda>color. ela ''span'' [(''className'', color)] [child rc])))"
  proof (rule renders_and_ok)
    show "ok (js_prop hdr ''responseCode'') (field_val DNSHeader ''responseCode'')"
      using r by (simp add: typed_reads_def)
    fix w assume "field_val DNSHeader ''responseCode'' w" "truthy w"
    then obtain s where "w = JStr s"
      using field_val_cases [of DNSHeader "''responseCode''" w] by (auto simp: dns_type_defs split: jsv.splits)
    then show "renders (exn_bind (getResponseCodeColor w) (\<lambda>color. ela ''span'' [(''className'', color)] [child w]))"
      by (auto intro!: render_intros)
  qed
  then show ?thesis unfolding dns_header_def by (intro render_intros)
qed

lemma renders_text_field [render_intros]: "renders (FieldRow label (JStr s))"
  by (rule renders_field) simp

lemma dns_details_render: "typed_reads hdr DNSHeader \<Longrightarrow> renders (dns_details hdr)"
  unfolding dns_details_def field_if_def mono_if_def
  by (intro render_intros; rule read_shown read_defined, assumption, (simp add: dns_type_defs; fail),
      rule renders_text_field renders_field renders_field_class; assumption?)

lemma dns_render:
  assumes "has_type (TObj DNSShown) d"
  shows "renders (QueryDNSResultsContent d)"
proof -
  have r: "typed_reads d (TObj DNSShown)" by (rule typed_readsI [OF assms])
  have header: "renders (el ''div''
      [dns_header hdr, dns_details hdr,
       and_then (some_items (js_prop d ''responses'')) (\<lambda>_.
         el ''div''
           [el ''h6'' [str_node ''Responses''],
            el ''div'' [map_child (js_prop d ''responses'') (\<lambda>r. el ''div'' [el ''p'' [child r]])]]),
       and_then (some_items (js_prop d ''resolvers'')) (\<lambda>_.
         exn_bind (js_prop d ''resolvers'') (\<lambda>rs.
           ListSection_class ''Resolvers'' rs ''text-white font-mono text-sm''))])"
    if h: "typed_reads hdr DNSHeader" for hdr
  proof (intro render_intros dns_header_render dns_details_render h)
    show "renders (and_then (some_items (js_prop d ''responses'')) (\<lambda>_.
         el ''div''
           [el ''h6'' [str_node ''Responses''],
            el ''div'' [map_child (js_prop d ''responses'') (\<lambda>r. el ''div'' [el ''p'' [child r]])]]))"
    proof (rule renders_some_items)
      show "ok (js_prop d ''responses'') (field_val (TObj DNSShown) ''responses'')"
        using r by (simp add: typed_reads_def)
      fix w assume w: "js_prop d ''responses'' = Inr w" "field_val (TObj DNSShown) ''responses'' w" "truthy w"
      then have "list_of showable w" by (intro field_list_of [of "TObj DNSShown" "''responses''"]) (simp_all add: dns_type_defs)
      then show "renders (el ''div''
           [el ''h6'' [str_node ''Responses''],
            el ''div'' [map_child (js_prop d ''responses'') (\<lambda>r. el ''div'' [el ''p'' [child r]])]])"
        unfolding w(1) by (intro render_intros renders_list renders_child)
    qed
    show "renders (and_then (some_items (js_prop d ''resolvers'')) (\<lambda>_.
         exn_bind (js_prop d ''resolvers'') (\<lambda>rs.
           ListSection_class ''Resolvers'' rs ''text-white font-mono text-sm'')))"
      by (rule read_list [OF r]) (simp add: dns_type_defs, intro render_intros)
  qed
  have box: "renders (error_box [el ''h5'' [str_node ''Error'']] d)"
    unfolding error_box_def
    by (rule read_shown [OF r]) (simp add: dns_type_defs, intro render_intros renders_child)
  show ?thesis
    unfolding QueryDNSResultsContent_def
    by (intro render_intros box, rule read_object [OF r])
      (simp add: dns_type_defs, rule header, simp add: dns_type_defs)
qed

section \<open>Profiles\<close>

lemma pprof_render: "renders (PprofViewer url (snd (pprof_entry ty (h, outcome))))"
  by (cases outcome)
    (auto simp: pprof_entry_def PprofViewer_def PprofViewer_body_def obj_get_def no_profile_def Let_def
      js_or_def js_opt_prop_def intro!: render_intros)

end
