(* ===== verification/PageSafety.thy ===== *)
theory PageSafety
  imports PageProperties SessionProperties AnswerViews
begin

text \<open>
  Type soundness of the page: as long as the answers have the types the client takes them to
  have, no interleaving of the user's actions, the stream's events and the answers makes a
  component throw.
\<close>

section \<open>Typed answers\<close>

text \<open>
  The answers a pending command may get. A ping may fail, for its failure is shown in place of
  its results; no target is named \<open>error\<close>, which the panel takes for an error of the host.
\<close>

definition typed_ping_row :: "jsv \<Rightarrow> bool" where
  "typed_ping_row x \<longleftrightarrow> has_type PingRow x \<and> to_str (js_opt_prop x ''target'') \<noteq> ''error''"

fun typed_reply :: "nat \<Rightarrow> pending \<Rightarrow> reply \<Rightarrow> bool" where
  "typed_reply n (PHost c) r = (case r of Json (Inr (JArr xs)) \<Rightarrow> list_all (typed_row n c) xs | _ \<Rightarrow> False)"
| "typed_reply n (PPing hts) r =
     (''error'' \<notin> set (concat (map snd hts)) \<and>
      (case r of Json (Inl e) \<Rightarrow> True | Json (Inr (JArr xs)) \<Rightarrow> list_all typed_ping_row xs | _ \<Rightarrow> False))"
| "typed_reply n PDNS r =
     (case r of Json (Inr (JArr xs)) \<Rightarrow> list_all (has_type DNSRow) xs | _ \<Rightarrow> False)"
| "typed_reply n (PPprof ty) r = (case r of Profiles (Inr rsp) files \<Rightarrow> rsp_ok rsp | _ \<Rightarrow> False)"

text \<open>
  Steps with such answers, in which a command is only started with a host online: one that is
  abandoned at once leaves old output under a new command.
\<close>

fun event_typed :: "nat \<Rightarrow> event \<Rightarrow> page \<Rightarrow> bool" where
  "event_typed n (Click c) p = (onlineSelectedHosts (pg_app p) \<noteq> [])"
| "event_typed n (Deliver i r) p = typed_reply n (pg_pending p ! i) r"
| "event_typed n e p = True"

inductive typed_step :: "nat \<Rightarrow> page_params \<Rightarrow> page \<Rightarrow> event \<Rightarrow> page \<Rightarrow> bool"
  for n :: nat and pp :: page_params where
  typed_step: "page_step pp p e q \<Longrightarrow> event_typed n e p \<Longrightarrow> typed_step n pp p e q"

inductive_cases typed_stepE: "typed_step n pp p e q"

section \<open>Data that is safe under a command\<close>

definition safe_under :: "string \<Rightarrow> jsv \<Rightarrow> bool" where
  "safe_under cmd d \<longleftrightarrow> (\<forall>pc a h. lastCommand a = cmd \<longrightarrow> renders (host_view pc a h d))"

definition output_safe :: "string \<Rightarrow> jsv jsobj \<Rightarrow> bool" where
  "output_safe cmd m \<longleftrightarrow> (\<forall>h d. obj_get m h = Some d \<longrightarrow> truthy d \<longrightarrow> safe_under cmd d)"

definition STREAMS :: "string list" where
  "STREAMS = [''Logs'', ''Bus Events'']"

lemma safe_stream: "cmd \<in> set STREAMS \<Longrightarrow> error_free d \<Longrightarrow> safe_under cmd d"
  unfolding safe_under_def
  by (intro allI impI host_view_result) (auto simp: STREAMS_def result_view_def Let_def intro: stream_view_renders)

lemma safe_error: "s \<noteq> [] \<Longrightarrow> safe_under cmd (JObj [(''error'', JStr s)])"
  by (simp add: safe_under_def host_view_error)

lemma output_safe_rows:
  assumes "\<And>h d. (h, d) \<in> set rows \<Longrightarrow> truthy d \<Longrightarrow> safe_under cmd d"
  shows "output_safe cmd (assign_all obj_set [] rows)"
proof -
  have "(h, d) \<in> set rows" if "obj_get (assign_all obj_set [] rows) h = Some d" for h d
    using that by (auto simp: obj.lookup_assign_all obj.lookup_empty dest: map_of_SomeD split: option.splits)
  with assms show ?thesis by (auto simp: output_safe_def)
qed

section \<open>Host commands\<close>

lemma host_safe:
  assumes "list_all (typed_row n c) xs" "cmd \<in> insert (cmd_name c) (set STREAMS)"
    and "lastCommand a = cmd"
  shows "output_safe cmd (outputData (cmd_deliver (PHost c) (Json (Inr (JArr xs))) a))"
  unfolding output_safe_def
proof (intro allI impI)
  fix h d
  assume h: "obj_get (outputData (cmd_deliver (PHost c) (Json (Inr (JArr xs))) a)) h = Some d" and d: "truthy d"
  have "\<exists>x \<in> set xs. cmd_entry c x = Inr (h, d)"
    by (rule command_finish_rows [of xs c a])
      (use h assms(1) typed_row_object in \<open>auto simp: list_all_iff\<close>)
  then obtain x where "x \<in> set xs" "cmd_entry c x = Inr (h, d)" by blast
  with assms d show "safe_under cmd d"
    unfolding safe_under_def
    by (intro allI impI stored_row_renders [of n c x]) (auto simp: list_all_iff STREAMS_def)
qed

section \<open>Ping\<close>

definition ping_safe :: "ping_results \<Rightarrow> bool" where
  "ping_safe r \<longleftrightarrow>
     (\<forall>h m. obj_get r h = Some m \<longrightarrow>
        obj_get m ''error'' = None \<and> (\<forall>t v. obj_get m t = Some v \<longrightarrow> ping_value v))"

lemma ping_safe_put: "ping_safe r \<Longrightarrow> ''error'' \<noteq> t \<Longrightarrow> ping_value v \<Longrightarrow> ping_safe (put_result h t v r)"
  by (auto simp: ping_safe_def put_result_def obj_simps split: option.splits)

lemma ping_row_value:
  assumes "has_type PingRow x"
  shows "ping_value (js_opt_prop x ''results'') \<and> (\<forall>k. js_prop x k = Inr (js_opt_prop x k))"
proof -
  let ?fs = "[opt ''host'' TStr, opt ''target'' TStr, opt ''results'' (or_null (TArr PingEntry))]"
  have reads: "ok (js_prop x k) (field_val (TObj ?fs) k)" for k
    using assms unfolding PingRow_def by (rule typed_prop)
  then have read: "js_prop x k = Inr (js_opt_prop x k)" for k
    using reads [of k] unfolding ok_def js_opt_prop_def by (elim exE conjE) simp
  have "field_val (TObj ?fs) ''results'' (js_opt_prop x ''results'')"
    using reads [of "''results''"] unfolding read by (simp only: ok_def sum.inject ex_simps) simp
  then have "ping_value (js_opt_prop x ''results'')"
    by (auto simp: ping_value_def opt_def)
  with read show ?thesis by blast
qed

lemma add_results_safe:
  "list_all typed_ping_row xs \<Longrightarrow> ping_safe r \<Longrightarrow>
     fst (add_ping_results xs (r, c)) = None \<and> ping_safe (fst (snd (add_ping_results xs (r, c))))"
proof (induction xs arbitrary: r c)
  case (Cons x xs)
  then have x: "typed_ping_row x" and r: "ping_safe r" by auto
  note v = ping_row_value [OF conjunct1 [OF x [unfolded typed_ping_row_def]]]
  have "\<exists>c'. add_ping_result x (r, c) =
      Inr (put_result (to_str (js_opt_prop x ''host'')) (to_str (js_opt_prop x ''target''))
        (js_opt_prop x ''results'') r, c')"
    using v by (auto simp: add_ping_result_def)
  then obtain c' where step: "add_ping_result x (r, c) =
      Inr (put_result (to_str (js_opt_prop x ''host'')) (to_str (js_opt_prop x ''target''))
        (js_opt_prop x ''results'') r, c')" ..
  have "ping_safe (put_result (to_str (js_opt_prop x ''host'')) (to_str (js_opt_prop x ''target''))
        (js_opt_prop x ''results'') r)"
    using x v r by (intro ping_safe_put) (auto simp: typed_ping_row_def)
  with Cons.IH Cons.prems(1) show ?case by (simp add: step)
qed simp

lemma error_object_value: "ping_value (error_object s)"
  by (simp add: ping_value_def error_object_def PingEntry_def type_defs obj_get_def)

lemma mark_errored_safe:
  "''error'' \<notin> set (concat (map snd hts)) \<Longrightarrow> ping_safe r \<Longrightarrow> ping_safe (mark_errored hts e r)"
proof (induction hts arbitrary: r)
  case (Cons x hts)
  obtain h ts where x: "x = (h, ts)" by (cases x)
  have "ping_safe (foldl (\<lambda>r' t. put_result h t (error_object s) r') r ts)"
    if "''error'' \<notin> set ts" "ping_safe r" for r s
    using that by (induction ts arbitrary: r) (simp_all add: ping_safe_put error_object_value)
  with Cons show ?case by (simp add: mark_errored_def x)
qed (simp add: mark_errored_def)

lemma ping_safe_nil: "ping_safe []"
  by (simp add: ping_safe_def obj_simps)

lemma ping_outcome_safe:
  assumes "typed_reply n (PPing hts) (Json out)"
  shows "ping_safe (fst (ping_outcome hts out))"
proof -
  have "ping_safe (fst (case add_ping_results xs ([], []) of
      (None, st) \<Rightarrow> st | (Some e, (results, colors)) \<Rightarrow> (mark_errored hts e results, colors)))"
    if "list_all typed_ping_row xs" for xs
    using add_results_safe [OF that ping_safe_nil, of "[]"]
    by (cases "add_ping_results xs ([], [])") auto
  with assms show ?thesis
    by (auto simp: ping_outcome_def mark_errored_safe ping_safe_nil split: sum.splits jsv.splits)
qed

lemma ping_host_safe:
  assumes "ping_safe r" "cmd \<in> insert ''Ping'' (set STREAMS)"
  shows "output_safe cmd (ping_results_json r)"
  unfolding output_safe_def
proof (intro allI impI)
  fix h d assume "obj_get (ping_results_json r) h = Some d"
  then obtain m where m: "d = JObj m" "obj_get r h = Some m"
    by (auto simp: obj_get_def ping_results_json_def map_of_map)
  with assms(1) have safe: "obj_get m ''error'' = None" "\<And>t v. obj_get m t = Some v \<Longrightarrow> ping_value v"
    by (auto simp: ping_safe_def)
  have ef: "error_free d" using safe(1) by (simp add: error_free_def m(1))
  show "safe_under cmd d"
  proof (cases "cmd \<in> set STREAMS")
    case False
    then have "cmd = ''Ping''" using assms(2) by simp
    then show ?thesis
      unfolding safe_under_def
      by (intro allI impI host_view_result [OF ef]) (simp add: result_view_def m(1) ping_render [OF safe(2,1)])
  qed (rule safe_stream [OF _ ef])
qed

section \<open>DNS queries and profiles\<close>

lemma view_safe:
  assumes "js_prop d ''error'' = Inr e" "showable e" "cmd \<in> insert c (set STREAMS)"
    and "\<And>pc a h. lastCommand a = c \<Longrightarrow> renders (result_view pc a h d)"
  shows "safe_under cmd d"
proof -
  have d: "d \<noteq> JUndef" using assms(1) by auto
  have "renders (result_view pc a h d)" if "lastCommand a = cmd" for pc a h
    using assms(3,4) that by (auto simp: STREAMS_def result_view_def Let_def intro: stream_view_renders)
  with d assms(2) show ?thesis
    by (auto simp: safe_under_def host_view_def assms(1) intro!: render_intros renders_child)
qed

lemma dns_entry_typed:
  assumes "has_type DNSRow x"
  shows "\<exists>h d. dns_entry x = Inr (h, d) \<and> has_type (TObj DNSShown) d"
proof -
  have reads: "ok (js_prop x k) (field_val (TObj (req ''host'' TStr # DNSShown)) k)" for k
    using assms unfolding DNSRow_def by (rule typed_prop)
  have read: "js_prop x k = Inr (js_opt_prop x k)" for k
    using reads [of k] unfolding ok_def js_opt_prop_def by (elim exE conjE) simp
  have val: "field_val (TObj (req ''host'' TStr # DNSShown)) k (js_opt_prop x k)" for k
    using reads [of k] unfolding read by (simp only: ok_def sum.inject ex_simps) simp
  have "has_type (TObj DNSShown)
      (JObj [(''error'', js_opt_prop x ''error''), (''header'', js_opt_prop x ''header''),
             (''responses'', js_opt_prop x ''responses''), (''resolvers'', js_opt_prop x ''resolvers'')])"
    using val [of "''error''"] val [of "''header''"] val [of "''responses''"] val [of "''resolvers''"]
    by (simp add: DNSShown_def type_defs obj_get_def del: has_type.simps(6,9))
  then show ?thesis by (simp add: dns_entry_def read)
qed

lemma dns_safe:
  assumes "has_type (TObj DNSShown) d" "cmd \<in> insert ''Query DNS'' (set STREAMS)"
  shows "safe_under cmd d"
proof -
  obtain e where e: "js_prop d ''error'' = Inr e" "field_val (TObj DNSShown) ''error'' e"
    using typed_prop [OF assms(1), of "''error''"] by (auto simp: ok_def)
  moreover have "showable e" using e(2) by (rule field_showable) (simp add: DNSShown_def type_defs)
  ultimately show ?thesis
    using assms dns_render [OF assms(1)] by (intro view_safe) (auto simp: result_view_def)
qed

lemma dns_finish_safe:
  assumes "list_all (has_type DNSRow) xs" "cmd \<in> insert ''Query DNS'' (set STREAMS)"
  shows "\<exists>m. collect_results dns_entry (JArr xs) = Inr m \<and> output_safe cmd m"
proof -
  have "\<exists>rows. exn_map dns_entry xs = Inr rows"
    using assms(1)
  proof (induction xs)
    case (Cons x xs)
    then show ?case using dns_entry_typed [of x] by auto
  qed simp
  then obtain rows where rows: "exn_map dns_entry xs = Inr rows" ..
  have "output_safe cmd (assign_all obj_set [] rows)"
  proof (rule output_safe_rows)
    fix h d assume "(h, d) \<in> set rows"
    from exn_map_mem [OF rows this] obtain x where "x \<in> set xs" "dns_entry x = Inr (h, d)" by blast
    with dns_entry_typed [of x] assms(1) have "has_type (TObj DNSShown) d" by (auto simp: list_all_iff)
    then show "safe_under cmd d" by (rule dns_safe [OF _ assms(2)])
  qed
  with rows show ?thesis by (simp add: collect_results_def)
qed

lemma pprof_safe:
  assumes "cmd \<in> insert ''Pprof'' (set STREAMS)"
  shows "output_safe cmd (assign_all obj_set [] (map (pprof_entry ty) files))"
proof (rule output_safe_rows)
  fix h d assume "(h, d) \<in> set (map (pprof_entry ty) files)"
  then obtain f where f: "(h, d) = pprof_entry ty f" by auto
  obtain k outcome where k: "f = (k, outcome)" by (cases f)
  have "\<exists>e. js_prop d ''error'' = Inr e \<and> showable e"
    using f by (cases outcome) (auto simp: k pprof_entry_def obj_get_def)
  then obtain e where "js_prop d ''error'' = Inr e" "showable e" by blast
  moreover have "d = snd (pprof_entry ty (k, outcome))" using f k by (metis snd_conv)
  ultimately show "safe_under cmd d"
    using assms pprof_render by (intro view_safe) (auto simp: result_view_def)
qed

lemma status_safe: "cmd \<in> set STREAMS \<Longrightarrow> output_safe cmd (streaming_status hs)"
  unfolding streaming_status_rows
  by (rule output_safe_rows) (auto intro!: safe_stream simp: error_free_def obj_get_def)

section \<open>The invariant\<close>

text \<open>
  Output is shown only when nothing is loading, and is then safe under the last command; while
  a command is pending, that is its name or the name of a stream started since.
\<close>

fun pending_name :: "pending \<Rightarrow> string" where
  "pending_name (PHost c) = cmd_name c"
| "pending_name (PPing hts) = ''Ping''"
| "pending_name PDNS = ''Query DNS''"
| "pending_name (PPprof ty) = ''Pprof''"

definition view_part :: "app \<Rightarrow> jsv jsobj \<times> string \<times> bool" where
  "view_part a = (outputData a, lastCommand a, statusLoading a)"

definition view_safe_inv :: "page \<Rightarrow> bool" where
  "view_safe_inv p \<longleftrightarrow>
     page_inv p
     \<and> (\<forall>w \<in> set (pg_pending p). lastCommand (pg_app p) \<in> insert (pending_name w) (set STREAMS))
     \<and> (statusLoading (pg_app p) \<or> output_safe (lastCommand (pg_app p)) (outputData (pg_app p)))"

lemma view_safe_frame:
  "view_safe_inv p \<Longrightarrow> page_inv q \<Longrightarrow> view_part (pg_app q) = view_part (pg_app p) \<Longrightarrow>
   pg_pending q = pg_pending p \<Longrightarrow> view_safe_inv q"
  by (auto simp: view_safe_inv_def view_part_def)

subsection \<open>Steps that leave the view alone\<close>

lemma settle_view: "view_part (settle ad) = view_part (fst ad)"
  by (simp add: settle_def Let_def view_part_def effect_select_all_def effect_deselect_offline_def
      effect_prune_unreachable_def split: prod.splits)

lemma select_view: "view_part (sel_handle rd sf s a) = view_part a"
proof -
  have "view_part (fst (sel_apply rd sf s a)) = view_part a"
    by (cases s) (auto simp: view_part_def fetchData_def Let_def toggleHost_def toggleAllHosts_def
        toggleTarget_def toggleAllTargets_def filterToHost_def resetView_def split: sum.splits)
  then show ?thesis by (simp add: sel_handle_def settle_view)
qed

lemma modal_view: "view_part (closePprofModal a) = view_part a" "view_part (closeQueryDNSModal a) = view_part a"
  by (simp_all add: view_part_def closePprofModal_def closeQueryDNSModal_def)

lemma form_view: "view_part (form_apply f a) = view_part a"
  by (cases f) (simp_all add: modal_view, simp_all add: view_part_def select_pprof_type_def
      change_pingCount_def change_pingDelay_def change_pingType_def toggle_ping_settings_def Let_def)

lemma key_view: "view_part (v_app (handleKeyDown inner e v)) = view_part (v_app v)"
proof -
  have "view_part (v_app (handleResetKey v)) = view_part (v_app v)"
    unfolding reset_key_app [of v False to_str] by (rule select_view)
  moreover have "view_part (v_app (handleTabKey bk v)) = view_part (v_app v)" for bk
    by (simp add: handleTabKey_def Let_def view_part_def split: option.splits)
  moreover have "view_part (v_app (handleEscapeKey v)) = view_part (v_app v)"
    by (simp add: handleEscapeKey_def Let_def modal_view)
  moreover have "view_part (v_app (handleSpacebarKey inner v)) = view_part (v_app v)"
    by (simp add: handleSpacebarKey_def Let_def view_part_def)
  moreover have "view_part (v_app (handleBacktickKey bk v)) = view_part (v_app v)" for bk
    by (simp add: handleBacktickKey_def view_part_def)
  ultimately show ?thesis unfolding handleKeyDown_def Let_def by (simp add: letters_app)
qed

subsection \<open>Starting and answering\<close>

lemma start_view:
  assumes "click_enabled c a" "onlineSelectedHosts a \<noteq> []" "cmd_start c a = (b, ps)"
  shows "(\<exists>w. ps = [w] \<and> lastCommand b = pending_name w \<and> statusLoading b) \<or> ps = [] \<and> view_part b = view_part a"
  using assms
  by (cases c) (auto simp: Let_def command_begin_def fetchPing_begin_def alert_def view_part_def split: if_splits)

lemma stream_view_safe:
  "view_safe_inv p \<Longrightarrow> page_inv q \<Longrightarrow> n \<in> set STREAMS \<Longrightarrow>
   pg_app q = fetch_stream n ty b (pg_app p) \<Longrightarrow> pg_pending q = pg_pending p \<Longrightarrow> view_safe_inv q"
  by (auto simp: view_safe_inv_def fetch_stream_def alert_def Let_def intro: status_safe)

lemma answer_view:
  assumes "typed_reply n w r" "lastCommand a \<in> insert (pending_name w) (set STREAMS)"
  shows "output_safe (lastCommand (cmd_deliver w r a)) (outputData (cmd_deliver w r a))"
proof (cases w)
  case (PHost c)
  with assms(1) obtain xs where r: "r = Json (Inr (JArr xs))" "list_all (typed_row n c) xs"
    by (auto split: reply.splits sum.splits jsv.splits)
  have "lastCommand (cmd_deliver w r a) = lastCommand a"
    by (simp add: PHost r command_finish_def split: sum.splits)
  with host_safe [OF r(2) _ refl, of a] assms(2) show ?thesis by (simp add: PHost r(1))
next
  case (PPing hts)
  with assms(1) obtain out where r: "r = Json out" by (cases r) auto
  obtain m c where out: "ping_outcome hts out = (m, c)" by (cases "ping_outcome hts out")
  have "ping_safe m" using ping_outcome_safe [of n hts out] assms(1) by (simp add: PPing r out)
  then have "output_safe (lastCommand a) (ping_results_json m)"
    using assms(2) by (intro ping_host_safe) (simp_all add: PPing)
  then show ?thesis
    by (simp add: PPing r fetchPing_finish_def out show_first_def split: list.splits)
next
  case PDNS
  with assms(1) obtain xs where r: "r = Json (Inr (JArr xs))" "list_all (has_type DNSRow) xs"
    by (auto split: reply.splits sum.splits jsv.splits)
  from dns_finish_safe [OF r(2), of "lastCommand a"] assms(2) show ?thesis
    by (auto simp: PDNS r(1) fetchQueryDNS_finish_def closeQueryDNSModal_def)
next
  case (PPprof ty)
  with assms(1) obtain rsp files where r: "r = Profiles (Inr rsp) files" "rsp_ok rsp"
    by (auto split: reply.splits sum.splits)
  with assms(2) pprof_safe [of "lastCommand a" ty files] show ?thesis
    by (simp add: PPprof fetchPprof_finish_def)
qed

lemma view_safe_step: "view_safe_inv p \<Longrightarrow> typed_step n pp p e q \<Longrightarrow> view_safe_inv q"
proof (erule typed_stepE)
  assume inv: "view_safe_inv p" and step: "page_step pp p e q" and ty: "event_typed n e p"
  have q: "q = page_handle pp e p" and en: "page_enabled e p" using step by (auto simp: page_step_iff)
  have pinv: "page_inv p" using inv by (simp add: view_safe_inv_def)
  then have qinv: "page_inv q" by (rule page_inv_step [OF _ step])
  show "view_safe_inv q"
  proof (cases e)
    case (Click c)
    obtain b ps where start: "cmd_start c (pg_app p) = (b, ps)" by fastforce
    have en': "click_enabled c (pg_app p)" using en Click by simp
    have "pg_pending p = []" using pinv start_loading [OF en' start] by (simp add: page_inv_def)
    moreover have "view_part (pg_app q) = view_part b" "pg_pending q = pg_pending p @ ps"
      using q Click start by (simp_all add: modal_view)
    ultimately show ?thesis
      using start_view [OF en' _ start] ty Click inv qinv
      by (auto simp: view_safe_inv_def view_part_def)
  next
    case (Deliver i r)
    have shape: "i < length (pg_pending p)" "length (pg_pending p) \<le> 1"
      using en pinv Deliver by (simp_all add: page_inv_def)
    then obtain w where w: "pg_pending p = [w]" "i = 0"
      by (cases "pg_pending p") auto
    have "output_safe (lastCommand (cmd_deliver w r (pg_app p))) (outputData (cmd_deliver w r (pg_app p)))"
      by (rule answer_view [of n]) (use ty inv Deliver w in \<open>auto simp: view_safe_inv_def\<close>)
    then show ?thesis
      using q Deliver w qinv by (simp add: view_safe_inv_def remove_at_def)
  next
    case (ClickLogs b)
    then show ?thesis
      using q by (intro stream_view_safe [OF inv qinv, of "''Logs''" Logs b]) (simp_all add: STREAMS_def fetchLogs_def)
  next
    case (ClickBusEvents b)
    then show ?thesis
      using q by (intro stream_view_safe [OF inv qinv, of "''Bus Events''" BusEvents b])
        (simp_all add: STREAMS_def fetchBusEvents_def)
  qed (use q in \<open>intro view_safe_frame [OF inv qinv];
      simp add: select_view form_view key_view; simp add: view_part_def\<close>)+
qed

lemma view_safe_init: "view_safe_inv (page_init inner)"
  using page_inv_init by (simp add: view_safe_inv_def output_safe_def obj_simps page_init_def app_init_def)

interpretation typed: step_invariant "typed_step n pp" "\<lambda>p. p = page_init inner" view_safe_inv
  by unfold_locales (auto intro: view_safe_init view_safe_step)

section \<open>The page stays up\<close>


fun typed_all :: "nat \<Rightarrow> page_params \<Rightarrow> event list \<Rightarrow> page \<Rightarrow> bool" where
  "typed_all n pp [] p = True"
| "typed_all n pp (e # es) p =
     (page_enabled e p \<and> event_typed n e p \<and> typed_all n pp es (page_handle pp e p))"

lemma run_typed_all: "typed_all n pp es p \<Longrightarrow> run (typed_step n pp) p es (page_exec pp es p)"
  by (induction es arbitrary: p) (auto intro: run.intros typed_step page_step)

definition dns_events :: "event list" where
  "dns_events =
     [Select (Loaded (Inr sample_peermap)), Click (Host DNSConfig), ClickLogs True,
      Deliver 0 (Json (Inr (JArr [dns_row])))]"

lemma dns_events_typed: "typed_all 0 sample_params dns_events (page_init 800)"
  by code_simp


end
