(* ===== verification/ServerRoutes.thy ===== *)
theory ServerRoutes
  imports Api
begin

text \<open>
  The routes of the two Go servers: the known paths (\<open>api/shared/consts/paths\<close>), the middleware
  (\<open>api/shared/tsymbiote/middleware.go\<close> and the two authentication functions) and the tables of
  \<open>RegisterRoutes\<close>. Which user is behind an address (\<open>WhoIs\<close>) and whether a request can be
  upgraded to a socket are parameters.
\<close>

section \<open>Known paths\<close>

datatype KnownPath =
    StatusPath | QueryDNSPath | PingPath | PprofPath | PrefsPath | LogsPath | DriveSharesPath
  | DNSConfigPath | ServeConfigPath | AppConnRoutesPath | GoroutinesPath | HostsPath | PeerMapPath
  | BusEventsPath | EndPath

definition KnownPath_values :: "KnownPath list" where
  "KnownPath_values =
     [StatusPath, QueryDNSPath, PingPath, PprofPath, PrefsPath, LogsPath, DriveSharesPath,
      DNSConfigPath, ServeConfigPath, AppConnRoutesPath, GoroutinesPath, HostsPath, PeerMapPath,
      BusEventsPath, EndPath]"

text \<open>The integer a constant stands for, by \<open>iota\<close>.\<close>

definition iota :: "KnownPath \<Rightarrow> nat" where
  "iota k = length (takeWhile (\<lambda>x. x \<noteq> k) KnownPath_values)"

definition KnownPath_name :: string where
  "KnownPath_name =
     ''StatusQueryDNSPingPprofPrefsLogsDriveSharesDNSConfigServeConfigAppConnRoutesGoroutinesHostsPeerMapBusEventsEnd''"

definition KnownPath_index :: "nat list" where
  "KnownPath_index = [0, 6, 14, 18, 23, 28, 32, 43, 52, 63, 76, 86, 91, 98, 107, 110]"

definition path_String :: "KnownPath \<Rightarrow> string" where
  "path_String k =
     (let idx = iota k; lo = KnownPath_index ! idx; hi = KnownPath_index ! (idx + 1)
      in take (hi - lo) (drop lo KnownPath_name))"

text \<open>The generated table cuts the names as they are declared.\<close>

lemma path_names:
  "path_String StatusPath = ''Status''" "path_String QueryDNSPath = ''QueryDNS''"
  "path_String PingPath = ''Ping''" "path_String PprofPath = ''Pprof''" "path_String PrefsPath = ''Prefs''"
  "path_String LogsPath = ''Logs''" "path_String DriveSharesPath = ''DriveShares''"
  "path_String DNSConfigPath = ''DNSConfig''" "path_String ServeConfigPath = ''ServeConfig''"
  "path_String AppConnRoutesPath = ''AppConnRoutes''" "path_String GoroutinesPath = ''Goroutines''"
  "path_String HostsPath = ''Hosts''" "path_String PeerMapPath = ''PeerMap''"
  "path_String BusEventsPath = ''BusEvents''" "path_String EndPath = ''End''"
  by (simp_all add: path_String_def iota_def KnownPath_values_def KnownPath_index_def KnownPath_name_def)

definition path_Adapter :: "KnownPath \<Rightarrow> string" where
  "path_Adapter k = ''/'' @ path_String k"

definition path_WebUI :: "KnownPath \<Rightarrow> string" where
  "path_WebUI k = ''/api/'' @ path_String k"

definition Paths :: "KnownPath list" where
  "Paths = map (\<lambda>i. KnownPath_values ! i) [0..<iota EndPath]"

text \<open>
  The loop at the head of \<open>RelativeJSON\<close> and \<open>RelativeWebsocket\<close>: the adapter's path of the
  first known path whose name occurs in the path of the request, and the empty string otherwise.
\<close>

definition find_targetPath :: "string \<Rightarrow> string" where
  "find_targetPath url_path =
     (case filter (\<lambda>path. js_includes url_path (path_String path)) Paths of
        [] \<Rightarrow> []
      | path # _ \<Rightarrow> path_Adapter path)"

section \<open>Requests, replies and middleware\<close>

record go_request =
  gr_method :: string
  gr_path :: string
  gr_upgrade :: "string list" \<comment> \<open>the values of the \<open>Upgrade\<close> header\<close>
  gr_upgradable :: bool \<comment> \<open>what \<open>Upgrader.Upgrade\<close> makes of it\<close>
  gr_trace_header :: string
  gr_remote :: string
  gr_trace :: string \<comment> \<open>set by \<open>RequestLogger\<close>\<close>
  gr_user :: string \<comment> \<open>set by the authentication\<close>

text \<open>What becomes of a request: a status without a body, or the handler runs, on the request as
  the middleware left it. The list holds the headers set on the way.\<close>

datatype 'h outcome = Refused nat | Handled 'h go_request

type_synonym 'h go_reply = "(string \<times> string) list \<times> 'h outcome"
type_synonym 'h handler_func = "go_request \<Rightarrow> 'h go_reply"
type_synonym 'h middleware = "'h handler_func \<Rightarrow> 'h handler_func"

definition set_headers :: "(string \<times> string) list \<Rightarrow> 'h go_reply \<Rightarrow> 'h go_reply" where
  "set_headers hs rep = (hs @ fst rep, snd rep)"

definition RequestLogger :: "string \<Rightarrow> 'h middleware" where
  "RequestLogger new_uuid next r =
     next (r\<lparr>gr_trace := if gr_trace_header r = [] then new_uuid else gr_trace_header r\<rparr>)"

definition postRequest :: "'h middleware" where
  "postRequest next r =
     set_headers [(''Access-Control-Allow-Origin'', ''*''), (''Access-Control-Allow-Methods'', ''POST''),
                  (''Access-Control-Allow-Headers'', ''Content-Type'')]
       (if gr_method r = ''OPTIONS'' then ([], Refused 200)
        else if gr_method r \<noteq> ''POST'' then ([], Refused 405)
        else next r)"

definition getRequest :: "'h middleware" where
  "getRequest next r =
     set_headers [(''Access-Control-Allow-Origin'', ''*''), (''Access-Control-Allow-Methods'', ''GET'')]
       (if gr_method r \<noteq> ''GET'' then ([], Refused 405) else next r)"

definition websocketRequest :: "'h middleware" where
  "websocketRequest next r =
     (if ''websocket'' \<notin> set (gr_upgrade r) then ([(''Upgrade'', ''websocket'')], Refused 426)
      else if \<not> gr_upgradable r then ([], Refused 500)
      else next r)"

text \<open>The two answers of \<open>WhoIs\<close> the servers use: the login name and the tags of the node.\<close>

type_synonym whois = "string \<Rightarrow> string + string \<times> string list"

definition uiAuth :: "whois \<Rightarrow> string list \<Rightarrow> 'h middleware" where
  "uiAuth whois allowedUsers next r =
     (case whois (gr_remote r) of
        Inl err \<Rightarrow> ([], Refused 500)
      | Inr (login, tags) \<Rightarrow>
          let r1 = r\<lparr>gr_user := login\<rparr> in
          if allowedUsers = [] then next r1
          else if login \<notin> set allowedUsers then ([], Refused 403)
          else next r1)"

definition adapterAuth :: "whois \<Rightarrow> string \<Rightarrow> 'h middleware" where
  "adapterAuth whois allowedTag next r =
     (case whois (gr_remote r) of
        Inl err \<Rightarrow> ([], Refused 500)
      | Inr (login, tags) \<Rightarrow> if allowedTag \<notin> set tags then ([], Refused 403) else next r)"

text \<open>\<open>Register\<close>: the first middleware of the chain is the outermost.\<close>

definition register :: "'h middleware list \<Rightarrow> 'h handler_func \<Rightarrow> 'h handler_func" where
  "register chain final = fold (\<lambda>handlerFunc outFunc. handlerFunc outFunc) (rev chain) final"

section \<open>Routes\<close>

datatype route_kind = GetRoute | PostRoute | WebsocketRoute

record 'h route =
  rt_auth :: bool
  rt_kind :: route_kind
  rt_pattern :: string
  rt_handler :: 'h

record server_config =
  sc_dev :: bool
  sc_whois :: whois
  sc_uuid :: string

fun kind_middleware :: "route_kind \<Rightarrow> 'h middleware" where
  "kind_middleware GetRoute = getRequest"
| "kind_middleware PostRoute = postRequest"
| "kind_middleware WebsocketRoute = websocketRequest"

text \<open>
  \<open>RouteNoAuth()\<close> has the logger only; \<open>Route()\<close> of a server adds its authentication unless in
  development. The last part of the chain is \<open>Get()\<close>, \<open>Post()\<close> or \<open>Websocket()\<close>.
\<close>

definition route_chain :: "server_config \<Rightarrow> 'h middleware \<Rightarrow> 'h route \<Rightarrow> 'h middleware list" where
  "route_chain cfg auth rt =
     RequestLogger (sc_uuid cfg) # (if rt_auth rt \<and> \<not> sc_dev cfg then [auth] else [])
     @ [kind_middleware (rt_kind rt)]"

text \<open>
  Patterns of \<open>http.ServeMux\<close>, by segments: a trailing slash matches the whole subtree, \<open>{x}\<close> one
  segment. Of the patterns that match, the most specific one is the longest in these tables.
\<close>

fun segs_match :: "string list \<Rightarrow> string list \<Rightarrow> bool" where
  "segs_match [] ss = (ss = [])"
| "segs_match (p # ps) [] = False"
| "segs_match (p # ps) (s # ss) =
     (if p = [] \<and> ps = [] then True
      else (p = s \<or> (p \<noteq> [] \<and> hd p = CHR ''{'' \<and> s \<noteq> [])) \<and> segs_match ps ss)"

definition pattern_matches :: "string \<Rightarrow> string \<Rightarrow> bool" where
  "pattern_matches pattern path =
     segs_match (tl (js_split (CHR ''/'') pattern)) (tl (js_split (CHR ''/'') path))"

definition pattern_rank :: "string \<Rightarrow> nat" where
  "pattern_rank pattern = length (filter (\<lambda>s. s \<noteq> []) (js_split (CHR ''/'') pattern))"

fun best_route :: "'h route list \<Rightarrow> 'h route option" where
  "best_route [] = None"
| "best_route (rt # rts) =
     (case best_route rts of
        None \<Rightarrow> Some rt
      | Some b \<Rightarrow> Some (if pattern_rank (rt_pattern b) > pattern_rank (rt_pattern rt) then b else rt))"

definition mux_route :: "'h route list \<Rightarrow> string \<Rightarrow> 'h route option" where
  "mux_route routes path = best_route (filter (\<lambda>rt. pattern_matches (rt_pattern rt) path) routes)"

definition serve :: "server_config \<Rightarrow> 'h middleware \<Rightarrow> 'h route list \<Rightarrow> 'h handler_func" where
  "serve cfg auth routes r =
     (case mux_route routes (gr_path r) of
        None \<Rightarrow> ([], Refused 404)
      | Some rt \<Rightarrow> register (route_chain cfg auth rt) (\<lambda>q. ([], Handled (rt_handler rt) q)) r)"

subsection \<open>The web UI server\<close>

datatype ui_handler =
    UI_Healthz | UI_Embedded | UI_PprofFiles | UI_RemoteDebug | UI_Debug string
  | UI_PeerMap | UI_Ping | UI_QueryDNS | UI_Pprof | UI_Goroutines | UI_RelativeJSON
  | UI_RelativeWebsocket

definition debug_names :: "string list" where
  "debug_names = [''allocs'', ''block'', ''goroutine'', ''heap'', ''mutex'', ''threadcreate'',
     ''cmdline'', ''profile'', ''symbol'', ''trace'']"

definition simple_route :: "route_kind \<Rightarrow> string \<Rightarrow> 'h \<Rightarrow> 'h route" where
  "simple_route kind pattern h =
     \<lparr>rt_auth = True, rt_kind = kind, rt_pattern = pattern, rt_handler = h\<rparr>"

definition ui_routes :: "ui_handler route list" where
  "ui_routes =
     [\<lparr>rt_auth = False, rt_kind = GetRoute, rt_pattern = ''/healthz'', rt_handler = UI_Healthz\<rparr>,
      simple_route GetRoute ''/'' UI_Embedded,
      simple_route GetRoute ''/static/pprof/'' UI_PprofFiles,
      simple_route GetRoute ''/{host}/debug/pprof/'' UI_RemoteDebug,
      simple_route GetRoute ''/debug/pprof/'' (UI_Debug ''index'')]
     @ map (\<lambda>n. simple_route GetRoute (''/debug/pprof/'' @ n) (UI_Debug n)) debug_names
     @ [simple_route GetRoute (path_WebUI PeerMapPath) UI_PeerMap,
      simple_route PostRoute (path_WebUI PingPath) UI_Ping,
      simple_route PostRoute (path_WebUI QueryDNSPath) UI_QueryDNS,
      simple_route PostRoute (path_WebUI PprofPath) UI_Pprof,
      simple_route PostRoute (path_WebUI GoroutinesPath) UI_Goroutines,
      simple_route PostRoute (path_WebUI StatusPath) UI_RelativeJSON,
      simple_route PostRoute (path_WebUI PrefsPath) UI_RelativeJSON,
      simple_route PostRoute (path_WebUI DriveSharesPath) UI_RelativeJSON,
      simple_route PostRoute (path_WebUI DNSConfigPath) UI_RelativeJSON,
      simple_route PostRoute (path_WebUI ServeConfigPath) UI_RelativeJSON,
      simple_route PostRoute (path_WebUI AppConnRoutesPath) UI_RelativeJSON,
      simple_route WebsocketRoute (path_WebUI LogsPath) UI_RelativeWebsocket,
      simple_route WebsocketRoute (path_WebUI BusEventsPath) UI_RelativeWebsocket]"

definition webui_serve :: "server_config \<Rightarrow> string list \<Rightarrow> ui_handler handler_func" where
  "webui_serve cfg allowedUsers = serve cfg (uiAuth (sc_whois cfg) allowedUsers) ui_routes"

subsection \<open>The adapter\<close>

datatype adapter_handler =
    A_Healthz | A_Debug string | A_Ping | A_Status | A_QueryDNS | A_Pprof | A_Prefs | A_DriveShares
  | A_DNSConfig | A_ServeConfig | A_AppConnRoutes | A_Goroutines | A_Logs | A_BusEvents

definition adapter_routes :: "adapter_handler route list" where
  "adapter_routes =
     [\<lparr>rt_auth = False, rt_kind = GetRoute, rt_pattern = ''/healthz'', rt_handler = A_Healthz\<rparr>,
      simple_route GetRoute ''/debug/pprof/'' (A_Debug ''index'')]
     @ map (\<lambda>n. simple_route GetRoute (''/debug/pprof/'' @ n) (A_Debug n)) debug_names
     @ [simple_route PostRoute (path_Adapter PingPath) A_Ping,
      simple_route PostRoute (path_Adapter StatusPath) A_Status,
      simple_route PostRoute (path_Adapter QueryDNSPath) A_QueryDNS,
      simple_route PostRoute (path_Adapter PprofPath) A_Pprof,
      simple_route PostRoute (path_Adapter PrefsPath) A_Prefs,
      simple_route PostRoute (path_Adapter DriveSharesPath) A_DriveShares,
      simple_route PostRoute (path_Adapter DNSConfigPath) A_DNSConfig,
      simple_route PostRoute (path_Adapter ServeConfigPath) A_ServeConfig,
      simple_route PostRoute (path_Adapter AppConnRoutesPath) A_AppConnRoutes,
      simple_route PostRoute (path_Adapter GoroutinesPath) A_Goroutines,
      simple_route WebsocketRoute (path_Adapter LogsPath) A_Logs,
      simple_route WebsocketRoute (path_Adapter BusEventsPath) A_BusEvents]"

definition adapter_serve :: "server_config \<Rightarrow> string \<Rightarrow> adapter_handler handler_func" where
  "adapter_serve cfg allowedTag = serve cfg (adapterAuth (sc_whois cfg) allowedTag) adapter_routes"

section \<open>Who reaches a handler\<close>

lemma register_foldr: "register chain final = foldr (\<lambda>m f. m f) chain final"
  by (simp add: register_def foldr_conv_fold)

fun kind_admits :: "route_kind \<Rightarrow> go_request \<Rightarrow> bool" where
  "kind_admits GetRoute r = (gr_method r = ''GET'')"
| "kind_admits PostRoute r = (gr_method r = ''POST'')"
| "kind_admits WebsocketRoute r = (''websocket'' \<in> set (gr_upgrade r) \<and> gr_upgradable r)"

definition user_allowed :: "string list \<Rightarrow> string + string \<times> string list \<Rightarrow> bool" where
  "user_allowed allowedUsers who =
     (case who of
        Inl err \<Rightarrow> False
      | Inr (login, tags) \<Rightarrow> allowedUsers = [] \<or> login \<in> set allowedUsers)"

definition node_allowed :: "string \<Rightarrow> string + string \<times> string list \<Rightarrow> bool" where
  "node_allowed allowedTag who =
     (case who of Inl err \<Rightarrow> False | Inr (login, tags) \<Rightarrow> allowedTag \<in> set tags)"

lemma kind_reaches:
  "(\<exists>q. snd (kind_middleware k (\<lambda>q. ([], Handled h q)) r) = Handled h' q)
     \<longleftrightarrow> h' = h \<and> kind_admits k r"
  by (cases k)
    (auto simp: getRequest_def postRequest_def websocketRequest_def set_headers_def)

lemma kind_admits_fields [simp]:
  "kind_admits k (r\<lparr>gr_trace := t\<rparr>) = kind_admits k r"
  "kind_admits k (r\<lparr>gr_trace := t, gr_user := u\<rparr>) = kind_admits k r"
  by (cases k; simp)+

text \<open>What a server needs of its authentication: it passes a request on exactly when it allows it.\<close>

locale authentication =
  fixes auth :: "'h middleware" and allows :: "go_request \<Rightarrow> bool"
  assumes auth_allows: "allows r \<Longrightarrow> \<exists>u. auth next r = next (r\<lparr>gr_user := u\<rparr>)"
    and auth_refuses: "\<not> allows r \<Longrightarrow> \<exists>st. auth next r = ([], Refused st)"
    and allows_trace: "allows (r\<lparr>gr_trace := t\<rparr>) = allows r"
begin

lemma auth_reaches:
  "(\<exists>q. snd (auth (kind_middleware k (\<lambda>q. ([], Handled h q))) (r\<lparr>gr_trace := t\<rparr>)) = Handled h' q)
     \<longleftrightarrow> h' = h \<and> allows r \<and> kind_admits k r"
proof (cases "allows r")
  case True
  then obtain u where "auth (kind_middleware k (\<lambda>q. ([], Handled h q))) (r\<lparr>gr_trace := t\<rparr>)
      = kind_middleware k (\<lambda>q. ([], Handled h q)) (r\<lparr>gr_trace := t, gr_user := u\<rparr>)"
    using auth_allows [of "r\<lparr>gr_trace := t\<rparr>"] by (auto simp: allows_trace)
  with True show ?thesis by (simp add: kind_reaches)
next
  case False
  then obtain st where "auth (kind_middleware k (\<lambda>q. ([], Handled h q))) (r\<lparr>gr_trace := t\<rparr>) = ([], Refused st)"
    using auth_refuses [of "r\<lparr>gr_trace := t\<rparr>" "kind_middleware k (\<lambda>q. ([], Handled h q))"]
    by (auto simp: allows_trace)
  with False show ?thesis by simp
qed

lemma serve_reaches:
  "(\<exists>q. snd (serve cfg auth routes r) = Handled h q) \<longleftrightarrow>
     (\<exists>rt. mux_route routes (gr_path r) = Some rt \<and> rt_handler rt = h
        \<and> (rt_auth rt \<and> \<not> sc_dev cfg \<longrightarrow> allows r) \<and> kind_admits (rt_kind rt) r)"
  by (auto simp: serve_def route_chain_def register_foldr RequestLogger_def kind_reaches auth_reaches
      split: option.splits)

end

interpretation ui_auth: authentication "uiAuth whois allowedUsers"
  "\<lambda>r. user_allowed allowedUsers (whois (gr_remote r))"
  by unfold_locales (auto simp: uiAuth_def user_allowed_def Let_def split: sum.splits if_splits)

lemma same_user: "r = r\<lparr>gr_user := gr_user r\<rparr>" for r :: go_request
  by simp

interpretation adapter_auth: authentication "adapterAuth whois allowedTag"
  "\<lambda>r. node_allowed allowedTag (whois (gr_remote r))"
  by unfold_locales
    (auto simp: adapterAuth_def node_allowed_def intro: same_user [THEN arg_cong] split: sum.splits if_splits)

lemma mux_route_mem: "mux_route routes path = Some rt \<Longrightarrow> rt \<in> set routes"
proof -
  have "best_route rts = Some rt \<Longrightarrow> rt \<in> set rts" for rts
    by (induction rts) (auto split: option.splits if_splits)
  from this [of "filter (\<lambda>rt. pattern_matches (rt_pattern rt) path) routes"]
  show "mux_route routes path = Some rt \<Longrightarrow> rt \<in> set routes" by (simp add: mux_route_def)
qed

lemma ui_routes_auth: "rt \<in> set ui_routes \<Longrightarrow> rt_auth rt \<longleftrightarrow> rt_handler rt \<noteq> UI_Healthz"
  by (auto simp: ui_routes_def simple_route_def)

lemma adapter_routes_auth: "rt \<in> set adapter_routes \<Longrightarrow> rt_auth rt \<longleftrightarrow> rt_handler rt \<noteq> A_Healthz"
  by (auto simp: adapter_routes_def simple_route_def)


section \<open>Every request of the page is served\<close>

text \<open>The adapter's handler of each endpoint the page posts hosts to.\<close>

definition host_endpoints :: "(string \<times> ui_handler \<times> adapter_handler) list" where
  "host_endpoints =
     [(''Status'', UI_RelativeJSON, A_Status), (''Prefs'', UI_RelativeJSON, A_Prefs),
      (''ServeConfig'', UI_RelativeJSON, A_ServeConfig), (''DNSConfig'', UI_RelativeJSON, A_DNSConfig),
      (''DriveShares'', UI_RelativeJSON, A_DriveShares),
      (''AppConnRoutes'', UI_RelativeJSON, A_AppConnRoutes),
      (''Goroutines'', UI_Goroutines, A_Goroutines), (''Ping'', UI_Ping, A_Ping),
      (''QueryDNS'', UI_QueryDNS, A_QueryDNS), (''Pprof'', UI_Pprof, A_Pprof)]"

definition served_by :: "'h route list \<Rightarrow> string \<Rightarrow> route_kind \<Rightarrow> 'h \<Rightarrow> bool" where
  "served_by routes path kind h =
     (case mux_route routes path of
        None \<Rightarrow> False
      | Some rt \<Rightarrow> rt_auth rt \<and> rt_kind rt = kind \<and> rt_handler rt = h)"

lemmas ui_route_defs =
  ui_routes_def simple_route_def debug_names_def path_WebUI_def path_names pattern_rank_def


end
