(* ===== verification/AdapterClient.thy ===== *)
theory AdapterClient
  imports JsValue
begin

text \<open>
  How the web UI server reaches the adapters (\<open>api/webui/client/client.go\<close>): the two maps between
  hosts and adapters, and the calls. The tailnet is a parameter, a function from calls to what
  \<open>client.Do\<close> returns. A decoded JSON object stands for a Go map by its sorted association list,
  the order in which \<open>encoding/json\<close> prints a map.
\<close>

section \<open>The maps\<close>

record known =
  kn_adapters :: "(string \<times> string) list" \<comment> \<open>adapter to host\<close>
  kn_hosts :: "(string \<times> string) list" \<comment> \<open>host to adapter\<close>

definition NewClient :: known where
  "NewClient = \<lparr>kn_adapters = [], kn_hosts = []\<rparr>"

definition SetKnownHost :: "string \<Rightarrow> string \<Rightarrow> known \<Rightarrow> known" where
  "SetKnownHost host adapter k =
     k\<lparr>kn_adapters := AList.update adapter host (kn_adapters k),
       kn_hosts := AList.update host adapter (kn_hosts k)\<rparr>"

definition GetAdapter :: "string \<Rightarrow> known \<Rightarrow> string option" where
  "GetAdapter host k = map_of (kn_hosts k) host"

definition GetHost :: "string \<Rightarrow> known \<Rightarrow> string option" where
  "GetHost adapter k = map_of (kn_adapters k) adapter"

text \<open>The order in which \<open>Range\<close> visits a map is not specified.\<close>

definition GetHosts :: "known \<Rightarrow> string list" where
  "GetHosts k = map fst (kn_hosts k)"

definition GetAdapters :: "known \<Rightarrow> string list" where
  "GetAdapters k = map fst (kn_adapters k)"

text \<open>The flag says whether an error was returned.\<close>

definition DeleteAdapter :: "string \<Rightarrow> known \<Rightarrow> bool \<times> known" where
  "DeleteAdapter adapter k =
     (case GetHost adapter k of
        None \<Rightarrow> (True, k)
      | Some host \<Rightarrow>
          (False, k\<lparr>kn_adapters := AList.delete adapter (kn_adapters k),
                    kn_hosts := AList.delete host (kn_hosts k)\<rparr>))"

section \<open>Calls\<close>

record adapter_call =
  ac_method :: string
  ac_url :: string
  ac_trace :: string
  ac_user :: string
  ac_body :: "jsv option"

text \<open>
  A response: decoding its body as JSON may fail with a message; reading it gives the bytes read and
  the message of an error, empty when there was none.
\<close>

record adapter_response =
  ar_code :: nat
  ar_status :: string
  ar_json :: "string + jsv"
  ar_bytes :: "string \<times> string"

type_synonym tailnet = "adapter_call \<Rightarrow> string + adapter_response"

text \<open>What a request carries to the adapters, and the configured port.\<close>

record caller =
  cl_trace :: string
  cl_user :: string
  cl_port :: string

definition CallAdapter ::
    "tailnet \<Rightarrow> caller \<Rightarrow> string \<Rightarrow> string \<Rightarrow> string \<Rightarrow> jsv option \<Rightarrow> string + adapter_response" where
  "CallAdapter net c method adapter path body =
     (case net \<lparr>ac_method = method, ac_url = ''http://'' @ adapter @ '':'' @ cl_port c @ path,
            ac_trace = cl_trace c, ac_user = cl_user c, ac_body = body\<rparr> of
        Inl err \<Rightarrow> Inl err
      | Inr resp \<Rightarrow> if ar_code resp \<noteq> 200 then Inl (ar_status resp) else Inr resp)"

definition CallHost ::
    "known \<Rightarrow> tailnet \<Rightarrow> caller \<Rightarrow> string \<Rightarrow> string \<Rightarrow> string \<Rightarrow> jsv option \<Rightarrow> string + adapter_response" where
  "CallHost k net c method host path body =
     (case GetAdapter host k of
        None \<Rightarrow> Inl (''failed to find adapter for host: '' @ host)
      | Some adapter \<Rightarrow>
          if adapter = [] then Inl (''failed to find adapter for host: '' @ host)
          else CallAdapter net c method adapter path body)"

section \<open>When the two maps are inverse\<close>

lemma get_set [simp]:
  "GetAdapter h (SetKnownHost host adapter k) = (if h = host then Some adapter else GetAdapter h k)"
  "GetHost a (SetKnownHost host adapter k) = (if a = adapter then Some host else GetHost a k)"
  by (simp_all add: GetAdapter_def GetHost_def SetKnownHost_def update_conv')

lemma get_delete:
  "GetAdapter h (snd (DeleteAdapter adapter k)) =
     (if GetHost adapter k = Some h then None else GetAdapter h k)"
  "GetHost a (snd (DeleteAdapter adapter k)) = (if a = adapter then None else GetHost a k)"
  by (auto simp: GetAdapter_def GetHost_def DeleteAdapter_def delete_conv' split: option.splits)

lemma get_new [simp]: "GetAdapter h NewClient = None" "GetHost a NewClient = None"
  by (simp_all add: GetAdapter_def GetHost_def NewClient_def)

definition inverse_maps :: "known \<Rightarrow> bool" where
  "inverse_maps k \<longleftrightarrow> (\<forall>h a. GetAdapter h k = Some a \<longleftrightarrow> GetHost a k = Some h)"

datatype known_event = Announce string string | Forget string

fun known_handle :: "known_event \<Rightarrow> known \<Rightarrow> known" where
  "known_handle (Announce host adapter) k = SetKnownHost host adapter k"
| "known_handle (Forget adapter) k = snd (DeleteAdapter adapter k)"

text \<open>An announcement keeps the pairs it meets: neither side is known with another partner.\<close>

fun keeps_pairs :: "known_event \<Rightarrow> known \<Rightarrow> bool" where
  "keeps_pairs (Announce host adapter) k =
     (GetAdapter host k \<in> {None, Some adapter} \<and> GetHost adapter k \<in> {None, Some host})"
| "keeps_pairs (Forget adapter) k = True"

inductive known_step :: "known \<Rightarrow> known_event \<Rightarrow> known \<Rightarrow> bool" where
  known_step: "keeps_pairs e k \<Longrightarrow> known_step k e (known_handle e k)"

inductive_cases known_stepE: "known_step k e k'"

lemma inverse_step: "inverse_maps k \<Longrightarrow> known_step k e k' \<Longrightarrow> inverse_maps k'"
  by (erule known_stepE, cases e)
    (auto simp: inverse_maps_def get_delete, (metis option.sel option.distinct(1))+)

interpretation known: step_invariant known_step "\<lambda>k. k = NewClient" inverse_maps
  by unfold_locales (auto intro: inverse_step, simp add: inverse_maps_def)


text \<open>
  The condition is needed. When the adapter of a host comes back under another name, the failing
  call to the old name deletes the host, and with it the way to its new adapter.
\<close>

lemma renamed_adapter_loses_host:
  assumes "old \<noteq> new"
    and "k' = snd (DeleteAdapter old (SetKnownHost host new (SetKnownHost host old k)))"
  shows "GetAdapter host k' = None" "GetHost new k' = Some host"
    "CallHost k' net c method host path body = Inl (''failed to find adapter for host: '' @ host)"
  using assms by (simp_all add: get_delete CallHost_def)


end
