(* ===== verification/Fanout.thy ===== *)
theory Fanout
  imports JsPrelude
begin

text \<open>
  The concurrency pattern of the handlers of the web UI server: one goroutine per target, each with
  an unbuffered channel of its own, and a loop that receives from the channels in order and closes
  each after its first value. A send on a closed channel panics, as does a failed type assertion,
  and a panic in a goroutine ends the whole program.
\<close>

section \<open>Goroutines and the collecting loop\<close>

text \<open>
  What a goroutine does on its channel: the values it sends, one after the other, or \<open>None\<close> when it
  panics before it sends. It is busy until its calls have returned.
\<close>

type_synonym 'r script = "'r list option"

datatype 'r worker = Busy "'r script" | Sends "'r list"

record 'r fan =
  fan_workers :: "'r worker list"
  fan_next :: nat \<comment> \<open>the channel the loop receives from; those before it are closed\<close>
  fan_results :: "'r list"
  fan_crashed :: bool

definition fan_init :: "'r script list \<Rightarrow> 'r fan" where
  "fan_init scripts =
     \<lparr>fan_workers = map Busy scripts, fan_next = 0, fan_results = [], fan_crashed = False\<rparr>"

datatype fan_event = Returns nat | Receives | Panics nat

fun fan_enabled :: "fan_event \<Rightarrow> 'r fan \<Rightarrow> bool" where
  "fan_enabled (Returns i) s =
     (\<not> fan_crashed s \<and> i < length (fan_workers s)
      \<and> (case fan_workers s ! i of Busy _ \<Rightarrow> True | Sends _ \<Rightarrow> False))"
| "fan_enabled Receives s =
     (\<not> fan_crashed s \<and> fan_next s < length (fan_workers s)
      \<and> (case fan_workers s ! fan_next s of Sends (r # rs) \<Rightarrow> True | _ \<Rightarrow> False))"
| "fan_enabled (Panics i) s =
     (\<not> fan_crashed s \<and> i < fan_next s \<and> i < length (fan_workers s)
      \<and> (case fan_workers s ! i of Sends (r # rs) \<Rightarrow> True | _ \<Rightarrow> False))"

fun fan_handle :: "fan_event \<Rightarrow> 'r fan \<Rightarrow> 'r fan" where
  "fan_handle (Returns i) s =
     (case fan_workers s ! i of
        Busy (Some rs) \<Rightarrow> s\<lparr>fan_workers := (fan_workers s)[i := Sends rs]\<rparr>
      | _ \<Rightarrow> s\<lparr>fan_crashed := True\<rparr>)"
| "fan_handle Receives s =
     (case fan_workers s ! fan_next s of
        Sends (r # rs) \<Rightarrow>
          s\<lparr>fan_workers := (fan_workers s)[fan_next s := Sends rs],
            fan_next := Suc (fan_next s), fan_results := fan_results s @ [r]\<rparr>
      | _ \<Rightarrow> s)"
| "fan_handle (Panics i) s = s\<lparr>fan_crashed := True\<rparr>"

inductive fan_step :: "'r fan \<Rightarrow> fan_event \<Rightarrow> 'r fan \<Rightarrow> bool" where
  fan_step: "fan_enabled e s \<Longrightarrow> fan_step s e (fan_handle e s)"

inductive_cases fan_stepE: "fan_step s e t"

text \<open>What the loop ends with, without its scheduling; \<open>None\<close> is the end of the program.\<close>

definition gather :: "'r script list \<Rightarrow> 'r list option" where
  "gather scripts =
     (if list_all (\<lambda>sc. case sc of Some [r] \<Rightarrow> True | _ \<Rightarrow> False) scripts
      then Some (map (\<lambda>sc. hd (the sc)) scripts) else None)"

section \<open>All schedules have one outcome\<close>

text \<open>
  What is left of a script: before the loop reaches its channel all of it, afterwards all but the
  value that was received.
\<close>

definition fan_inv :: "'r script list \<Rightarrow> 'r fan \<Rightarrow> bool" where
  "fan_inv scripts s \<longleftrightarrow>
     length (fan_workers s) = length scripts \<and> fan_next s \<le> length scripts
     \<and> length (fan_results s) = fan_next s
     \<and> (\<forall>i < length scripts.
          if i < fan_next s
          then \<exists>rs. scripts ! i = Some (fan_results s ! i # rs) \<and> fan_workers s ! i = Sends rs
          else fan_workers s ! i = Busy (scripts ! i)
            \<or> (\<exists>rs. scripts ! i = Some rs \<and> fan_workers s ! i = Sends rs))
     \<and> (fan_crashed s \<longrightarrow> (\<exists>i < length scripts. \<forall>r. scripts ! i \<noteq> Some [r]))"

lemma fan_at:
  assumes "fan_inv scripts s" "i < length scripts"
  shows "i < fan_next s \<Longrightarrow>
      \<exists>rs. scripts ! i = Some (fan_results s ! i # rs) \<and> fan_workers s ! i = Sends rs"
    and "\<not> i < fan_next s \<Longrightarrow> fan_workers s ! i = Busy (scripts ! i)
      \<or> (\<exists>rs. scripts ! i = Some rs \<and> fan_workers s ! i = Sends rs)"
  using assms by (simp_all add: fan_inv_def)

lemma fan_inv_init: "fan_inv scripts (fan_init scripts)"
  by (simp add: fan_inv_def fan_init_def)

lemma fan_inv_returns:
  assumes inv: "fan_inv scripts s" and en: "fan_enabled (Returns i) s"
  shows "fan_inv scripts (fan_handle (Returns i) s)"
proof -
  from en inv obtain sc where i: "i < length scripts" "\<not> fan_crashed s" "fan_workers s ! i = Busy sc"
    by (auto simp: fan_inv_def split: worker.splits)
  then have sc: "scripts ! i = sc" "\<not> i < fan_next s"
    using fan_at [OF inv i(1)] by auto
  show ?thesis
  proof (cases sc)
    case None
    with i sc inv show ?thesis by (auto simp: fan_inv_def)
  next
    case (Some rs)
    with i sc inv show ?thesis by (auto simp: fan_inv_def nth_update_total)
  qed
qed

lemma fan_inv_collect:
  assumes inv: "fan_inv scripts s" and en: "fan_enabled Receives s"
  shows "fan_inv scripts (fan_handle Receives s)"
proof -
  from en inv obtain r rs where n: "fan_next s < length scripts" "fan_workers s ! fan_next s = Sends (r # rs)"
    by (auto simp: fan_inv_def split: worker.splits list.splits)
  then have "scripts ! fan_next s = Some (r # rs)" using inv by (auto simp: fan_inv_def)
  with n inv en show ?thesis
    by (auto simp: fan_inv_def nth_update_total nth_append less_Suc_eq)
qed

lemma fan_inv_panics:
  assumes inv: "fan_inv scripts s" and en: "fan_enabled (Panics i) s"
  shows "fan_inv scripts (fan_handle (Panics i) s)"
proof -
  from en inv obtain r rs where "i < length scripts" "i < fan_next s" "fan_workers s ! i = Sends (r # rs)"
    by (auto simp: fan_inv_def split: worker.splits list.splits)
  with fan_at(1) [OF inv] have "\<forall>q. scripts ! i \<noteq> Some [q]" by fastforce
  with \<open>i < length scripts\<close> inv show ?thesis by (auto simp: fan_inv_def)
qed

lemma fan_inv_step: "fan_inv scripts s \<Longrightarrow> fan_step s e t \<Longrightarrow> fan_inv scripts t"
  by (erule fan_stepE, cases e) (auto simp only: fan_inv_returns fan_inv_collect fan_inv_panics)

interpretation fan: step_invariant fan_step "\<lambda>s. s = fan_init scripts" "fan_inv scripts"
  by unfold_locales (auto intro: fan_inv_init fan_inv_step)

text \<open>A state in which nothing can happen any more.\<close>

definition fan_final :: "'r fan \<Rightarrow> bool" where
  "fan_final s \<longleftrightarrow> (\<forall>e. \<not> fan_enabled e s)"

lemma final_workers:
  assumes "fan_final s" "\<not> fan_crashed s" "fan_inv scripts s" "i < length scripts"
  shows "fan_workers s ! i \<noteq> Busy sc"
proof
  assume "fan_workers s ! i = Busy sc"
  with assms have "fan_enabled (Returns i) s" by (simp add: fan_inv_def)
  with assms(1) show False unfolding fan_final_def by blast
qed

lemma final_collected:
  assumes fin: "fan_final s" "\<not> fan_crashed s" and inv: "fan_inv scripts s"
    and sends: "\<forall>sc \<in> set scripts. sc \<noteq> Some []"
  shows "fan_next s = length scripts"
proof (rule ccontr)
  assume "fan_next s \<noteq> length scripts"
  then have n: "fan_next s < length scripts" using inv by (simp add: fan_inv_def)
  with inv have "fan_workers s ! fan_next s = Busy (scripts ! fan_next s) \<or>
      (\<exists>rs. scripts ! fan_next s = Some rs \<and> fan_workers s ! fan_next s = Sends rs)"
    by (auto simp: fan_inv_def)
  with final_workers [OF fin inv n]
  obtain rs where rs: "scripts ! fan_next s = Some rs" "fan_workers s ! fan_next s = Sends rs" by auto
  moreover have "rs \<noteq> []" using sends n rs(1) by (metis nth_mem)
  ultimately have "fan_enabled Receives s" using fin n inv by (cases rs) (auto simp: fan_inv_def)
  with fin(1) show False unfolding fan_final_def by blast
qed

lemma final_single:
  assumes "fan_final s" "\<not> fan_crashed s" "fan_inv scripts s" "\<forall>sc \<in> set scripts. sc \<noteq> Some []"
    and i: "i < length scripts"
  shows "scripts ! i = Some [fan_results s ! i]"
proof -
  have "i < fan_next s" using final_collected [OF assms(1-4)] i by simp
  with fan_at(1) [OF assms(3) i] obtain rs where
    rs: "scripts ! i = Some (fan_results s ! i # rs)" "fan_workers s ! i = Sends rs"
    by blast
  have "rs = []"
  proof (rule ccontr)
    assume "rs \<noteq> []"
    with rs(2) assms(2,3) i \<open>i < fan_next s\<close> have "fan_enabled (Panics i) s"
      by (cases rs) (auto simp: fan_inv_def)
    with assms(1) show False unfolding fan_final_def by blast
  qed
  with rs(1) show ?thesis by simp
qed

lemma gather_all: "gather (map (\<lambda>r. Some [r]) rs) = Some rs"
  by (simp add: gather_def list_all_iff comp_def)

lemma gather_not: "i < length scripts \<Longrightarrow> \<forall>r. scripts ! i \<noteq> Some [r] \<Longrightarrow> gather scripts = None"
  by (auto simp: gather_def list_all_length split: option.splits list.splits)

lemma final_gather:
  assumes "fan_final s" and inv: "fan_inv scripts s" and "\<forall>sc \<in> set scripts. sc \<noteq> Some []"
  shows "gather scripts = (if fan_crashed s then None else Some (fan_results s))"
proof (cases "fan_crashed s")
  case True
  with inv show ?thesis by (auto simp: fan_inv_def intro: gather_not)
next
  case False
  have "scripts = map (\<lambda>r. Some [r]) (fan_results s)"
  proof (rule nth_equalityI)
    show "length scripts = length (map (\<lambda>r. Some [r]) (fan_results s))"
      using final_collected [OF assms(1) False inv assms(3)] inv by (simp add: fan_inv_def)
    then show "scripts ! i = map (\<lambda>r. Some [r]) (fan_results s) ! i" if "i < length scripts" for i
      using final_single [OF assms(1) False inv assms(3) that] that by simp
  qed
  with gather_all [of "fan_results s"] False show ?thesis by simp
qed

text \<open>Every step uses something up: a busy goroutine, a channel, or the program.\<close>

definition is_busy :: "'r worker \<Rightarrow> bool" where
  "is_busy w = (case w of Busy _ \<Rightarrow> True | Sends _ \<Rightarrow> False)"

definition fan_measure :: "'r fan \<Rightarrow> nat" where
  "fan_measure s = length (filter is_busy (fan_workers s))
     + (length (fan_workers s) - fan_next s) + (if fan_crashed s then 0 else 1)"

lemma filter_update:
  "i < length xs \<Longrightarrow> \<not> P y \<Longrightarrow>
     length (filter P (xs[i := y])) + (if P (xs ! i) then 1 else 0) = length (filter P xs)"
proof (induction xs arbitrary: i)
  case (Cons x xs)
  then show ?case using Cons.IH [of "i - 1"] by (cases i) auto
qed simp

lemma fan_measure_step: "fan_step s e t \<Longrightarrow> fan_measure t < fan_measure s"
proof (erule fan_stepE)
  assume en: "fan_enabled e s" and t: "t = fan_handle e s"
  show "fan_measure t < fan_measure s"
  proof (cases e)
    case (Returns i)
    with en obtain sc where sc: "fan_workers s ! i = Busy sc" "i < length (fan_workers s)"
      by (auto split: worker.splits)
    have "length (filter is_busy ((fan_workers s)[i := Sends rs])) < length (filter is_busy (fan_workers s))" for rs
      using filter_update [of i "fan_workers s" is_busy "Sends rs"] sc by (simp add: is_busy_def)
    with sc Returns en t show ?thesis by (cases sc) (auto simp: fan_measure_def)
  next
    case Receives
    with en obtain r rs where "fan_workers s ! fan_next s = Sends (r # rs)"
        "fan_next s < length (fan_workers s)"
      by (auto split: worker.splits list.splits)
    with filter_update [of "fan_next s" "fan_workers s" is_busy "Sends rs"] Receives en t
    show ?thesis by (auto simp: fan_measure_def is_busy_def)
  next
    case (Panics i)
    with en t show ?thesis by (auto simp: fan_measure_def)
  qed
qed

lemma fan_run_bound: "run fan_step s es t \<Longrightarrow> length es + fan_measure t \<le> fan_measure s"
  by (induction rule: run.induct) (auto dest!: fan_measure_step)

text \<open>
  C18. Whatever the order in which the calls return and the channels are served, the loop ends, and
  with one outcome: the reply of each goroutine, in the order of the targets, when every goroutine
  sends once. If one of them panics, or sends a second time, the program ends. No schedule is
  longer than two steps for each target and one more.
\<close>

theorem fanout_outcome:
  assumes "run fan_step (fan_init scripts) es s" and "\<forall>sc \<in> set scripts. sc \<noteq> Some []"
  shows "length es \<le> 2 * length scripts + 1
    \<and> (fan_final s \<longrightarrow> gather scripts = (if fan_crashed s then None else Some (fan_results s)))"
proof
  have "fan_measure (fan_init scripts) \<le> 2 * length scripts + 1"
    by (simp add: fan_measure_def fan_init_def)
  with fan_run_bound [OF assms(1)] show "length es \<le> 2 * length scripts + 1" by linarith
  show "fan_final s \<longrightarrow> gather scripts = (if fan_crashed s then None else Some (fan_results s))"
    using final_gather fan.inv_reach [OF refl assms(1)] assms(2) by blast
qed

definition sample_fan :: "nat fan" where
  "sample_fan =
     \<lparr>fan_workers = [Sends [], Sends []], fan_next = 2, fan_results = [7, 8], fan_crashed = False\<rparr>"

lemma sample_fan_final: "fan_final sample_fan"
proof -
  have "\<not> fan_enabled e sample_fan" for e
    by (cases e) (auto simp: sample_fan_def less_Suc_eq nth_Cons' split: if_splits)
  then show ?thesis by (simp add: fan_final_def)
qed

lemma sample_fan_run:
  "run fan_step (fan_init [Some [7], Some [8]]) [Returns 1, Returns 0, Receives, Receives] sample_fan"
proof -
  have "sample_fan = fan_handle Receives (fan_handle Receives (fan_handle (Returns 0)
      (fan_handle (Returns 1) (fan_init [Some [7], Some [8]]))))"
    by (simp add: sample_fan_def fan_init_def)
  then show ?thesis by (auto simp: fan_init_def intro!: run.intros fan_step)
qed

theorem fanout_outcome_witness: "gather [Some [7], Some [8]] = Some [7, 8 :: nat]"
  using fanout_outcome [OF sample_fan_run] sample_fan_final by (simp add: sample_fan_def)

end
