(* ===== verification/ServerHandlers.thy ===== *)
theory ServerHandlers
  imports ServerRoutes AdapterClient Fanout Base64
begin

text \<open>
  The handlers of the web UI server (\<open>api/webui/tsymbiotewebui\<close>). Each decodes its input, runs a
  goroutine per target, and answers with the collected results; what the goroutines do is a script
  of \<open>Fanout\<close>. JSON goes in and out as values: text that is not JSON is a decoding error. Field
  names are matched exactly.
\<close>

section \<open>The environment of a request\<close>

text \<open>
  The tailnet, what the request carries, the text of the error that decoding a value of a wrong type
  gives, the order in which a Go map is visited, and the outcome of writing a file.
\<close>

record go_env =
  ge_net :: tailnet
  ge_caller :: caller
  ge_mismatch :: "jsv \<Rightarrow> string"
  ge_order :: "string list \<Rightarrow> string list"
  ge_write_fails :: "string \<Rightarrow> bool"

definition go_iter :: "go_env \<Rightarrow> (string \<times> 'v) list \<Rightarrow> (string \<times> 'v) list" where
  "go_iter env m = map (\<lambda>k. (k, the (map_of m k))) (ge_order env (map fst m))"

datatype http_answer = JsonAnswer jsv | StatusOnly nat | Crash

section \<open>Decoding and encoding\<close>

text \<open>A missing field and \<open>null\<close> leave the zero value; \<open>None\<close> is a value of a wrong type.\<close>

definition go_field :: "string \<Rightarrow> (jsv \<Rightarrow> 'a option) \<Rightarrow> 'a \<Rightarrow> jsv \<Rightarrow> 'a option" where
  "go_field k dec zero v =
     (case v of
        JNull \<Rightarrow> Some zero
      | JObj m \<Rightarrow>
          (case obj_get m k of None \<Rightarrow> Some zero | Some w \<Rightarrow> if w = JNull then Some zero else dec w)
      | _ \<Rightarrow> None)"

definition go_string :: "jsv \<Rightarrow> string option" where
  "go_string v = (case v of JStr s \<Rightarrow> Some s | JNull \<Rightarrow> Some [] | _ \<Rightarrow> None)"

definition go_int :: "jsv \<Rightarrow> int option" where
  "go_int v =
     (case v of
        JNum q \<Rightarrow>
          if snd (quotient_of q) = 1 \<and> - (2 ^ 63) \<le> fst (quotient_of q) \<and> fst (quotient_of q) < 2 ^ 63
          then Some (fst (quotient_of q)) else None
      | JNull \<Rightarrow> Some 0
      | _ \<Rightarrow> None)"

fun go_list :: "(jsv \<Rightarrow> 'a option) \<Rightarrow> jsv list \<Rightarrow> 'a list option" where
  "go_list dec [] = Some []"
| "go_list dec (x # xs) =
     (case dec x of
        None \<Rightarrow> None
      | Some y \<Rightarrow> (case go_list dec xs of None \<Rightarrow> None | Some ys \<Rightarrow> Some (y # ys)))"

definition go_array :: "(jsv \<Rightarrow> 'a option) \<Rightarrow> jsv \<Rightarrow> 'a list option" where
  "go_array dec v = (case v of JArr xs \<Rightarrow> go_list dec xs | JNull \<Rightarrow> Some [] | _ \<Rightarrow> None)"

definition go_map :: "jsv \<Rightarrow> jsv jsobj option" where
  "go_map v = (case v of JObj m \<Rightarrow> Some m | JNull \<Rightarrow> Some [] | _ \<Rightarrow> None)"

text \<open>The fields of a struct; an empty one with \<open>omitempty\<close> is left out.\<close>

definition omit_str :: "string \<Rightarrow> string \<Rightarrow> jsv jsobj" where
  "omit_str k s = (if s = [] then [] else [(k, JStr s)])"

definition omit_list :: "string \<Rightarrow> jsv list \<Rightarrow> jsv jsobj" where
  "omit_list k xs = (if xs = [] then [] else [(k, JArr xs)])"

text \<open>A slice that may be \<open>nil\<close>.\<close>

definition slice_json :: "jsv list \<Rightarrow> jsv" where
  "slice_json xs = (if xs = [] then JNull else JArr xs)"

section \<open>Pass-through\<close>

record defaultResult =
  dr_host :: string
  dr_error :: string
  dr_result :: "jsv jsobj"

definition defaultResult_json :: "defaultResult \<Rightarrow> jsv" where
  "defaultResult_json r =
     JObj (omit_str ''host'' (dr_host r) @ omit_str ''error'' (dr_error r)
       @ (if dr_result r = [] then [] else [(''result'', JObj (dr_result r))]))"

text \<open>After a decoding error the goroutine sends twice: the \<open>return\<close> is missing.\<close>

definition relative_worker :: "known \<Rightarrow> go_env \<Rightarrow> string \<Rightarrow> string \<Rightarrow> defaultResult script" where
  "relative_worker k env targetPath targetHost =
     (let result = \<lparr>dr_host = targetHost, dr_error = [], dr_result = []\<rparr>
      in case CallHost k (ge_net env) (ge_caller env) ''POST'' targetHost targetPath None of
           Inl err \<Rightarrow> Some [result\<lparr>dr_error := err\<rparr>]
         | Inr resp \<Rightarrow>
             (case ar_json resp of
                Inl err \<Rightarrow> Some [result\<lparr>dr_error := err\<rparr>, result\<lparr>dr_error := err\<rparr>]
              | Inr v \<Rightarrow>
                  (case go_map v of
                     None \<Rightarrow> Some [result\<lparr>dr_error := ge_mismatch env v\<rparr>,
                                   result\<lparr>dr_error := ge_mismatch env v\<rparr>]
                   | Some m \<Rightarrow> Some [result\<lparr>dr_result := m\<rparr>])))"

definition answer_rows :: "('r \<Rightarrow> jsv) \<Rightarrow> 'r script list \<Rightarrow> http_answer" where
  "answer_rows row scripts =
     (case gather scripts of None \<Rightarrow> Crash | Some rs \<Rightarrow> JsonAnswer (JArr (map row rs)))"

definition decode_hosts :: "jsv \<Rightarrow> string list option" where
  "decode_hosts v = go_field ''hosts'' (go_array go_string) [] v"

definition RelativeJSON :: "known \<Rightarrow> go_env \<Rightarrow> string \<Rightarrow> string + jsv \<Rightarrow> http_answer" where
  "RelativeJSON k env url_path body =
     (let targetPath = find_targetPath url_path in
      if targetPath = [] then StatusOnly 200
      else case body of
             Inl err \<Rightarrow> StatusOnly 500
           | Inr v \<Rightarrow>
               (case decode_hosts v of
                  None \<Rightarrow> StatusOnly 500
                | Some hosts \<Rightarrow>
                    answer_rows defaultResult_json (map (relative_worker k env targetPath) hosts)))"

section \<open>Goroutines\<close>

record goroutinesResult =
  gr_host :: string
  gr_error :: string
  gr_result :: string \<comment> \<open>bytes\<close>

definition goroutinesResult_json :: "goroutinesResult \<Rightarrow> jsv" where
  "goroutinesResult_json r =
     JObj (omit_str ''host'' (gr_host r) @ omit_str ''error'' (gr_error r)
       @ omit_str ''result'' (b64_encode (gr_result r)))"

definition goroutines_worker :: "known \<Rightarrow> go_env \<Rightarrow> string \<Rightarrow> goroutinesResult script" where
  "goroutines_worker k env targetHost =
     (let result = \<lparr>gr_host = targetHost, gr_error = [], gr_result = []\<rparr>
      in case CallHost k (ge_net env) (ge_caller env) ''POST'' targetHost
                (path_Adapter GoroutinesPath) None of
           Inl err \<Rightarrow> Some [result\<lparr>gr_error := err\<rparr>]
         | Inr resp \<Rightarrow>
             (case ar_bytes resp of
                (callRes, err) \<Rightarrow> Some [result\<lparr>gr_error := err, gr_result := callRes\<rparr>]))"

definition Goroutines_handler :: "known \<Rightarrow> go_env \<Rightarrow> string + jsv \<Rightarrow> http_answer" where
  "Goroutines_handler k env body =
     (case body of
        Inl err \<Rightarrow> StatusOnly 400
      | Inr v \<Rightarrow>
          (case decode_hosts v of
             None \<Rightarrow> StatusOnly 400
           | Some hosts \<Rightarrow> answer_rows goroutinesResult_json (map (goroutines_worker k env) hosts)))"

section \<open>DNS queries\<close>

record DNSHeader_go =
  dh_rcode :: string
  dh_name :: string
  dh_type :: string
  dh_class :: string
  dh_ttl :: int

record QueryDNSResult_go =
  qr_error :: string
  qr_host :: string
  qr_header :: DNSHeader_go
  qr_responses :: "string list"
  qr_resolvers :: "string list"

definition omit_int :: "string \<Rightarrow> int \<Rightarrow> jsv jsobj" where
  "omit_int k n = (if n = 0 then [] else [(k, JNum (of_int n))])"

definition DNSHeader_json :: "DNSHeader_go \<Rightarrow> jsv" where
  "DNSHeader_json h =
     JObj ([(''responseCode'', JStr (dh_rcode h))] @ omit_str ''name'' (dh_name h)
       @ omit_str ''type'' (dh_type h) @ omit_str ''class'' (dh_class h) @ omit_int ''ttl'' (dh_ttl h))"

definition QueryDNSResult_json :: "QueryDNSResult_go \<Rightarrow> jsv" where
  "QueryDNSResult_json r =
     JObj (omit_str ''error'' (qr_error r) @ omit_str ''host'' (qr_host r)
       @ [(''header'', DNSHeader_json (qr_header r))]
       @ omit_list ''responses'' (map JStr (qr_responses r))
       @ [(''resolvers'', slice_json (map JStr (qr_resolvers r)))])"

definition dns_result :: "string \<Rightarrow> QueryDNSResult_go" where
  "dns_result host =
     \<lparr>qr_error = [], qr_host = host,
      qr_header = \<lparr>dh_rcode = [], dh_name = [], dh_type = [], dh_class = [], dh_ttl = 0\<rparr>,
      qr_responses = [], qr_resolvers = []\<rparr>"

definition go_uint32 :: "jsv \<Rightarrow> int option" where
  "go_uint32 v =
     (case go_int v of None \<Rightarrow> None | Some n \<Rightarrow> if 0 \<le> n \<and> n < 2 ^ 32 then Some n else None)"

text \<open>
  Decoding into a header and a result that already have values: absent fields keep them. After a
  mismatch Go may have filled some of the other fields; the row then holds its error only here.
\<close>

definition decode_header :: "DNSHeader_go \<Rightarrow> jsv \<Rightarrow> DNSHeader_go option" where
  "decode_header h v =
     (case (go_field ''responseCode'' go_string (dh_rcode h) v, go_field ''name'' go_string (dh_name h) v,
            go_field ''type'' go_string (dh_type h) v, go_field ''class'' go_string (dh_class h) v,
            go_field ''ttl'' go_uint32 (dh_ttl h) v) of
        (Some rc, Some nm, Some ty, Some cl, Some ttl) \<Rightarrow>
          Some \<lparr>dh_rcode = rc, dh_name = nm, dh_type = ty, dh_class = cl, dh_ttl = ttl\<rparr>
      | _ \<Rightarrow> None)"

definition decode_dns :: "QueryDNSResult_go \<Rightarrow> jsv \<Rightarrow> QueryDNSResult_go option" where
  "decode_dns r v =
     (case (go_field ''error'' go_string (qr_error r) v, go_field ''host'' go_string (qr_host r) v,
            go_field ''header'' (decode_header (qr_header r)) (qr_header r) v,
            go_field ''responses'' (go_array go_string) (qr_responses r) v,
            go_field ''resolvers'' (go_array go_string) (qr_resolvers r) v) of
        (Some e, Some h, Some hd', Some rs, Some vs) \<Rightarrow>
          Some \<lparr>qr_error = e, qr_host = h, qr_header = hd', qr_responses = rs, qr_resolvers = vs\<rparr>
      | _ \<Rightarrow> None)"

record QueryDNSInput_go =
  qi_hosts :: "string list"
  qi_name :: string
  qi_queryType :: string

definition decode_QueryDNSInput :: "jsv \<Rightarrow> QueryDNSInput_go option" where
  "decode_QueryDNSInput v =
     (case (decode_hosts v, go_field ''name'' go_string [] v, go_field ''queryType'' go_string [] v) of
        (Some hs, Some n, Some q) \<Rightarrow> Some \<lparr>qi_hosts = hs, qi_name = n, qi_queryType = q\<rparr>
      | _ \<Rightarrow> None)"

definition dns_worker ::
    "known \<Rightarrow> go_env \<Rightarrow> QueryDNSInput_go \<Rightarrow> string \<Rightarrow> QueryDNSResult_go script" where
  "dns_worker k env input targetHost =
     (let result = dns_result targetHost;
          queryDNSCommandBody = JObj [(''name'', JStr (qi_name input)), (''queryType'', JStr (qi_queryType input))]
      in case CallHost k (ge_net env) (ge_caller env) ''POST'' targetHost (path_Adapter QueryDNSPath)
                (Some queryDNSCommandBody) of
           Inl err \<Rightarrow> Some [result\<lparr>qr_error := err\<rparr>]
         | Inr resp \<Rightarrow>
             (case ar_json resp of
                Inl err \<Rightarrow> Some [result\<lparr>qr_error := err\<rparr>]
              | Inr v \<Rightarrow>
                  (case decode_dns result v of
                     None \<Rightarrow> Some [result\<lparr>qr_error := ge_mismatch env v\<rparr>]
                   | Some res \<Rightarrow> Some [res])))"

definition QueryDNS_handler :: "known \<Rightarrow> go_env \<Rightarrow> string + jsv \<Rightarrow> http_answer" where
  "QueryDNS_handler k env body =
     (case body of
        Inl err \<Rightarrow> StatusOnly 400
      | Inr v \<Rightarrow>
          (case decode_QueryDNSInput v of
             None \<Rightarrow> StatusOnly 400
           | Some input \<Rightarrow> answer_rows QueryDNSResult_json (map (dns_worker k env input) (qi_hosts input))))"

section \<open>Pings\<close>

text \<open>
  \<open>time.ParseDuration\<close>: a sign, then numbers with units; the result in nanoseconds. The fraction of
  a number is rounded down. Micro signs are left out of the units.
\<close>

definition unit_ns :: "string \<Rightarrow> int option" where
  "unit_ns u =
     map_of [(''ns'', 1), (''us'', 1000), (''ms'', 1000000), (''s'', 1000000000),
       (''m'', 60000000000), (''h'', 3600000000000)] u"

definition span_digits :: "string \<Rightarrow> string \<times> string" where
  "span_digits s = (takeWhile js_digit s, dropWhile js_digit s)"

definition unit_char :: "char \<Rightarrow> bool" where
  "unit_char c \<longleftrightarrow> c \<noteq> CHR ''.'' \<and> \<not> js_digit c"

definition one_duration :: "string \<Rightarrow> (int \<times> string) option" where
  "one_duration s =
     (let (w, r) = span_digits s;
          (f, r') = (if take 1 r = ''.'' then span_digits (drop 1 r) else ([], r));
          u = takeWhile unit_char r'
      in if w = [] \<and> f = [] then None
         else case unit_ns u of
                None \<Rightarrow> None
              | Some n \<Rightarrow>
                  let v = int (read_nat w) * n + int (read_nat f) * n div 10 ^ length f
                  in if v > 2 ^ 63 then None else Some (v, dropWhile unit_char r'))"

lemma one_duration_shorter: "one_duration s = Some (v, r) \<Longrightarrow> length r < length s"
proof -
  assume "one_duration s = Some (v, r)"
  then obtain w r1 f r2 where d: "span_digits s = (w, r1)"
      "(if take 1 r1 = ''.'' then span_digits (drop 1 r1) else ([], r1)) = (f, r2)"
      "\<not> (w = [] \<and> f = [])" "r = dropWhile unit_char r2"
    by (auto simp: one_duration_def Let_def split: prod.splits if_splits option.splits)
  have "length r \<le> length r2" by (simp add: d(4) length_dropWhile_le)
  moreover have "length w + length r1 = length s"
    using d(1) by (auto simp: span_digits_def simp flip: length_append)
  moreover have "length f + length r2 \<le> length r1"
    using d(2) by (auto simp: span_digits_def simp flip: length_append split: if_splits)
  moreover have "0 < length w + length f" using d(3) by auto
  ultimately show ?thesis by linarith
qed

function sum_durations :: "int \<Rightarrow> string \<Rightarrow> int option" where
  "sum_durations d s =
     (if s = [] then Some d
      else case one_duration s of
             None \<Rightarrow> None
           | Some (v, r) \<Rightarrow> if d + v > 2 ^ 63 then None else sum_durations (d + v) r)"
  by pat_completeness auto
termination
  by (relation "measure (\<lambda>(d, s). length s)") (auto dest: one_duration_shorter)

definition ParseDuration :: "string \<Rightarrow> int option" where
  "ParseDuration s0 =
     (let neg = take 1 s0 = ''-'';
          s = (if neg \<or> take 1 s0 = ''+'' then drop 1 s0 else s0)
      in if s = ''0'' then Some 0
         else if s = [] then None
         else case sum_durations 0 s of
                None \<Rightarrow> None
              | Some d \<Rightarrow>
                  if neg then Some (- d) else if d > 2 ^ 63 - 1 then None else Some d)"

record pingTargets =
  pt_targets :: "string list"
  pt_host :: string

record pingInput_go =
  pg_count :: int
  pg_pingType :: string
  pg_delay :: string
  pg_args :: "pingTargets list"

record pingResults =
  pr_error :: string
  pr_host :: string
  pr_target :: string
  pr_results :: "jsv list"

definition pingResults_json :: "pingResults \<Rightarrow> jsv" where
  "pingResults_json r =
     JObj (omit_str ''error'' (pr_error r) @ omit_str ''host'' (pr_host r)
       @ omit_str ''target'' (pr_target r) @ omit_list ''results'' (pr_results r))"

definition decode_pingTargets :: "jsv \<Rightarrow> pingTargets option" where
  "decode_pingTargets v =
     (case (go_field ''targets'' (go_array go_string) [] v, go_field ''host'' go_string [] v) of
        (Some ts, Some h) \<Rightarrow> Some \<lparr>pt_targets = ts, pt_host = h\<rparr>
      | _ \<Rightarrow> None)"

definition decode_pingInput :: "jsv \<Rightarrow> pingInput_go option" where
  "decode_pingInput v =
     (case (go_field ''count'' go_int 0 v, go_field ''pingType'' go_string [] v,
            go_field ''delay'' go_string [] v, go_field ''args'' (go_array decode_pingTargets) [] v) of
        (Some c, Some ty, Some d, Some a) \<Rightarrow>
          Some \<lparr>pg_count = c, pg_pingType = ty, pg_delay = d, pg_args = a\<rparr>
      | _ \<Rightarrow> None)"

text \<open>An element of a \<open>[]map[string]any\<close>; a \<open>null\<close> stays a nil map.\<close>

definition go_any_map :: "jsv \<Rightarrow> jsv option" where
  "go_any_map v = (case v of JObj m \<Rightarrow> Some (JObj m) | JNull \<Rightarrow> Some JNull | _ \<Rightarrow> None)"

definition ping_worker ::
    "known \<Rightarrow> go_env \<Rightarrow> pingInput_go \<Rightarrow> string \<Rightarrow> string \<Rightarrow> pingResults script" where
  "ping_worker k env input host target =
     (let result = \<lparr>pr_error = [], pr_host = host, pr_target = target, pr_results = []\<rparr>;
          pingBody = JObj [(''target'', JStr target), (''count'', JNum (of_int (pg_count input))),
            (''pingType'', JStr (pg_pingType input)), (''delay'', JStr (pg_delay input))]
      in case CallHost k (ge_net env) (ge_caller env) ''POST'' host (path_Adapter PingPath) (Some pingBody) of
           Inl err \<Rightarrow> Some [result\<lparr>pr_error := err\<rparr>]
         | Inr resp \<Rightarrow>
             (case ar_json resp of
                Inl err \<Rightarrow> Some [result\<lparr>pr_error := err\<rparr>]
              | Inr v \<Rightarrow>
                  (case go_array go_any_map v of
                     None \<Rightarrow> Some [result\<lparr>pr_error := ge_mismatch env v\<rparr>]
                   | Some rs \<Rightarrow> Some [result\<lparr>pr_results := rs\<rparr>])))"

definition Ping_handler :: "known \<Rightarrow> go_env \<Rightarrow> string + jsv \<Rightarrow> http_answer" where
  "Ping_handler k env body =
     (case body of
        Inl err \<Rightarrow> StatusOnly 400
      | Inr v \<Rightarrow>
          (case decode_pingInput v of
             None \<Rightarrow> StatusOnly 400
           | Some input \<Rightarrow>
               (case ParseDuration (pg_delay input) of
                  None \<Rightarrow> StatusOnly 400
                | Some delay \<Rightarrow>
                    answer_rows pingResults_json
                      (concat (map (\<lambda>pingTarget.
                         map (ping_worker k env input (pt_host pingTarget)) (pt_targets pingTarget))
                        (pg_args input))))))"

section \<open>Profiles\<close>

record pprofResult =
  pf_error :: string
  pf_host :: string
  pf_type :: string
  pf_pprof :: string \<comment> \<open>bytes\<close>

definition pprofResult_json :: "pprofResult \<Rightarrow> jsv" where
  "pprofResult_json r =
     JObj (omit_str ''error'' (pf_error r) @
       [(''hosts'', JStr (pf_host r)), (''type'', JStr (pf_type r)),
        (''pprof'', if pf_pprof r = [] then JNull else JStr (b64_encode (pf_pprof r)))])"

record PprofInput_go =
  pi_hosts_go :: "string list"
  pi_type :: string
  pi_seconds :: int

definition decode_PprofInput :: "jsv \<Rightarrow> PprofInput_go option" where
  "decode_PprofInput v =
     (case (decode_hosts v, go_field ''type'' go_string [] v, go_field ''seconds'' go_int 0 v) of
        (Some hs, Some t, Some n) \<Rightarrow> Some \<lparr>pi_hosts_go = hs, pi_type = t, pi_seconds = n\<rparr>
      | _ \<Rightarrow> None)"

definition pprof_worker ::
    "known \<Rightarrow> go_env \<Rightarrow> PprofInput_go \<Rightarrow> string \<Rightarrow> pprofResult script" where
  "pprof_worker k env input targetHost =
     (let result = \<lparr>pf_error = [], pf_host = targetHost, pf_type = pi_type input, pf_pprof = []\<rparr>;
          pprofBody = JObj [(''type'', JStr (pi_type input)), (''seconds'', JNum (of_int (pi_seconds input)))]
      in case CallHost k (ge_net env) (ge_caller env) ''POST'' targetHost (path_Adapter PprofPath)
                (Some pprofBody) of
           Inl err \<Rightarrow> Some [result\<lparr>pf_error := err\<rparr>]
         | Inr resp \<Rightarrow>
             (case ar_bytes resp of
                (pprofRes, err) \<Rightarrow>
                  if err \<noteq> [] then Some [result\<lparr>pf_error := err\<rparr>]
                  else Some [result\<lparr>pf_pprof := pprofRes\<rparr>]))"

type_synonym files = "string \<Rightarrow> string option"

definition pprof_file :: "string \<Rightarrow> string" where
  "pprof_file host = ''/tmp/TSymbiote/static/'' @ host @ ''.pprof''"

definition writePprofToFile :: "go_env \<Rightarrow> string \<Rightarrow> string \<Rightarrow> files \<Rightarrow> bool \<times> files" where
  "writePprofToFile env host bytes fs =
     (if ge_write_fails env (pprof_file host) then (False, fs)
      else (True, fs(pprof_file host \<mapsto> bytes)))"

text \<open>
  One round of the collecting loop. The row that is answered is a copy made before the file is
  written, without the type; the error of the write is put into the original, which is dropped.
\<close>

definition pprof_collect :: "go_env \<Rightarrow> pprofResult \<Rightarrow> files \<Rightarrow> pprofResult \<times> files" where
  "pprof_collect env res fs =
     (let tmpRes = \<lparr>pf_error = pf_error res, pf_host = pf_host res, pf_type = [], pf_pprof = []\<rparr>;
          fs' = (if pf_error res = [] then snd (writePprofToFile env (pf_host res) (pf_pprof res) fs) else fs)
      in (tmpRes, fs'))"

fun pprof_loop :: "go_env \<Rightarrow> pprofResult list \<Rightarrow> files \<Rightarrow> pprofResult list \<times> files" where
  "pprof_loop env [] fs = ([], fs)"
| "pprof_loop env (res # rest) fs =
     (let (row, fs') = pprof_collect env res fs; (rows, fs'') = pprof_loop env rest fs'
      in (row # rows, fs''))"

definition Pprof_handler :: "known \<Rightarrow> go_env \<Rightarrow> string + jsv \<Rightarrow> files \<Rightarrow> http_answer \<times> files" where
  "Pprof_handler k env body fs =
     (case body of
        Inl err \<Rightarrow> (StatusOnly 500, fs)
      | Inr v \<Rightarrow>
          (case decode_PprofInput v of
             None \<Rightarrow> (StatusOnly 500, fs)
           | Some input \<Rightarrow>
               (case gather (map (pprof_worker k env input) (pi_hosts_go input)) of
                  None \<Rightarrow> (Crash, fs)
                | Some rs \<Rightarrow>
                    (case pprof_loop env rs fs of
                       (rows, fs') \<Rightarrow> (JsonAnswer (JArr (map pprofResult_json rows)), fs')))))"

text \<open>\<open>GET /static/pprof/\<close>: the file server of the directory the profiles are written to.\<close>

definition static_pprof :: "string \<Rightarrow> files \<Rightarrow> string option" where
  "static_pprof path fs =
     (if take 14 path = ''/static/pprof/'' then fs (''/tmp/TSymbiote/static/'' @ drop 14 path) else None)"

section \<open>The peer map\<close>

record device =
  dv_hostname :: string
  dv_connected :: bool
  dv_tags :: "string list"

text \<open>\<open>getDevices\<close> and \<open>GetDevicesWithTag\<close> of \<open>pkg/utils/tailscale_client.go\<close>, on the answer of the
  control plane.\<close>

definition getDevices :: "string + device list \<Rightarrow> string + device list" where
  "getDevices listed =
     (case listed of Inl err \<Rightarrow> Inl err | Inr devices \<Rightarrow> Inr (filter dv_connected devices))"

definition GetDevicesWithTag :: "string + device list \<Rightarrow> string \<Rightarrow> string + device list" where
  "GetDevicesWithTag listed filterTag =
     (case getDevices listed of
        Inl err \<Rightarrow> Inl err
      | Inr devices \<Rightarrow> Inr (filter (\<lambda>d. filterTag \<in> set (dv_tags d)) devices))"

record Edge_go =
  eg_id :: string
  eg_source :: string
  eg_target :: string

record Node_go =
  nd_id :: string
  nd_label :: string
  nd_data :: jsv

record peerMapResult =
  pm_nodes :: "(string \<times> Node_go) list"
  pm_edges :: "Edge_go list"
  pm_error :: string

definition Edge_json :: "Edge_go \<Rightarrow> jsv" where
  "Edge_json e =
     JObj [(''id'', JStr (eg_id e)), (''source'', JStr (eg_source e)), (''target'', JStr (eg_target e))]"

definition Node_json :: "Node_go \<Rightarrow> jsv" where
  "Node_json n = JObj [(''id'', JStr (nd_id n)), (''label'', JStr (nd_label n)), (''data'', nd_data n)]"

text \<open>A type assertion: \<open>None\<close> is a panic.\<close>

definition assert_map :: "jsv option \<Rightarrow> jsv jsobj option" where
  "assert_map v = (case v of Some (JObj m) \<Rightarrow> Some m | _ \<Rightarrow> None)"

definition assert_string :: "jsv option \<Rightarrow> string option" where
  "assert_string v = (case v of Some (JStr s) \<Rightarrow> Some s | _ \<Rightarrow> None)"

fun peer_loop :: "string \<Rightarrow> jsv list \<Rightarrow> peerMapResult \<Rightarrow> peerMapResult option" where
  "peer_loop hostname [] result = Some result"
| "peer_loop hostname (peer # peers) result =
     (case assert_map (Some peer) of
        None \<Rightarrow> None
      | Some peerstatus \<Rightarrow>
          (case assert_string (obj_get peerstatus ''HostName'') of
             None \<Rightarrow> None
           | Some peerhostname \<Rightarrow>
               peer_loop hostname peers
                 (result\<lparr>pm_edges := pm_edges result @
                    [\<lparr>eg_id = hostname @ ''->'' @ peerhostname, eg_source = hostname, eg_target = peerhostname\<rparr>],
                    pm_nodes :=
                      (if map_of (pm_nodes result) peerhostname = None
                       then pm_nodes result @
                         [(peerhostname, \<lparr>nd_id = peerhostname, nd_label = peerhostname, nd_data = peer\<rparr>)]
                       else pm_nodes result)\<rparr>)))"

text \<open>The goroutine of one adapter: what it does to the maps of known hosts, and its script.\<close>

definition peer_worker :: "go_env \<Rightarrow> string \<Rightarrow> known_event list \<times> peerMapResult script" where
  "peer_worker env adapter =
     (let result = \<lparr>pm_nodes = [], pm_edges = [], pm_error = []\<rparr>
      in case CallAdapter (ge_net env) (ge_caller env) ''POST'' adapter (path_Adapter StatusPath) None of
           Inl err \<Rightarrow> ([Forget adapter], Some [result\<lparr>pm_error := err\<rparr>])
         | Inr resp \<Rightarrow>
             (case ar_json resp of
                Inl err \<Rightarrow> ([], Some [result\<lparr>pm_error := err\<rparr>])
              | Inr v \<Rightarrow>
                  (case go_map v of
                     None \<Rightarrow> ([], Some [result\<lparr>pm_error := ge_mismatch env v\<rparr>])
                   | Some status \<Rightarrow>
                       (case assert_map (obj_get status ''Self'') of
                          None \<Rightarrow> ([], None)
                        | Some self \<Rightarrow>
                            (case assert_string (obj_get self ''HostName'') of
                               None \<Rightarrow> ([], None)
                             | Some hostname \<Rightarrow>
                                 ([Announce hostname adapter],
                                  case assert_map (obj_get status ''Peer'') of
                                    None \<Rightarrow> None
                                  | Some peers \<Rightarrow>
                                      (case peer_loop hostname (map snd (go_iter env peers)) result of
                                         None \<Rightarrow> None
                                       | Some res \<Rightarrow> Some [res])))))))"

definition merge_nodes :: "peerMapResult list \<Rightarrow> (string \<times> Node_go) list" where
  "merge_nodes rs = foldl (\<lambda>acc res. foldl (\<lambda>m (k, n). AList.update k n m) acc (pm_nodes res)) [] rs"

text \<open>
  The goroutines change the maps of known hosts in the order \<open>sched\<close>, a permutation of them, before
  the answer is put together.
\<close>

definition PeerMap_handler ::
    "go_env \<Rightarrow> string + device list \<Rightarrow> nat list \<Rightarrow> known \<Rightarrow> http_answer \<times> known" where
  "PeerMap_handler env listed sched k =
     (case GetDevicesWithTag listed ''tag:tsymbiote-adapter'' of
        Inl err \<Rightarrow> (StatusOnly 500, k)
      | Inr devices \<Rightarrow>
          let workers = map (\<lambda>d. peer_worker env (dv_hostname d)) devices;
              k' = fold known_handle (concat (map (\<lambda>i. fst (workers ! i)) sched)) k
          in (case gather (map snd workers) of
                None \<Rightarrow> (Crash, k')
              | Some rs \<Rightarrow>
                  (JsonAnswer (JObj
                     [(''hosts'', slice_json (map JStr (ge_order env (GetHosts k')))),
                      (''nodes'', slice_json (map (Node_json \<circ> snd) (go_iter env (merge_nodes rs)))),
                      (''edges'', JArr (map Edge_json (concat (map pm_edges rs))))]), k')))"

section \<open>Debug pages of an adapter\<close>

text \<open>\<open>strings.ReplaceAll\<close> with a pattern that is not empty.\<close>

function ReplaceAll :: "string \<Rightarrow> string \<Rightarrow> string \<Rightarrow> string" where
  "ReplaceAll s old new =
     (if s = [] then []
      else if old \<noteq> [] \<and> take (length old) s = old then new @ ReplaceAll (drop (length old) s) old new
      else hd s # ReplaceAll (tl s) old new)"
  by pat_completeness auto
termination
  by (relation "measure (\<lambda>(s, old, new). length s)") (auto simp: diff_less)

definition RemoteDebug_uri :: "string \<Rightarrow> string \<Rightarrow> string" where
  "RemoteDebug_uri hostname originalURI = ReplaceAll originalURI (hostname @ ''/'') []"

definition RemoteDebug :: "known \<Rightarrow> go_env \<Rightarrow> string \<Rightarrow> string \<Rightarrow> http_answer + string \<times> string" where
  "RemoteDebug k env hostname originalURI =
     (case CallHost k (ge_net env) (ge_caller env) ''GET'' hostname
             (RemoteDebug_uri hostname originalURI) None of
        Inl err \<Rightarrow> Inl (StatusOnly 500)
      | Inr resp \<Rightarrow> Inr (ar_bytes resp))"

end
