(* ===== verification/ServerNetwork.thy ===== *)
theory ServerNetwork
  imports ServerHandlers CommandProperties
begin

text \<open>
  The web UI server as the network of the page: a request of \<open>api.ts\<close> is routed, authenticated,
  handled and answered, and the answer is what \<open>fetch\<close> resolves to. Against this network the page's
  handlers are proved from end to end.
\<close>

section \<open>The server\<close>

record server =
  sv_config :: server_config
  sv_allowedUsers :: "string list"
  sv_known :: known
  sv_env :: go_env
  sv_devices :: "string + device list"
  sv_schedule :: "nat list"
  sv_files :: files
  sv_address :: string \<comment> \<open>the address the page's requests come from\<close>
  sv_text :: "jsv \<Rightarrow> string" \<comment> \<open>JSON text of an answer\<close>
  sv_other :: "ui_handler \<Rightarrow> request \<Rightarrow> fetch_outcome" \<comment> \<open>static files and debug pages\<close>

text \<open>The path of a URL with a host.\<close>

definition url_path :: "string \<Rightarrow> string" where
  "url_path url =
     takeWhile (\<lambda>c. c \<noteq> CHR ''?'')
       (dropWhile (\<lambda>c. c \<noteq> CHR ''/'') (drop 2 (dropWhile (\<lambda>c. c \<noteq> CHR ''/'') url)))"

definition as_go_request :: "server \<Rightarrow> request \<Rightarrow> go_request" where
  "as_go_request sv rq =
     \<lparr>gr_method = rq_method rq, gr_path = url_path (rq_url rq), gr_upgrade = [], gr_upgradable = False,
      gr_trace_header = [], gr_remote = sv_address sv, gr_trace = [], gr_user = []\<rparr>"

definition request_env :: "server \<Rightarrow> go_request \<Rightarrow> go_env" where
  "request_env sv q =
     (sv_env sv)\<lparr>ge_caller := (ge_caller (sv_env sv))\<lparr>cl_trace := gr_trace q, cl_user := gr_user q\<rparr>\<rparr>"

definition request_body :: "request \<Rightarrow> string + jsv" where
  "request_body rq = (case rq_body rq of None \<Rightarrow> Inl ''EOF'' | Some v \<Rightarrow> Inr v)"

text \<open>An answer as the page sees it. A status without a body is no JSON; when the program ends the
  connection is closed.\<close>

definition status_response :: "nat \<Rightarrow> response" where
  "status_response st =
     \<lparr>rsp_status = st, rsp_json = Inl (Error ''Unexpected end of JSON input''), rsp_bytes = []\<rparr>"

definition as_outcome :: "server \<Rightarrow> http_answer \<Rightarrow> fetch_outcome" where
  "as_outcome sv ans =
     (case ans of
        JsonAnswer v \<Rightarrow> Responded \<lparr>rsp_status = 200, rsp_json = Inr v, rsp_bytes = sv_text sv v\<rparr>
      | StatusOnly st \<Rightarrow> Responded (status_response st)
      | Crash \<Rightarrow> Rejected (Error ''Failed to fetch''))"

definition file_outcome :: "string option \<Rightarrow> fetch_outcome" where
  "file_outcome f =
     (case f of
        None \<Rightarrow> Responded (status_response 404)
      | Some bytes \<Rightarrow>
          Responded \<lparr>rsp_status = 200, rsp_json = Inl (Error ''Unexpected token''), rsp_bytes = bytes\<rparr>)"

fun ui_handle :: "ui_handler \<Rightarrow> go_request \<Rightarrow> request \<Rightarrow> server \<Rightarrow> fetch_outcome \<times> server" where
  "ui_handle UI_RelativeJSON q rq sv =
     (as_outcome sv (RelativeJSON (sv_known sv) (request_env sv q) (gr_path q) (request_body rq)), sv)"
| "ui_handle UI_Goroutines q rq sv =
     (as_outcome sv (Goroutines_handler (sv_known sv) (request_env sv q) (request_body rq)), sv)"
| "ui_handle UI_Ping q rq sv =
     (as_outcome sv (Ping_handler (sv_known sv) (request_env sv q) (request_body rq)), sv)"
| "ui_handle UI_QueryDNS q rq sv =
     (as_outcome sv (QueryDNS_handler (sv_known sv) (request_env sv q) (request_body rq)), sv)"
| "ui_handle UI_Pprof q rq sv =
     (case Pprof_handler (sv_known sv) (request_env sv q) (request_body rq) (sv_files sv) of
        (ans, fs) \<Rightarrow> (as_outcome sv ans, sv\<lparr>sv_files := fs\<rparr>))"
| "ui_handle UI_PeerMap q rq sv =
     (case PeerMap_handler (request_env sv q) (sv_devices sv) (sv_schedule sv) (sv_known sv) of
        (ans, k) \<Rightarrow> (as_outcome sv ans, sv\<lparr>sv_known := k\<rparr>))"
| "ui_handle UI_PprofFiles q rq sv = (file_outcome (static_pprof (gr_path q) (sv_files sv)), sv)"
| "ui_handle h q rq sv = (sv_other sv h rq, sv)"

definition webui_answer :: "server \<Rightarrow> request \<Rightarrow> fetch_outcome \<times> server" where
  "webui_answer sv rq =
     (case snd (webui_serve (sv_config sv) (sv_allowedUsers sv) (as_go_request sv rq)) of
        Refused st \<Rightarrow> (Responded (status_response st), sv)
      | Handled h q \<Rightarrow> ui_handle h q rq sv)"

definition webui_network :: "server \<Rightarrow> network" where
  "webui_network sv rq = fst (webui_answer sv rq)"

section \<open>Requests of the page reach their handlers\<close>

text \<open>The page was loaded from a host name, and its user may use the server.\<close>

definition page_ok :: "page_env \<Rightarrow> bool" where
  "page_ok env \<longleftrightarrow> CHR ''/'' \<notin> set (env_protocol env @ env_host env @ env_hostname env)"

definition user_ok :: "server \<Rightarrow> bool" where
  "user_ok sv \<longleftrightarrow> sc_dev (sv_config sv)
     \<or> user_allowed (sv_allowedUsers sv) (sc_whois (sv_config sv) (sv_address sv))"

lemma url_path_base:
  assumes "page_ok env" shows "url_path (getApiBaseUrl env @ CHR ''/'' # p) = takeWhile (\<lambda>c. c \<noteq> CHR ''?'') (CHR ''/'' # p)"
proof -
  obtain h where h: "getApiBaseUrl env = env_protocol env @ CHR ''/'' # CHR ''/'' # h" "CHR ''/'' \<notin> set h"
    using assms by (cases "env_prod env") (auto simp: getApiBaseUrl_def page_ok_def)
  have "CHR ''/'' \<notin> set (env_protocol env)" using assms by (simp add: page_ok_def)
  then show ?thesis
    using dropWhile_until [of "CHR ''/''" "env_protocol env" "CHR ''/'' # h @ CHR ''/'' # p"]
      dropWhile_until [of "CHR ''/''" h p] h
    by (simp add: url_path_def)
qed

text \<open>The request as the middleware leaves it.\<close>

definition page_user :: "server \<Rightarrow> string" where
  "page_user sv =
     (if sc_dev (sv_config sv) then []
      else case sc_whois (sv_config sv) (sv_address sv) of Inl err \<Rightarrow> [] | Inr (login, tags) \<Rightarrow> login)"

definition page_request :: "server \<Rightarrow> request \<Rightarrow> go_request" where
  "page_request sv rq =
     (as_go_request sv rq)\<lparr>gr_trace := sc_uuid (sv_config sv), gr_user := page_user sv\<rparr>"

definition page_env_of :: "server \<Rightarrow> go_env" where
  "page_env_of sv =
     (sv_env sv)\<lparr>ge_caller := (ge_caller (sv_env sv))
        \<lparr>cl_trace := sc_uuid (sv_config sv), cl_user := page_user sv\<rparr>\<rparr>"

lemma page_request_env [simp]: "request_env sv (page_request sv rq) = page_env_of sv"
  by (simp add: request_env_def page_env_of_def page_request_def)

fun kind_method :: "route_kind \<Rightarrow> string" where
  "kind_method GetRoute = ''GET''"
| "kind_method PostRoute = ''POST''"
| "kind_method WebsocketRoute = ''GET''"

lemma ui_request_served:
  assumes user: "user_ok sv" and route: "served_by ui_routes (url_path (rq_url rq)) kind h"
    and kind: "kind \<noteq> WebsocketRoute" and meth: "rq_method rq = kind_method kind"
  shows "webui_answer sv rq = ui_handle h (page_request sv rq) rq sv"
proof -
  let ?r = "as_go_request sv rq" and ?cfg = "sv_config sv"
  let ?auth = "uiAuth (sc_whois ?cfg) (sv_allowedUsers sv)"
  obtain rt where rt: "mux_route ui_routes (gr_path ?r) = Some rt" "rt_auth rt" "rt_kind rt = kind"
      "rt_handler rt = h"
    using route by (auto simp: served_by_def as_go_request_def split: option.splits)
  have final: "\<exists>hs. kind_middleware kind (\<lambda>q. ([], Handled h q)) q = (hs, Handled h q)"
    if "gr_method q = kind_method kind" for q
    using that kind by (cases kind) (auto simp: getRequest_def postRequest_def set_headers_def)
  have "\<exists>hs. webui_serve ?cfg (sv_allowedUsers sv) ?r = (hs, Handled h (page_request sv rq))"
  proof (cases "sc_dev ?cfg")
    case True
    then have "page_request sv rq = ?r\<lparr>gr_trace := sc_uuid ?cfg\<rparr>"
      by (simp add: page_request_def as_go_request_def page_user_def)
    with True rt final [of "page_request sv rq"] meth show ?thesis
      by (simp add: webui_serve_def serve_def route_chain_def register_foldr RequestLogger_def
          as_go_request_def)
  next
    case False
    with user obtain login tags where who: "sc_whois ?cfg (sv_address sv) = Inr (login, tags)"
        "sv_allowedUsers sv = [] \<or> login \<in> set (sv_allowedUsers sv)"
      by (auto simp: user_ok_def user_allowed_def split: sum.splits)
    with False have "page_request sv rq = ?r\<lparr>gr_trace := sc_uuid ?cfg, gr_user := login\<rparr>"
      by (simp add: page_request_def page_user_def)
    with False rt who final [of "page_request sv rq"] meth show ?thesis
      by (auto simp: webui_serve_def serve_def route_chain_def register_foldr RequestLogger_def
          uiAuth_def as_go_request_def Let_def)
  qed
  then show ?thesis by (auto simp: webui_answer_def)
qed

section \<open>Host commands from end to end\<close>

lemma decode_js_strings [simp]: "go_array go_string (js_strings hs) = Some hs"
proof -
  have "go_list go_string (map JStr hs) = Some hs" by (induction hs) (simp_all add: go_string_def)
  then show ?thesis by (simp add: go_array_def js_strings_def)
qed

lemma decode_hosts_field:
  "obj_get m ''hosts'' = Some (js_strings hs) \<Longrightarrow> decode_hosts (JObj m) = Some hs"
  by (simp add: decode_hosts_def go_field_def) (simp add: js_strings_def)

fun cmd_handler :: "host_cmd \<Rightarrow> ui_handler" where
  "cmd_handler Goroutines = UI_Goroutines"
| "cmd_handler _ = UI_RelativeJSON"

lemma cmd_served:
  assumes "page_ok env"
  shows "served_by ui_routes (url_path (rq_url (fetchHostData_request env (cmd_endpoint c) hs))) PostRoute
      (cmd_handler c)"
    and "c \<noteq> Goroutines \<Longrightarrow> find_targetPath (url_path (rq_url (fetchHostData_request env (cmd_endpoint c) hs)))
      = ''/'' @ cmd_endpoint c"
proof -
  have path: "url_path (rq_url (fetchHostData_request env (cmd_endpoint c) hs)) = ''/api/'' @ cmd_endpoint c"
    using url_path_base [OF assms, of "''api/'' @ cmd_endpoint c"]
    by (cases c) (simp_all add: fetchHostData_request_def)
  show "served_by ui_routes (url_path (rq_url (fetchHostData_request env (cmd_endpoint c) hs))) PostRoute
      (cmd_handler c)"
    unfolding path by (cases c; simp only: cmd_endpoint.simps cmd_handler.simps; code_simp)
  show "c \<noteq> Goroutines \<Longrightarrow> find_targetPath (url_path (rq_url (fetchHostData_request env (cmd_endpoint c) hs)))
      = ''/'' @ cmd_endpoint c"
    unfolding path by (cases c; simp only: cmd_endpoint.simps; code_simp)
qed

text \<open>The call a host command makes to the adapter of a host.\<close>

definition host_call :: "server \<Rightarrow> host_cmd \<Rightarrow> string \<Rightarrow> string + adapter_response" where
  "host_call sv c h =
     CallHost (sv_known sv) (ge_net (page_env_of sv)) (ge_caller (page_env_of sv)) ''POST'' h
       (''/'' @ cmd_endpoint c) None"

text \<open>
  A call that does not end the server: it fails with a message, or, except for goroutine dumps,
  which are no JSON, its answer is a JSON object.
\<close>

definition call_settles :: "server \<Rightarrow> host_cmd \<Rightarrow> string \<Rightarrow> bool" where
  "call_settles sv c h \<longleftrightarrow>
     (case host_call sv c h of
        Inl err \<Rightarrow> err \<noteq> []
      | Inr resp \<Rightarrow> c = Goroutines \<or> (\<exists>v m. ar_json resp = Inr v \<and> go_map v = Some m))"

text \<open>What the page is to show for a host: the error of the call or the adapter's answer.\<close>

definition host_shows :: "server \<Rightarrow> host_cmd \<Rightarrow> string \<Rightarrow> jsv" where
  "host_shows sv c h =
     (case host_call sv c h of
        Inl err \<Rightarrow> error_object err
      | Inr resp \<Rightarrow>
          if c = Goroutines then
            (case ar_bytes resp of
               (bytes, err) \<Rightarrow>
                 if err \<noteq> [] then error_object err
                 else if bytes = [] then error_object ''No data returned''
                 else JStr bytes)
          else (case ar_json resp of
                  Inl err \<Rightarrow> JUndef
                | Inr v \<Rightarrow>
                    (case go_map v of
                       None \<Rightarrow> JUndef
                     | Some m \<Rightarrow> if m = [] then JUndef else JObj m)))"

fun cmd_rows :: "server \<Rightarrow> host_cmd \<Rightarrow> string \<Rightarrow> jsv" where
  "cmd_rows sv Goroutines h = goroutinesResult_json (hd (the (goroutines_worker (sv_known sv) (page_env_of sv) h)))"
| "cmd_rows sv c h = defaultResult_json
     (hd (the (relative_worker (sv_known sv) (page_env_of sv) (''/'' @ cmd_endpoint c) h)))"

lemma goroutines_path: "path_Adapter GoroutinesPath = ''/Goroutines''"
  by (simp add: path_Adapter_def path_names)

lemma gather_map: "(\<And>x. x \<in> set xs \<Longrightarrow> \<exists>r. f x = Some [r]) \<Longrightarrow> gather (map f xs) = Some (map (\<lambda>x. hd (the (f x))) xs)"
  by (fastforce simp: gather_def list_all_iff)

lemma relative_single:
  "call_settles sv c h \<Longrightarrow> c \<noteq> Goroutines \<Longrightarrow>
     \<exists>r. relative_worker (sv_known sv) (page_env_of sv) (''/'' @ cmd_endpoint c) h = Some [r]"
  by (auto simp: call_settles_def relative_worker_def host_call_def split: sum.splits)

lemma goroutines_single: "\<exists>r. goroutines_worker k env h = Some [r]"
  by (auto simp: goroutines_worker_def Let_def split: sum.splits prod.splits)

lemma b64_nonempty: "b64_encode s = [] \<longleftrightarrow> s = []"
  by (cases s rule: b64_encode.cases) (auto simp: Let_def)

lemma row_entry:
  assumes "call_settles sv c h" "h \<noteq> []"
  shows "cmd_entry c (cmd_rows sv c h) = Inr (h, host_shows sv c h)" "cmd_rows sv c h \<noteq> JUndef"
    "cmd_rows sv c h \<noteq> JNull"
proof -
  show "cmd_rows sv c h \<noteq> JUndef" "cmd_rows sv c h \<noteq> JNull"
    by (cases c; simp add: defaultResult_json_def goroutinesResult_json_def)+
  have rel: "host_entry (defaultResult_json (hd (the (relative_worker (sv_known sv) (page_env_of sv)
      (''/'' @ cmd_endpoint c) h)))) = Inr (h, host_shows sv c h)" if "c \<noteq> Goroutines"
    using assms that
    by (auto simp: call_settles_def relative_worker_def host_shows_def host_call_def
        host_entry_def host_key_def js_or_def js_opt_prop_def obj_get_def error_entry_def error_object_def
        defaultResult_json_def omit_str_def split: sum.splits)
  have gor: "goroutines_entry (goroutinesResult_json (hd (the (goroutines_worker (sv_known sv) (page_env_of sv) h))))
      = Inr (h, host_shows sv c h)" if "c = Goroutines"
    using assms that
    by (auto simp: call_settles_def goroutines_worker_def host_shows_def host_call_def goroutines_path
        goroutines_entry_def host_key_def js_or_def js_opt_prop_def obj_get_def error_entry_def
        error_object_def goroutinesResult_json_def omit_str_def Let_def b64_nonempty atob_encode
        split: sum.splits prod.splits)
  show "cmd_entry c (cmd_rows sv c h) = Inr (h, host_shows sv c h)"
    using rel gor by (cases c) simp_all
qed

lemma host_request_answered:
  assumes "page_ok env" "user_ok sv" "\<forall>h \<in> set hs. call_settles sv c h"
  shows "fetchHostData env (webui_network sv) (cmd_endpoint c) hs = Inr (JArr (map (cmd_rows sv c) hs))"
proof -
  let ?rq = "fetchHostData_request env (cmd_endpoint c) hs"
  have meth: "rq_method ?rq = kind_method PostRoute" by (simp add: fetchHostData_request_def)
  have body: "request_body (fetchHostData_request env ep hs) = Inr (JObj [(''hosts'', js_strings hs)])" for ep
    by (simp add: request_body_def fetchHostData_request_def)
  have dec: "decode_hosts (JObj [(''hosts'', js_strings hs)]) = Some hs"
    by (rule decode_hosts_field) (simp add: obj_get_def)
  have path: "gr_path (page_request sv ?rq) = url_path (rq_url ?rq)"
    by (simp add: page_request_def as_go_request_def)
  have "webui_network sv ?rq = as_outcome sv (JsonAnswer (JArr (map (cmd_rows sv c) hs)))"
  proof (cases "c = Goroutines")
    case True
    have "gather (map (goroutines_worker (sv_known sv) (page_env_of sv)) hs)
        = Some (map (\<lambda>h. hd (the (goroutines_worker (sv_known sv) (page_env_of sv) h))) hs)"
      by (rule gather_map) (rule goroutines_single)
    moreover have "cmd_rows sv Goroutines = (\<lambda>h. goroutinesResult_json
        (hd (the (goroutines_worker (sv_known sv) (page_env_of sv) h))))"
      by (simp add: fun_eq_iff)
    ultimately show ?thesis
      using ui_request_served [OF assms(2) cmd_served(1) [OF assms(1), of c hs] _ meth] True
      by (simp add: webui_network_def Goroutines_handler_def body dec answer_rows_def comp_def)
  next
    case False
    have "gather (map (relative_worker (sv_known sv) (page_env_of sv) (''/'' @ cmd_endpoint c)) hs)
        = Some (map (\<lambda>h. hd (the (relative_worker (sv_known sv) (page_env_of sv) (''/'' @ cmd_endpoint c) h))) hs)"
      by (rule gather_map) (use assms(3) False relative_single in blast)
    moreover have "cmd_handler c = UI_RelativeJSON" "cmd_rows sv c = (\<lambda>h. defaultResult_json
        (hd (the (relative_worker (sv_known sv) (page_env_of sv) (''/'' @ cmd_endpoint c) h))))"
      using False by (cases c; simp add: fun_eq_iff)+
    ultimately show ?thesis
      using ui_request_served [OF assms(2) cmd_served(1) [OF assms(1), of c hs] _ meth]
        cmd_served(2) [OF assms(1) False, of hs]
      by (simp add: webui_network_def RelativeJSON_def path body dec answer_rows_def comp_def)
  qed
  then show ?thesis by (simp add: fetchHostData_def read_ok_json_def as_outcome_def rsp_ok_def)
qed

lemma host_command_served:
  assumes "page_ok env" and "user_ok sv" and "onlineSelectedHosts a \<noteq> []"
    and "\<forall>h \<in> set (onlineSelectedHosts a). h \<noteq> [] \<and> call_settles sv c h"
  shows "obj_get (outputData (run_host_cmd c env (webui_network sv) a)) h =
    (if h \<in> set (onlineSelectedHosts a) then Some (host_shows sv c h) else None)"
proof -
  let ?hs = "onlineSelectedHosts a"
  have fetched: "fetchHostData env (webui_network sv) (cmd_endpoint c) ?hs = Inr (JArr (map (cmd_rows sv c) ?hs))"
    by (rule host_request_answered) (use assms in auto)
  have entry: "cmd_entry c (cmd_rows sv c h) = Inr (h, host_shows sv c h)"
    "cmd_rows sv c h \<noteq> JUndef" "cmd_rows sv c h \<noteq> JNull" if "h \<in> set ?hs" for h
    using row_entry assms(4) that by blast+
  have "exn_map (cmd_entry c) (map (cmd_rows sv c) hs) = Inr (map (\<lambda>h. (h, host_shows sv c h)) hs)"
    if "set hs \<subseteq> set ?hs" for hs
    using that by (induction hs) (simp_all add: entry)
  from this [OF subset_refl]
  have "outputData (run_host_cmd c env (webui_network sv) a)
      = assign_all obj_set [] (map (\<lambda>h. (h, host_shows sv c h)) ?hs)"
    using assms(3) fetched
    by (simp add: hc.cmd_runs host_command_def Let_def command_finish_def collect_results_def)
  then show ?thesis
    by (auto simp: rows_lookup map_of_eq_None_iff image_image intro!: lookup_rows)
qed

text \<open>A server with one host and one adapter, which answers every call with the same status.\<close>

definition sample_status :: jsv where
  "sample_status =
     JObj [(''Self'', JObj [(''HostName'', JStr ''h'')]),
           (''Peer'', JObj [(''k'', JObj [(''HostName'', JStr ''p'')])])]"

definition sample_pong :: jsv where
  "sample_pong = JObj [(''LatencySeconds'', JNum 1)]"

definition sample_net :: tailnet where
  "sample_net call =
     Inr \<lparr>ar_code = 200, ar_status = ''200 OK'',
        ar_json = (if ac_body call = None then Inr sample_status else Inr (JArr [sample_pong])),
        ar_bytes = (''dump'', [])\<rparr>"

definition sample_server :: server where
  "sample_server =
     \<lparr>sv_config = \<lparr>sc_dev = True, sc_whois = (\<lambda>_. Inl ''none''), sc_uuid = ''id''\<rparr>, sv_allowedUsers = [],
      sv_known = SetKnownHost ''g'' ''b'' (SetKnownHost ''h'' ''a'' NewClient),
      sv_env = \<lparr>ge_net = sample_net, ge_caller = \<lparr>cl_trace = [], cl_user = [], cl_port = ''3621''\<rparr>,
        ge_mismatch = (\<lambda>_. ''mismatch''), ge_order = (\<lambda>ks. ks), ge_write_fails = (\<lambda>_. False)\<rparr>,
      sv_devices = Inr [\<lparr>dv_hostname = ''a'', dv_connected = True, dv_tags = [''tag:tsymbiote-adapter'']\<rparr>],
      sv_schedule = [0], sv_files = (\<lambda>_. None), sv_address = ''1'', sv_text = (\<lambda>_. []),
      sv_other = (\<lambda>_ _. Rejected (Error ''none''))\<rparr>"

lemma sample_ok: "page_ok sample_env" "user_ok sample_server"
  by (simp_all add: page_ok_def sample_env_def user_ok_def sample_server_def)

end
