(* ===== verification/ServerProperties.thy ===== *)
theory ServerProperties
  imports ServerNetwork
begin

text \<open>
  Properties of the web UI server and of the page in front of it: the crash of the pass-through, the
  peer map from the devices to the graph, pings, and profiles.
\<close>

section \<open>The pass-through ends the server\<close>

definition undecodable :: "adapter_response \<Rightarrow> bool" where
  "undecodable resp \<longleftrightarrow> (case ar_json resp of Inl err \<Rightarrow> True | Inr v \<Rightarrow> go_map v = None)"

lemma relative_worker_single:
  "(\<exists>r. relative_worker k env p h = Some [r]) \<longleftrightarrow>
     \<not> (\<exists>resp. CallHost k (ge_net env) (ge_caller env) ''POST'' h p None = Inr resp \<and> undecodable resp)"
  by (auto simp: relative_worker_def undecodable_def Let_def split: sum.splits option.splits)

lemma gather_crash:
  fixes f :: "'a \<Rightarrow> 'b script"
  shows "gather (map f xs) = None \<longleftrightarrow> (\<exists>x \<in> set xs. \<not> (\<exists>r. f x = Some [r]))"
proof -
  have "(case sc of Some [r] \<Rightarrow> True | _ \<Rightarrow> False) \<longleftrightarrow> (\<exists>r. sc = Some [r])" for sc :: "'b script"
    by (auto split: option.splits list.splits)
  then show ?thesis by (auto simp: gather_def list_all_iff)
qed

lemma answer_crash: "answer_rows row scripts = Crash \<longleftrightarrow> gather scripts = None"
  by (simp add: answer_rows_def split: option.splits)

text \<open>
  C16. One adapter that answers a pass-through command with a success that is not a JSON object ends
  the web UI server, whatever the other adapters do; nothing else in the pass-through does.
\<close>

theorem passthrough_crash:
  "RelativeJSON k env path body = Crash \<longleftrightarrow>
     find_targetPath path \<noteq> [] \<and>
     (\<exists>v hosts h resp. body = Inr v \<and> decode_hosts v = Some hosts \<and> h \<in> set hosts
        \<and> CallHost k (ge_net env) (ge_caller env) ''POST'' h (find_targetPath path) None = Inr resp
        \<and> undecodable resp)"
  by (cases body; cases "decode_hosts (projr body)")
    (simp_all add: RelativeJSON_def answer_crash gather_crash relative_worker_single Let_def, blast)

section \<open>The peer map\<close>

text \<open>What an adapter reports: the name of its host and its peers, if the call works out.\<close>

definition reported :: "go_env \<Rightarrow> string \<Rightarrow> (string \<times> jsv list) option" where
  "reported env adapter =
     (case CallAdapter (ge_net env) (ge_caller env) ''POST'' adapter ''/Status'' None of
        Inl err \<Rightarrow> None
      | Inr resp \<Rightarrow>
          (case ar_json resp of
             Inl err \<Rightarrow> None
           | Inr v \<Rightarrow>
               (case go_map v of
                  None \<Rightarrow> None
                | Some status \<Rightarrow>
                    (case (js_opt_prop (js_opt_prop v ''Self'') ''HostName'', js_opt_prop v ''Peer'') of
                       (JStr hostname, JObj peers) \<Rightarrow> Some (hostname, map snd (go_iter env peers))
                     | _ \<Rightarrow> None))))"

definition peer_name :: "jsv \<Rightarrow> string" where
  "peer_name p = to_str (js_opt_prop p ''HostName'')"

definition named_peer :: "jsv \<Rightarrow> bool" where
  "named_peer p \<longleftrightarrow> (\<exists>m n. p = JObj m \<and> obj_get m ''HostName'' = Some (JStr n))"

lemma named_peer_assert:
  "named_peer p \<Longrightarrow> \<exists>m. assert_map (Some p) = Some m \<and> assert_string (obj_get m ''HostName'') = Some (peer_name p)"
  by (auto simp: named_peer_def assert_map_def assert_string_def peer_name_def js_opt_prop_def)

definition peer_edge :: "string \<Rightarrow> jsv \<Rightarrow> Edge_go" where
  "peer_edge hostname p =
     \<lparr>eg_id = hostname @ ''->'' @ peer_name p, eg_source = hostname, eg_target = peer_name p\<rparr>"

text \<open>The nodes of a result are keyed by their names, and show peers.\<close>

definition nodes_ok :: "(string \<times> Node_go) list \<Rightarrow> bool" where
  "nodes_ok ns \<longleftrightarrow> distinct (map fst ns)
     \<and> (\<forall>k n. map_of ns k = Some n \<longrightarrow>
           nd_id n = k \<and> nd_label n = k \<and> named_peer (nd_data n) \<and> peer_name (nd_data n) = k)"

lemma peer_loop_result:
  assumes "\<forall>p \<in> set peers. named_peer p" "nodes_ok (pm_nodes r)"
  shows "\<exists>r'. peer_loop hostname peers r = Some r' \<and> pm_edges r' = pm_edges r @ map (peer_edge hostname) peers
    \<and> nodes_ok (pm_nodes r') \<and> fst ` set (pm_nodes r') = fst ` set (pm_nodes r) \<union> peer_name ` set peers"
  using assms
proof (induction peers arbitrary: r)
  case (Cons p ps)
  obtain m where m: "assert_map (Some p) = Some m" "assert_string (obj_get m ''HostName'') = Some (peer_name p)"
    using named_peer_assert [of p] Cons.prems(1) by auto
  let ?new = "(peer_name p, \<lparr>nd_id = peer_name p, nd_label = peer_name p, nd_data = p\<rparr>)"
  let ?ns = "if map_of (pm_nodes r) (peer_name p) = None then pm_nodes r @ [?new] else pm_nodes r"
  let ?r = "r\<lparr>pm_edges := pm_edges r @ [peer_edge hostname p], pm_nodes := ?ns\<rparr>"
  have step: "peer_loop hostname (p # ps) r = peer_loop hostname ps ?r"
    by (simp add: m peer_edge_def)
  have new: "map_of (pm_nodes r) (peer_name p) = None \<longleftrightarrow> peer_name p \<notin> fst ` set (pm_nodes r)"
    by (simp add: map_of_eq_None_iff)
  have keys: "fst ` set ?ns = insert (peer_name p) (fst ` set (pm_nodes r))"
    unfolding new by (simp add: insert_absorb)
  have ok: "nodes_ok ?ns"
    using Cons.prems by (auto simp: nodes_ok_def map_of_eq_None_iff map_add_def split: option.splits if_splits)
  show ?case
    unfolding step using Cons.IH [of ?r] Cons.prems(1) ok keys by auto
qed simp

definition device_settles :: "go_env \<Rightarrow> string \<Rightarrow> bool" where
  "device_settles env adapter \<longleftrightarrow>
     (case CallAdapter (ge_net env) (ge_caller env) ''POST'' adapter ''/Status'' None of
        Inl err \<Rightarrow> True
      | Inr resp \<Rightarrow>
          undecodable resp \<or> (\<exists>h ps. reported env adapter = Some (h, ps) \<and> list_all named_peer ps))"

definition shows_report :: "(string \<times> jsv list) option \<Rightarrow> peerMapResult \<Rightarrow> bool" where
  "shows_report rep r \<longleftrightarrow> nodes_ok (pm_nodes r) \<and>
     (case rep of
        None \<Rightarrow> pm_edges r = [] \<and> pm_nodes r = []
      | Some (h, ps) \<Rightarrow> pm_edges r = map (peer_edge h) ps \<and> fst ` set (pm_nodes r) = peer_name ` set ps)"

lemma status_path: "path_Adapter StatusPath = ''/Status''"
  by (simp add: path_Adapter_def path_names)

lemma opt_prop_obj: "js_opt_prop (JObj m) k = (case obj_get m k of None \<Rightarrow> JUndef | Some v \<Rightarrow> v)"
  by (simp add: js_opt_prop_def)

lemma peer_worker_result:
  assumes "device_settles env adapter"
  shows "\<exists>r. snd (peer_worker env adapter) = Some [r] \<and> shows_report (reported env adapter) r"
proof (cases "CallAdapter (ge_net env) (ge_caller env) ''POST'' adapter ''/Status'' None")
  case (Inl err)
  then show ?thesis
    by (simp add: peer_worker_def status_path reported_def shows_report_def nodes_ok_def)
next
  case (Inr resp)
  show ?thesis
  proof (cases "undecodable resp")
    case True
    with Inr show ?thesis
      by (auto simp: peer_worker_def status_path reported_def undecodable_def shows_report_def nodes_ok_def
          split: sum.splits)
  next
    case False
    with assms Inr obtain h ps where rep: "reported env adapter = Some (h, ps)" "list_all named_peer ps"
      by (auto simp: device_settles_def)
    from False Inr rep(1) obtain v m self peers where
      v: "ar_json resp = Inr v" "go_map v = Some m" and
      self: "js_opt_prop (js_opt_prop v ''Self'') ''HostName'' = JStr h" and
      peers: "js_opt_prop v ''Peer'' = JObj peers" "ps = map snd (go_iter env peers)"
      by (auto simp: reported_def undecodable_def split: sum.splits option.splits jsv.splits)
    have vm: "v = JObj m" using v(2) peers(1) by (cases v) (auto simp: go_map_def js_opt_prop_def)
    have p: "assert_map (obj_get m ''Peer'') = Some peers"
      using peers(1) by (auto simp: vm opt_prop_obj assert_map_def split: option.splits)
    obtain sm where sm: "assert_map (obj_get m ''Self'') = Some sm" "assert_string (obj_get sm ''HostName'') = Some h"
    proof (cases "obj_get m ''Self''")
      case (Some w)
      with self have "js_opt_prop w ''HostName'' = JStr h" by (simp add: vm opt_prop_obj)
      then obtain sm where "w = JObj sm" "obj_get sm ''HostName'' = Some (JStr h)"
        by (cases w) (auto simp: js_opt_prop_def array_index_def js_digit_def code_of_def split: option.splits if_splits)
      with Some that show ?thesis by (simp add: assert_map_def assert_string_def)
    qed (use self in \<open>simp add: vm opt_prop_obj js_opt_prop_def\<close>)
    let ?r0 = "\<lparr>pm_nodes = [], pm_edges = [], pm_error = []\<rparr>"
    obtain r where r: "peer_loop h ps ?r0 = Some r" "pm_edges r = map (peer_edge h) ps" "nodes_ok (pm_nodes r)"
        "fst ` set (pm_nodes r) = peer_name ` set ps"
      using peer_loop_result [of ps ?r0 h] rep(2) by (auto simp: list_all_iff nodes_ok_def)
    then show ?thesis
      by (simp add: peer_worker_def status_path Inr v p sm rep(1) shows_report_def flip: peers(2))
  qed
qed

subsection \<open>Merging\<close>

lemma nodes_ok_update:
  "nodes_ok ns \<Longrightarrow> nd_id n = k \<Longrightarrow> nd_label n = k \<Longrightarrow> named_peer (nd_data n) \<Longrightarrow> peer_name (nd_data n) = k \<Longrightarrow>
     nodes_ok (AList.update k n ns)"
  by (auto simp: nodes_ok_def distinct_update update_conv' split: if_splits)

lemma nodes_ok_merge:
  assumes "nodes_ok acc" "nodes_ok ns"
  shows "nodes_ok (foldl (\<lambda>m (k, n). AList.update k n m) acc ns)
    \<and> fst ` set (foldl (\<lambda>m (k, n). AList.update k n m) acc ns) = fst ` set acc \<union> fst ` set ns"
proof -
  have "nodes_ok (foldl (\<lambda>m (k, n). AList.update k n m) acc ms)
    \<and> fst ` set (foldl (\<lambda>m (k, n). AList.update k n m) acc ms) = fst ` set acc \<union> fst ` set ms"
    if "set ms \<subseteq> set ns" "nodes_ok acc" for ms acc
    using that
  proof (induction ms arbitrary: acc)
    case (Cons x ms)
    obtain k n where x: "x = (k, n)" by (cases x)
    then have "map_of ns k = Some n" using Cons.prems(1) assms(2) by (simp add: nodes_ok_def)
    then have "nodes_ok (AList.update k n acc)"
      using assms(2) Cons.prems(2) by (intro nodes_ok_update) (auto simp: nodes_ok_def)
    with Cons.IH [of "AList.update k n acc"] Cons.prems(1) x show ?case by (simp add: dom_update)
  qed simp
  from this [OF subset_refl assms(1)] show ?thesis .
qed

lemma merge_nodes_ok:
  assumes "\<forall>r \<in> set rs. nodes_ok (pm_nodes r)"
  shows "nodes_ok (merge_nodes rs) \<and> fst ` set (merge_nodes rs) = (\<Union>r \<in> set rs. fst ` set (pm_nodes r))"
proof -
  have "nodes_ok (foldl (\<lambda>acc res. foldl (\<lambda>m (k, n). AList.update k n m) acc (pm_nodes res)) acc rs)
      \<and> fst ` set (foldl (\<lambda>acc res. foldl (\<lambda>m (k, n). AList.update k n m) acc (pm_nodes res)) acc rs)
        = fst ` set acc \<union> (\<Union>r \<in> set rs. fst ` set (pm_nodes r))" if "nodes_ok acc" for acc
    using assms that
  proof (induction rs arbitrary: acc)
    case (Cons r rs)
    with nodes_ok_merge [of acc "pm_nodes r"] show ?case by (simp add: Un_assoc)
  qed simp
  from this [of "[]"] show ?thesis by (simp add: merge_nodes_def nodes_ok_def)
qed

subsection \<open>From the devices to the graph\<close>

definition reports :: "go_env \<Rightarrow> device list \<Rightarrow> (string \<times> jsv list) list" where
  "reports env devices =
     concat (map (\<lambda>d. case reported env (dv_hostname d) of None \<Rightarrow> [] | Some r \<Rightarrow> [r]) devices)"

definition worker_result :: "go_env \<Rightarrow> device \<Rightarrow> peerMapResult" where
  "worker_result env d = hd (the (snd (peer_worker env (dv_hostname d))))"

lemma gather_peers:
  assumes "\<forall>d \<in> set devices. device_settles env (dv_hostname d)"
  shows "gather (map snd (map (\<lambda>d. peer_worker env (dv_hostname d)) devices)) = Some (map (worker_result env) devices)"
    and "d \<in> set devices \<Longrightarrow> shows_report (reported env (dv_hostname d)) (worker_result env d)"
proof -
  have r: "snd (peer_worker env (dv_hostname d)) = Some [worker_result env d]
      \<and> shows_report (reported env (dv_hostname d)) (worker_result env d)" if "d \<in> set devices" for d
    using peer_worker_result [of env "dv_hostname d"] assms that by (auto simp: worker_result_def)
  then have "map snd (map (\<lambda>d. peer_worker env (dv_hostname d)) devices)
      = map (\<lambda>r. Some [r]) (map (worker_result env) devices)"
    by (simp add: comp_def)
  then show "gather (map snd (map (\<lambda>d. peer_worker env (dv_hostname d)) devices)) = Some (map (worker_result env) devices)"
    by (simp only: gather_all)
  show "d \<in> set devices \<Longrightarrow> shows_report (reported env (dv_hostname d)) (worker_result env d)"
    using r by blast
qed

lemma reports_simps [simp]:
  "reports env [] = []"
  "reports env (d # ds) =
     (case reported env (dv_hostname d) of None \<Rightarrow> [] | Some r \<Rightarrow> [r]) @ reports env ds"
  by (simp_all add: reports_def)

lemma result_edges:
  "\<forall>d \<in> set devices. shows_report (reported env (dv_hostname d)) (worker_result env d) \<Longrightarrow>
     concat (map pm_edges (map (worker_result env) devices))
       = concat (map (\<lambda>(h, ps). map (peer_edge h) ps) (reports env devices))"
  by (induction devices) (auto simp: shows_report_def split: option.splits)

lemma result_nodes:
  "\<forall>d \<in> set devices. shows_report (reported env (dv_hostname d)) (worker_result env d) \<Longrightarrow>
     (\<Union>r \<in> set (map (worker_result env) devices). fst ` set (pm_nodes r))
       = (\<Union>(h, ps) \<in> set (reports env devices). peer_name ` set ps)"
proof (induction devices)
  case (Cons d ds)
  have "fst ` set (pm_nodes (worker_result env d)) =
      (\<Union>(h, ps) \<in> set (case reported env (dv_hostname d) of None \<Rightarrow> [] | Some r \<Rightarrow> [r]). peer_name ` set ps)"
    using Cons.prems by (cases "reported env (dv_hostname d)") (auto simp: shows_report_def)
  moreover have "(\<Union>r \<in> set (map (worker_result env) ds). fst ` set (pm_nodes r))
      = (\<Union>(h, ps) \<in> set (reports env ds). peer_name ` set ps)"
    using Cons by simp
  ultimately show ?case by (simp only: reports_simps set_append UN_Un list.map UN_insert list.set)
qed simp

lemma Node_transform:
  assumes "named_peer (nd_data n)"
  shows "\<exists>nd. transform_node redact hl (Node_json n) = Inr nd \<and> n_id nd = nd_id n"
proof -
  obtain m where "nd_data n = JObj m" using assms by (auto simp: named_peer_def)
  then show ?thesis
    by (simp add: transform_node_def Node_json_def obj_get_def js_opt_prop_def Let_def)
qed

lemma Nodes_transform:
  "\<forall>n \<in> set ns. named_peer (nd_data n) \<Longrightarrow>
     \<exists>nds. exn_map (transform_node redact hl) (map Node_json ns) = Inr nds \<and> map n_id nds = map nd_id ns"
proof (induction ns)
  case (Cons n ns)
  then obtain nd nds where "transform_node redact hl (Node_json n) = Inr nd" "n_id nd = nd_id n"
      "exn_map (transform_node redact hl) (map Node_json ns) = Inr nds" "map n_id nds = map nd_id ns"
    using Node_transform [of n redact hl] by auto
  then show ?case by simp
qed simp

lemma decode_Edge_json:
  "decode_edge (Edge_json e) = \<lparr>e_id = eg_id e, e_source = eg_source e, e_target = eg_target e\<rparr>"
  by (simp add: decode_edge_def Edge_json_def js_opt_prop_def obj_get_def)

definition peermap_request :: "page_env \<Rightarrow> request" where
  "peermap_request env =
     \<lparr>rq_method = ''GET'', rq_url = getApiBaseUrl env @ ''/api/PeerMap'',
      rq_headers = [(''Accept'', ''application/json'')], rq_body = None\<rparr>"

text \<open>The known hosts when the answer is put together.\<close>

definition known_after :: "server \<Rightarrow> device list \<Rightarrow> known" where
  "known_after sv devices =
     fold known_handle (concat (map (\<lambda>i. fst (map (\<lambda>d. peer_worker (page_env_of sv) (dv_hostname d)) devices ! i))
       (sv_schedule sv))) (sv_known sv)"

definition peermap_json :: "server \<Rightarrow> device list \<Rightarrow> jsv" where
  "peermap_json sv devices =
     (let env = page_env_of sv; rs = map (worker_result env) devices in
      JObj [(''hosts'', slice_json (map JStr (ge_order env (GetHosts (known_after sv devices))))),
            (''nodes'', slice_json (map (Node_json \<circ> snd) (go_iter env (merge_nodes rs)))),
            (''edges'', JArr (map Edge_json (concat (map pm_edges rs))))])"

lemma peermap_fetched:
  assumes "page_ok env" "user_ok sv"
    and "GetDevicesWithTag (sv_devices sv) ''tag:tsymbiote-adapter'' = Inr devices"
    and "\<forall>d \<in> set devices. device_settles (page_env_of sv) (dv_hostname d)"
  shows "fetchPeermap env (webui_network sv) = Inr (peermap_json sv devices)"
proof -
  let ?rq = "peermap_request env"
  have path: "url_path (rq_url ?rq) = ''/api/PeerMap''"
    using url_path_base [OF assms(1), of "''api/PeerMap''"] by (simp add: peermap_request_def)
  have "served_by ui_routes (url_path (rq_url ?rq)) GetRoute UI_PeerMap"
    unfolding path by code_simp
  from ui_request_served [OF assms(2) this]
  have "webui_answer sv ?rq = ui_handle UI_PeerMap (page_request sv ?rq) ?rq sv"
    by (simp add: peermap_request_def)
  then have "webui_network sv ?rq = as_outcome sv (JsonAnswer (peermap_json sv devices))"
    using gather_peers(1) [OF assms(4)]
    by (simp add: webui_network_def PeerMap_handler_def assms(3) peermap_json_def known_after_def Let_def)
  then show ?thesis
    by (simp add: fetchPeermap_def peermap_request_def read_ok_json_def as_outcome_def rsp_ok_def)
qed

lemma go_iter_nodes:
  assumes "nodes_ok m" "\<forall>ks. set (ge_order env ks) = set ks"
  shows "\<forall>n \<in> set (map snd (go_iter env m)). named_peer (nd_data n)"
    "set (map nd_id (map snd (go_iter env m))) = fst ` set m"
    "go_iter env m = [] \<longleftrightarrow> m = []"
proof -
  have at: "\<exists>n. map_of m k = Some n \<and> nd_id n = k \<and> named_peer (nd_data n)" if "k \<in> fst ` set m" for k
    using assms(1) that by (cases "map_of m k") (auto simp: nodes_ok_def map_of_eq_None_iff)
  have keys: "set (ge_order env (map fst m)) = fst ` set m" using assms(2) by simp
  show "\<forall>n \<in> set (map snd (go_iter env m)). named_peer (nd_data n)"
    using at keys by (fastforce simp: go_iter_def)
  have "nd_id (the (map_of m k)) = k" if "k \<in> fst ` set m" for k using at [OF that] by auto
  then show "set (map nd_id (map snd (go_iter env m))) = fst ` set m"
    using keys by (force simp: go_iter_def image_image)
  show "go_iter env m = [] \<longleftrightarrow> m = []"
    using keys by (auto simp: go_iter_def)
qed

lemma peermap_shown:
  assumes nodes: "exn_map (transform_node redact (map to_str hs)) ns = Inr nds" and "ns \<noteq> []"
  shows "fst (fetchData redact sf (Inr (JObj [(''hosts'', slice_json hs), (''nodes'', slice_json ns),
      (''edges'', JArr es)])) a) =
    a\<lparr>app_loading := False, app_hosts := map to_str hs, selectedHosts := new_set (map to_str hs),
      app_nodes := nds, app_edges := map decode_edge es\<rparr>"
  using assms
  by (cases "hs = []")
    (simp_all add: fetchData_def slice_json_def js_opt_prop_def obj_get_def as_array_def js_or_def Let_def)

lemma peermap_refused:
  "fst (fetchData redact sf (Inr (JObj [(''hosts'', h), (''nodes'', JNull), (''edges'', es)])) a) =
    a\<lparr>app_loading := False, app_error := Some (''Unexpected API response format. Received: '' @
      sf (JObj [(''hosts'', h), (''nodes'', JNull), (''edges'', es)]))\<rparr>"
  by (simp add: fetchData_def js_opt_prop_def obj_get_def Let_def)



end
