(* ===== verification/StreamServer.thy ===== *)
theory StreamServer
  imports StreamProperties ServerHandlers
begin

text \<open>
  The stream endpoint of the web UI server (\<open>RelativeWebsocket\<close> in
  \<open>api/webui/tsymbiotewebui/websocket.go\<close>): the set-up of a request, and the goroutines that relay
  the messages of several adapters to one page. A step is what a goroutine does between two points
  where it may block: a channel operation, a read, or the choice of a \<open>select\<close>. The adapters, the
  page and the deadlines are the environment, which chooses what a read or a write returns.
\<close>

section \<open>Messages\<close>

record WebsocketMessage =
  wm_type :: nat
  wm_message :: string

definition TextMessage :: nat where "TextMessage = 1"

text \<open>
  \<open>json.Marshal\<close> of a \<open>WebsocketHostMessage\<close>: a string is quoted, bytes are base64 text. The bytes of
  the characters beyond ASCII are copied; the two line separators Go escapes as well are left aside.
\<close>

definition hex_digit :: "nat \<Rightarrow> char" where
  "hex_digit n = ''0123456789abcdef'' ! n"

definition go_short :: "(char \<times> char) list" where
  "go_short =
     [(CHR 0x22, CHR 0x22), (CHR 0x5C, CHR 0x5C), (CHR 0x08, CHR ''b''), (CHR 0x0C, CHR ''f''),
      (CHR 0x0A, CHR ''n''), (CHR 0x0D, CHR ''r''), (CHR 0x09, CHR ''t'')]"

definition go_quote_char :: "char \<Rightarrow> string" where
  "go_quote_char c =
     (case map_of go_short c of
        Some k \<Rightarrow> [CHR 0x5C, k]
      | None \<Rightarrow>
          if code_of c < 0x20 \<or> c \<in> set ''<>&''
          then CHR 0x5C # ''u00'' @ [hex_digit (code_of c div 16), hex_digit (code_of c mod 16)]
          else [c])"

definition go_quote :: "string \<Rightarrow> string" where
  "go_quote s = CHR 0x22 # concat (map go_quote_char s) @ [CHR 0x22]"

definition marshal_host_message :: "string \<Rightarrow> string \<Rightarrow> string" where
  "marshal_host_message host message =
     ''{'' @ go_quote ''Host'' @ '':'' @ go_quote host @ '','' @ go_quote ''Message'' @ '':''
       @ go_quote (b64_encode message) @ ''}''"

definition host_message :: "string \<Rightarrow> nat \<Rightarrow> string \<Rightarrow> WebsocketMessage" where
  "host_message host ty message = \<lparr>wm_type = ty, wm_message = marshal_host_message host message\<rparr>"

definition closed_message :: "string \<Rightarrow> WebsocketMessage" where
  "closed_message adapter = host_message adapter TextMessage ''websocket closed''"

definition pong_message :: WebsocketMessage where
  "pong_message = \<lparr>wm_type = TextMessage, wm_message = ''pong''\<rparr>"

text \<open>The quoting is a prefix code, so a message tells its host and its bytes.\<close>

lemma hex_digit_inj: "a < 16 \<Longrightarrow> b < 16 \<Longrightarrow> hex_digit a = hex_digit b \<longleftrightarrow> a = b"
proof -
  have d: "distinct ''0123456789abcdef''" "length ''0123456789abcdef'' = 16" by code_simp+
  show "a < 16 \<Longrightarrow> b < 16 \<Longrightarrow> hex_digit a = hex_digit b \<longleftrightarrow> a = b"
    unfolding hex_digit_def using nth_eq_iff_index_eq [OF d(1)] d(2) by simp
qed

lemma go_short_keys: "map_of go_short c = Some k \<Longrightarrow> k \<noteq> CHR ''u''"
  "map_of go_short c = None \<Longrightarrow> c \<noteq> CHR 0x5C \<and> c \<noteq> CHR 0x22"
  by (auto simp: go_short_def split: if_splits)

lemma go_short_inj: "map_of go_short c = Some k \<Longrightarrow> map_of go_short d = Some k \<Longrightarrow> c = d"
proof -
  have "distinct (map snd go_short)" by code_simp
  moreover have "(c, k) \<in> set go_short" "(d, k) \<in> set go_short"
    if "map_of go_short c = Some k" "map_of go_short d = Some k" using that by (auto dest: map_of_SomeD)
  ultimately show "map_of go_short c = Some k \<Longrightarrow> map_of go_short d = Some k \<Longrightarrow> c = d"
    by (metis eq_key_imp_eq_value map_of_SomeD distinct_map inj_onD snd_conv prod.inject)
qed

lemma hex_code:
  assumes "hex_digit (code_of c div 16) = hex_digit (code_of d div 16)"
    "hex_digit (code_of c mod 16) = hex_digit (code_of d mod 16)"
  shows "c = d"
proof -
  have "code_of c div 16 < 16" "code_of d div 16 < 16" using code_of_bound [of c] code_of_bound [of d] by auto
  then have "code_of c div 16 = code_of d div 16" "code_of c mod 16 = code_of d mod 16"
    using assms hex_digit_inj by (blast, simp add: hex_digit_inj)
  then have "code_of c = code_of d" by (metis div_mult_mod_eq)
  then show ?thesis by (metis char_of_code_of)
qed

lemma go_quote_char_split:
  assumes "go_quote_char c @ x = go_quote_char d @ y" shows "c = d \<and> x = y"
  using assms go_short_keys [of c] go_short_keys [of d] go_short_inj [of c _ d] hex_code [of c d]
  by (cases "map_of go_short c"; cases "map_of go_short d") (auto simp: go_quote_char_def split: if_splits)

lemma go_quote_char_head: "\<exists>h q. go_quote_char c = h # q \<and> h \<noteq> CHR 0x22"
  using go_short_keys [of c] by (cases "map_of go_short c") (auto simp: go_quote_char_def)

lemma go_quote_split:
  assumes "go_quote s @ x = go_quote t @ y" shows "s = t \<and> x = y"
proof -
  have "concat (map go_quote_char s) @ CHR 0x22 # x = concat (map go_quote_char t) @ CHR 0x22 # y" 
    using assms by (simp add: go_quote_def)
  then show ?thesis
  proof (induction s arbitrary: t)
    case Nil 
    then show ?case 
    proof (cases t)
      case (Cons d t') with Nil show ?thesis using go_quote_char_head [of d] by auto
    qed simp
  next
    case (Cons c s)
    show ?case
    proof (cases t)
      case Nil then show ?thesis using Cons.prems go_quote_char_head [of c] by auto
    next
      case t: (Cons d t')
      have "go_quote_char c @ (concat (map go_quote_char s) @ CHR 0x22 # x) = go_quote_char d @ (concat (map go_quote_char t') @ CHR 0x22 # y)"
        using Cons.prems by (simp add: t)
      from go_quote_char_split [OF this] Cons.IH [of t'] t show ?thesis by simp
    qed
  qed
qed

lemma marshal_inj: "marshal_host_message h m = marshal_host_message g n \<longleftrightarrow> h = g \<and> m = n"
proof
  assume "marshal_host_message h m = marshal_host_message g n"
  then have "go_quote h @ ('','' @ go_quote ''Message'' @ '':'' @ go_quote (b64_encode m) @ ''}'')
      = go_quote g @ ('','' @ go_quote ''Message'' @ '':'' @ go_quote (b64_encode n) @ ''}'')"
    by (simp add: marshal_host_message_def)
  from go_quote_split [OF this] have 1: "h = g" "go_quote (b64_encode m) @ ''}'' = go_quote (b64_encode n) @ ''}''" by auto
  from go_quote_split [OF 1(2)] have "atob (b64_encode m) = atob (b64_encode n)" by simp
  with 1(1) show "h = g \<and> m = n" by (simp add: atob_encode)
qed simp
section \<open>The goroutines\<close>

text \<open>Where the goroutine that reads one adapter is.\<close>

datatype reader_phase =
    ReaderSelect
  | ReaderReading \<comment> \<open>in \<open>conn.ReadMessage()\<close>\<close>
  | ReaderSending WebsocketMessage \<comment> \<open>in \<open>ws <- \<dots>\<close>\<close>
  | ReaderDying \<comment> \<open>in \<open>dead <- target\<close>\<close>
  | ReaderDone \<comment> \<open>returned, its connection closed\<close>

record reader =
  rd_target :: string
  rd_phase :: reader_phase

datatype client_phase = ClientSelect | ClientReading | ClientSending | ClientDone

datatype writer_phase =
    WriterSelect
  | WriterReplying WebsocketMessage \<comment> \<open>in \<open>msg <- replyMessage\<close>\<close>
  | WriterDone

text \<open>
  The state the goroutines share. A background ping of an adapter is pending until its write
  returns, and then waits on \<open>dead\<close> when the write failed.
\<close>

record proxy =
  px_readers :: "reader list"
  px_client :: client_phase
  px_writer :: writer_phase
  px_pings :: "string list" \<comment> \<open>pings being written\<close>
  px_failed :: "string list" \<comment> \<open>pings in \<open>dead <- adapter\<close>\<close>
  px_msg :: "WebsocketMessage list" \<comment> \<open>the channel \<open>msg\<close>\<close>
  px_dead :: "string list" \<comment> \<open>the channel \<open>dead\<close>\<close>
  px_cap :: nat \<comment> \<open>the capacity of both\<close>
  livingAdapters :: "string list" \<comment> \<open>the keys of the map\<close>
  px_shutdown :: bool \<comment> \<open>the context of the websocket manager is done\<close>
  clientDeath :: bool \<comment> \<open>\<open>clientDeathCtx\<close> is done\<close>
  px_broken :: bool \<comment> \<open>a write to the page has failed, and so will all later ones\<close>
  px_sent :: "WebsocketMessage list" \<comment> \<open>written to the page\<close>
  px_closing :: "string list" \<comment> \<open>adapters that were sent a close frame\<close>
  px_goodbye :: bool \<comment> \<open>a close frame to the page was tried\<close>

definition proxy_init :: "string list \<Rightarrow> proxy" where
  "proxy_init targets =
     \<lparr>px_readers = map (\<lambda>t. \<lparr>rd_target = t, rd_phase = ReaderSelect\<rparr>) targets,
      px_client = ClientSelect, px_writer = WriterSelect, px_pings = [], px_failed = [], px_msg = [],
      px_dead = [], px_cap = length targets, livingAdapters = remdups targets, px_shutdown = False,
      clientDeath = False, px_broken = False, px_sent = [], px_closing = [], px_goodbye = False\<rparr>"

definition phase_of :: "proxy \<Rightarrow> nat \<Rightarrow> reader_phase" where
  "phase_of p i = (if i < length (px_readers p) then rd_phase (px_readers p ! i) else ReaderDone)"

definition target_of :: "proxy \<Rightarrow> nat \<Rightarrow> string" where
  "target_of p i = rd_target (px_readers p ! i)"

definition set_phase :: "nat \<Rightarrow> reader_phase \<Rightarrow> proxy \<Rightarrow> proxy" where
  "set_phase i ph p = p\<lparr>px_readers := (px_readers p)[i := (px_readers p ! i)\<lparr>rd_phase := ph\<rparr>]\<rparr>"

text \<open>The end of the writer's loop body: without adapters the page is sent a close frame.\<close>

definition writer_check :: "proxy \<Rightarrow> proxy" where
  "writer_check p =
     (if livingAdapters p = [] then p\<lparr>px_goodbye := True, px_writer := WriterDone\<rparr>
      else p\<lparr>px_writer := WriterSelect\<rparr>)"

definition is_sending :: "reader_phase \<Rightarrow> bool" where
  "is_sending ph = (case ph of ReaderSending m \<Rightarrow> True | _ \<Rightarrow> False)"

definition is_replying :: "writer_phase \<Rightarrow> bool" where
  "is_replying ph = (case ph of WriterReplying m \<Rightarrow> True | _ \<Rightarrow> False)"

lemma is_phase [simp]:
  "is_sending ph \<longleftrightarrow> (\<exists>m. ph = ReaderSending m)" "is_replying wr \<longleftrightarrow> (\<exists>m. wr = WriterReplying m)"
  by (simp_all add: is_sending_def is_replying_def split: reader_phase.splits writer_phase.splits)

datatype px_event =
    ReaderRun nat | ReaderGot nat nat string | ReaderErr nat | ReaderSent nat | ReaderDied nat
  | ClientRun | ClientGot nat string | ClientErr | ClientSent
  | WriterShutdown | WriterClientDeath | WriterTick | WriterDead | WriterReplied | WriterMsg bool
  | PingWritten string bool | PingDied string
  | Shutdown

fun px_enabled :: "px_event \<Rightarrow> proxy \<Rightarrow> bool" where
  "px_enabled (ReaderRun i) p = (phase_of p i = ReaderSelect)"
| "px_enabled (ReaderGot i _ _) p = (phase_of p i = ReaderReading)"
| "px_enabled (ReaderErr i) p = (phase_of p i = ReaderReading)"
| "px_enabled (ReaderSent i) p = (is_sending (phase_of p i) \<and> length (px_msg p) < px_cap p)"
| "px_enabled (ReaderDied i) p = (phase_of p i = ReaderDying \<and> length (px_dead p) < px_cap p)"
| "px_enabled ClientRun p = (px_client p = ClientSelect)"
| "px_enabled (ClientGot _ _) p = (px_client p = ClientReading)"
| "px_enabled ClientErr p = (px_client p = ClientReading)"
| "px_enabled ClientSent p = (px_client p = ClientSending \<and> length (px_msg p) < px_cap p)"
| "px_enabled WriterShutdown p = (px_writer p = WriterSelect \<and> px_shutdown p)"
| "px_enabled WriterClientDeath p = (px_writer p = WriterSelect \<and> clientDeath p)"
| "px_enabled WriterTick p = (px_writer p = WriterSelect)"
| "px_enabled WriterDead p = (px_writer p = WriterSelect \<and> px_dead p \<noteq> [])"
| "px_enabled WriterReplied p = (is_replying (px_writer p) \<and> length (px_msg p) < px_cap p)"
| "px_enabled (WriterMsg ok) p =
     (px_writer p = WriterSelect \<and> px_msg p \<noteq> [] \<and> (ok \<longrightarrow> \<not> px_broken p \<and> px_client p \<noteq> ClientDone))"
| "px_enabled (PingWritten a _) p = (a \<in> set (px_pings p))"
| "px_enabled (PingDied a) p = (a \<in> set (px_failed p) \<and> length (px_dead p) < px_cap p)"
| "px_enabled Shutdown p = (\<not> px_shutdown p)"

text \<open>The writer answers a text message \<open>ping\<close> itself.\<close>

definition written :: "WebsocketMessage \<Rightarrow> WebsocketMessage" where
  "written m =
     (if wm_type m = TextMessage \<and> wm_message m = ''ping'' then m\<lparr>wm_message := ''pong''\<rparr> else m)"

fun px_handle :: "px_event \<Rightarrow> proxy \<Rightarrow> proxy" where
  "px_handle (ReaderRun i) p = set_phase i (if px_shutdown p then ReaderDone else ReaderReading) p"
| "px_handle (ReaderGot i ty message) p =
     set_phase i (ReaderSending (host_message (target_of p i) ty message)) p"
| "px_handle (ReaderErr i) p = set_phase i ReaderDying p"
| "px_handle (ReaderSent i) p =
     (case phase_of p i of
        ReaderSending m \<Rightarrow> (set_phase i ReaderSelect p)\<lparr>px_msg := px_msg p @ [m]\<rparr>
      | _ \<Rightarrow> p)"
| "px_handle (ReaderDied i) p = (set_phase i ReaderDone p)\<lparr>px_dead := px_dead p @ [target_of p i]\<rparr>"
| "px_handle ClientRun p =
     p\<lparr>px_client := (if px_shutdown p \<or> clientDeath p then ClientDone else ClientReading)\<rparr>"
| "px_handle (ClientGot ty message) p =
     p\<lparr>px_client := (if ty = TextMessage \<and> message = ''ping'' then ClientSending else ClientSelect)\<rparr>"
| "px_handle ClientErr p = p\<lparr>clientDeath := True, px_client := ClientDone\<rparr>"
| "px_handle ClientSent p = p\<lparr>px_msg := px_msg p @ [pong_message], px_client := ClientSelect\<rparr>"
| "px_handle WriterShutdown p =
     p\<lparr>px_closing := px_closing p @ livingAdapters p, px_goodbye := True, px_writer := WriterDone\<rparr>"
| "px_handle WriterClientDeath p =
     p\<lparr>px_closing := px_closing p @ livingAdapters p, px_writer := WriterDone\<rparr>"
| "px_handle WriterTick p = writer_check (p\<lparr>px_pings := px_pings p @ livingAdapters p\<rparr>)"
| "px_handle WriterDead p =
     p\<lparr>px_dead := tl (px_dead p), livingAdapters := removeAll (hd (px_dead p)) (livingAdapters p),
       px_writer := WriterReplying (closed_message (hd (px_dead p)))\<rparr>"
| "px_handle WriterReplied p =
     (case px_writer p of
        WriterReplying m \<Rightarrow> writer_check (p\<lparr>px_msg := px_msg p @ [m]\<rparr>)
      | _ \<Rightarrow> p)"
| "px_handle (WriterMsg ok) p =
     (if ok then writer_check (p\<lparr>px_msg := tl (px_msg p), px_sent := px_sent p @ [written (hd (px_msg p))]\<rparr>)
      else p\<lparr>px_msg := tl (px_msg p), px_broken := True, clientDeath := True\<rparr>)"
| "px_handle (PingWritten a ok) p =
     (if ok then p\<lparr>px_pings := remove1 a (px_pings p)\<rparr>
      else p\<lparr>px_pings := remove1 a (px_pings p), px_closing := px_closing p @ [a],
             px_failed := px_failed p @ [a]\<rparr>)"
| "px_handle (PingDied a) p = p\<lparr>px_failed := remove1 a (px_failed p), px_dead := px_dead p @ [a]\<rparr>"
| "px_handle Shutdown p = p\<lparr>px_shutdown := True\<rparr>"

inductive px_step :: "proxy \<Rightarrow> px_event \<Rightarrow> proxy \<Rightarrow> bool" where
  px_step: "px_enabled e p \<Longrightarrow> px_step p e (px_handle e p)"

inductive_cases px_stepE: "px_step p e p'"
inductive_simps px_step_iff: "px_step p e p'"

text \<open>Executing a list of events.\<close>

definition px_exec :: "px_event list \<Rightarrow> proxy \<Rightarrow> proxy" where
  "px_exec es p = foldl (\<lambda>q e. px_handle e q) p es"

fun px_all_enabled :: "px_event list \<Rightarrow> proxy \<Rightarrow> bool" where
  "px_all_enabled [] p = True"
| "px_all_enabled (e # es) p = (px_enabled e p \<and> px_all_enabled es (px_handle e p))"

lemma run_px_exec: "px_all_enabled es p \<Longrightarrow> run px_step p es (px_exec es p)"
  by (induction es arbitrary: p) (auto simp: px_exec_def intro: run.intros px_step)

section \<open>The set-up\<close>

text \<open>
  How a request ends its handler: the page is closed without a word or with a close frame, or the
  handler returns and leaves the page and the adapters it has dialled open, or the goroutines start.
\<close>

datatype ws_setup =
    ClosedSilently
  | ClosedNormally
  | Abandoned "string list" \<comment> \<open>the targets whose connections stay open\<close>
  | Relaying proxy

text \<open>
  \<open>dial\<close> says which adapter and path can be connected to. Splitting gives at least one target
  (\<open>js_split_nonempty\<close>), so the source's branch for zero targets is not reached.
\<close>

fun dial_targets ::
    "known \<Rightarrow> (string \<Rightarrow> string \<Rightarrow> bool) \<Rightarrow> string \<Rightarrow> string list \<Rightarrow> string list \<Rightarrow> string list + string list" where
  "dial_targets k dial path [] conns = Inr conns"
| "dial_targets k dial path (target # targets) conns =
     (case GetAdapter target k of
        None \<Rightarrow> Inl conns
      | Some adapterHost \<Rightarrow>
          if adapterHost = [] then Inl conns
          else if \<not> dial (adapterHost @ '':3621'') path then Inl conns
          else dial_targets k dial path targets (conns @ [target]))"

definition RelativeWebsocket ::
    "known \<Rightarrow> (string \<Rightarrow> string \<Rightarrow> bool) \<Rightarrow> string \<Rightarrow> string \<Rightarrow> ws_setup" where
  "RelativeWebsocket k dial url_path rawTargets =
     (let targetPath = find_targetPath url_path in
      if targetPath = [] then ClosedSilently
      else if rawTargets = [] then ClosedNormally
      else
        let targets = js_split (CHR '','') rawTargets in
        case dial_targets k dial targetPath targets [] of
          Inl conns \<Rightarrow> Abandoned conns
        | Inr conns \<Rightarrow> Relaying (proxy_init targets))"

section \<open>What the goroutines keep\<close>

definition relayed :: "string list \<Rightarrow> WebsocketMessage \<Rightarrow> bool" where
  "relayed targets m \<longleftrightarrow> m = pong_message \<or> (\<exists>t \<in> set targets. \<exists>ty s. m = host_message t ty s)"

definition sending :: "proxy \<Rightarrow> nat \<Rightarrow> WebsocketMessage list" where
  "sending p i = (case phase_of p i of ReaderSending m \<Rightarrow> [m] | _ \<Rightarrow> [])"

definition replying :: "proxy \<Rightarrow> WebsocketMessage list" where
  "replying p = (case px_writer p of WriterReplying m \<Rightarrow> [m] | _ \<Rightarrow> [])"

definition px_wf :: "string list \<Rightarrow> proxy \<Rightarrow> bool" where
  "px_wf targets p \<longleftrightarrow>
     map rd_target (px_readers p) = targets
     \<and> (\<forall>m \<in> set (px_sent p @ px_msg p). relayed targets m)
     \<and> (\<forall>i m. m \<in> set (sending p i) \<longrightarrow> (\<exists>ty s. m = host_message (target_of p i) ty s))
     \<and> (\<forall>m \<in> set (replying p). \<exists>a \<in> set targets. m = closed_message a)
     \<and> set (px_dead p @ px_pings p @ px_failed p @ livingAdapters p) \<subseteq> set targets
     \<and> px_cap p = length targets \<and> length (px_msg p) \<le> px_cap p \<and> length (px_dead p) \<le> px_cap p"

lemma marshal_not_ping: "marshal_host_message h m \<noteq> ''ping''" "marshal_host_message h m \<noteq> ''pong''"
  by (simp_all add: marshal_host_message_def)

lemma written_relayed: "relayed targets m \<Longrightarrow> written m = m"
  by (auto simp: relayed_def written_def host_message_def pong_message_def marshal_not_ping)

lemma set_phase_simps [simp]:
  "px_client (set_phase i ph p) = px_client p" "px_writer (set_phase i ph p) = px_writer p"
  "px_pings (set_phase i ph p) = px_pings p" "px_failed (set_phase i ph p) = px_failed p"
  "px_msg (set_phase i ph p) = px_msg p" "px_dead (set_phase i ph p) = px_dead p"
  "px_cap (set_phase i ph p) = px_cap p" "livingAdapters (set_phase i ph p) = livingAdapters p"
  "px_shutdown (set_phase i ph p) = px_shutdown p" "clientDeath (set_phase i ph p) = clientDeath p"
  "px_broken (set_phase i ph p) = px_broken p" "px_sent (set_phase i ph p) = px_sent p"
  "px_closing (set_phase i ph p) = px_closing p" "px_goodbye (set_phase i ph p) = px_goodbye p"
  "length (px_readers (set_phase i ph p)) = length (px_readers p)"
  by (simp_all add: set_phase_def)

lemma set_phase_target [simp]: "map rd_target (px_readers (set_phase i ph p)) = map rd_target (px_readers p)"
  by (cases "i < length (px_readers p)")
    (auto simp: set_phase_def list_update_beyond nth_list_update intro: nth_equalityI)

lemma phase_set_phase:
  "phase_of (set_phase i ph p) j = (if j = i \<and> i < length (px_readers p) then ph else phase_of p j)"
  by (simp add: phase_of_def set_phase_def nth_list_update)


lemma target_set_phase [simp]: "target_of (set_phase i ph p) j = target_of p j"
  by (cases "i < length (px_readers p)")
    (auto simp: target_of_def set_phase_def list_update_beyond nth_list_update)

lemma phase_lt: "phase_of p i \<noteq> ReaderDone \<Longrightarrow> i < length (px_readers p)"
  by (auto simp: phase_of_def split: if_splits)

lemma target_in: "map rd_target (px_readers p) = targets \<Longrightarrow> i < length (px_readers p) \<Longrightarrow> target_of p i = targets ! i"
  by (auto simp: target_of_def)

lemma phase_frame:
  "px_readers q = px_readers p \<Longrightarrow> phase_of q i = phase_of p i"
  "px_readers q = px_readers p \<Longrightarrow> target_of q i = target_of p i"
  by (simp_all add: phase_of_def target_of_def)

text \<open>Steps other than a reader's leave the readers alone.\<close>

lemma writer_check_simps [simp]:
  "px_readers (writer_check p) = px_readers p" "px_msg (writer_check p) = px_msg p"
  "px_dead (writer_check p) = px_dead p" "px_sent (writer_check p) = px_sent p"
  "px_cap (writer_check p) = px_cap p" "livingAdapters (writer_check p) = livingAdapters p"
  "px_pings (writer_check p) = px_pings p" "px_failed (writer_check p) = px_failed p"
  "px_broken (writer_check p) = px_broken p" "px_client (writer_check p) = px_client p"
  "replying (writer_check p) = []"
  by (simp_all add: writer_check_def replying_def)

lemma sending_set_phase:
  "sending (set_phase i ph p) j =
     (if j = i \<and> i < length (px_readers p) then (case ph of ReaderSending m \<Rightarrow> [m] | _ \<Rightarrow> []) else sending p j)"
  by (simp add: sending_def phase_set_phase)

lemma sending_in: "m \<in> set (sending p i) \<Longrightarrow> phase_of p i = ReaderSending m"
  by (auto simp: sending_def split: reader_phase.splits)

lemmas reader_free = sending_def phase_of_def target_of_def

text \<open>What the fields of the others do not touch.\<close>

lemma frame_simps [simp]:
  "sending (px_client_update f0 p) i = sending p i" "phase_of (px_client_update f0 p) i = phase_of p i"
  "target_of (px_client_update f0 p) i = target_of p i" "replying (px_client_update f0 p) = replying p"
  "sending (px_writer_update f1 p) i = sending p i" "phase_of (px_writer_update f1 p) i = phase_of p i"
  "target_of (px_writer_update f1 p) i = target_of p i"
  "sending (px_pings_update f2 p) i = sending p i" "phase_of (px_pings_update f2 p) i = phase_of p i"
  "target_of (px_pings_update f2 p) i = target_of p i" "replying (px_pings_update f2 p) = replying p"
  "sending (px_failed_update f3 p) i = sending p i" "phase_of (px_failed_update f3 p) i = phase_of p i"
  "target_of (px_failed_update f3 p) i = target_of p i" "replying (px_failed_update f3 p) = replying p"
  "sending (px_msg_update f4 p) i = sending p i" "phase_of (px_msg_update f4 p) i = phase_of p i"
  "target_of (px_msg_update f4 p) i = target_of p i" "replying (px_msg_update f4 p) = replying p"
  "sending (px_dead_update f5 p) i = sending p i" "phase_of (px_dead_update f5 p) i = phase_of p i"
  "target_of (px_dead_update f5 p) i = target_of p i" "replying (px_dead_update f5 p) = replying p"
  "sending (livingAdapters_update f6 p) i = sending p i" "phase_of (livingAdapters_update f6 p) i = phase_of p i"
  "target_of (livingAdapters_update f6 p) i = target_of p i" "replying (livingAdapters_update f6 p) = replying p"
  "sending (px_shutdown_update f7 p) i = sending p i" "phase_of (px_shutdown_update f7 p) i = phase_of p i"
  "target_of (px_shutdown_update f7 p) i = target_of p i" "replying (px_shutdown_update f7 p) = replying p"
  "sending (clientDeath_update f8 p) i = sending p i" "phase_of (clientDeath_update f8 p) i = phase_of p i"
  "target_of (clientDeath_update f8 p) i = target_of p i" "replying (clientDeath_update f8 p) = replying p"
  "sending (px_broken_update f9 p) i = sending p i" "phase_of (px_broken_update f9 p) i = phase_of p i"
  "target_of (px_broken_update f9 p) i = target_of p i" "replying (px_broken_update f9 p) = replying p"
  "sending (px_sent_update f10 p) i = sending p i" "phase_of (px_sent_update f10 p) i = phase_of p i"
  "target_of (px_sent_update f10 p) i = target_of p i" "replying (px_sent_update f10 p) = replying p"
  "sending (px_closing_update f11 p) i = sending p i" "phase_of (px_closing_update f11 p) i = phase_of p i"
  "target_of (px_closing_update f11 p) i = target_of p i" "replying (px_closing_update f11 p) = replying p"
  "sending (px_goodbye_update f12 p) i = sending p i" "phase_of (px_goodbye_update f12 p) i = phase_of p i"
  "target_of (px_goodbye_update f12 p) i = target_of p i" "replying (px_goodbye_update f12 p) = replying p"
  "sending (writer_check p) i = sending p i" "phase_of (writer_check p) i = phase_of p i"
  "target_of (writer_check p) i = target_of p i" "replying (set_phase i ph p) = replying p"
  by (simp_all add: reader_free replying_def writer_check_def)

lemma px_wf_init: "px_wf targets (proxy_init targets)"
  by (auto simp: px_wf_def proxy_init_def sending_def phase_of_def replying_def comp_def)

lemma wf_target: "px_wf targets p \<Longrightarrow> phase_of p i \<noteq> ReaderDone \<Longrightarrow> target_of p i \<in> set targets"
  using phase_lt [of p i] by (auto simp: px_wf_def target_of_def)

lemma wf_sendingD:
  "px_wf targets p \<Longrightarrow> phase_of p i = ReaderSending m \<Longrightarrow> \<exists>ty s. m = host_message (target_of p i) ty s"
  unfolding px_wf_def by (simp add: sending_def)

lemma wf_sending: "px_wf targets p \<Longrightarrow> phase_of p i = ReaderSending m \<Longrightarrow> relayed targets m"
  using wf_target [of targets p i] wf_sendingD [of targets p i m] by (auto simp: relayed_def)

lemma px_wf_reader:
  assumes "px_wf targets p" "px_enabled e p" "e = ReaderRun i \<or> e = ReaderGot i ty m \<or> e = ReaderErr i \<or> e = ReaderSent i \<or> e = ReaderDied i"
  shows "px_wf targets (px_handle e p)"
proof -
  note sent = wf_sending [OF assms(1), of i] and target = wf_target [OF assms(1), of i]
  have keep: "px_wf targets (set_phase i ph p)" if "\<forall>m. ph \<noteq> ReaderSending m" for ph
    using assms(1) that by (auto simp: px_wf_def sending_set_phase replying_def split: if_splits reader_phase.splits)
  show ?thesis
    using assms(3)
  proof (elim disjE)
    assume e: "e = ReaderGot i ty m"
    then show ?thesis
      using assms(1) by (auto simp: px_wf_def sending_set_phase replying_def split: if_splits)
  next
    assume e: "e = ReaderSent i"
    then obtain m where m: "phase_of p i = ReaderSending m" "length (px_msg p) < px_cap p" using assms(2) by auto
    have "px_wf targets (set_phase i ReaderSelect p)" by (rule keep) simp
    with m sent [OF m(1)] e show ?thesis by (auto simp: px_wf_def replying_def reader_free)
  next
    assume e: "e = ReaderDied i"
    have "px_wf targets (set_phase i ReaderDone p)" by (rule keep) simp
    with e assms(2) target show ?thesis by (auto simp: px_wf_def replying_def reader_free)
  qed (use keep in auto)
qed

lemma px_wf_step: "px_wf targets p \<Longrightarrow> px_step p e q \<Longrightarrow> px_wf targets q"
proof (erule px_stepE)
  assume wf: "px_wf targets p" and on: "px_enabled e p" and q: "q = px_handle e p"
  have "px_wf targets (px_handle e p)"
  proof (cases e)
    case (WriterMsg ok)
    then have m: "px_msg p \<noteq> []" "relayed targets (hd (px_msg p))" using on wf by (auto simp: px_wf_def)
    then have "set (tl (px_msg p)) \<subseteq> set (px_msg p)" by (cases "px_msg p") auto
    with WriterMsg wf m written_relayed [OF m(2)] show ?thesis
      by (auto simp: px_wf_def reader_free writer_check_def replying_def)
  next
    case WriterDead
    then have "px_dead p \<noteq> []" using on by simp
    then obtain a d where d: "px_dead p = a # d" by (cases "px_dead p") auto
    with WriterDead wf show ?thesis by (auto simp: px_wf_def reader_free replying_def)
  next
    case WriterReplied
    then obtain m where m: "px_writer p = WriterReplying m" using on by auto
    then obtain a where "a \<in> set targets" "m = closed_message a" using wf by (auto simp: px_wf_def replying_def)
    then have "relayed targets m" by (auto simp: relayed_def closed_message_def)
    with WriterReplied wf on m show ?thesis by (auto simp: px_wf_def reader_free writer_check_def replying_def)
  next
    case (PingWritten a ok)
    have "set (remove1 a (px_pings p)) \<subseteq> set (px_pings p)" by (rule set_remove1_subset)
    with PingWritten wf on show ?thesis by (auto simp: px_wf_def reader_free replying_def)
  next
    case (PingDied a)
    have "set (remove1 a (px_failed p)) \<subseteq> set (px_failed p)" by (rule set_remove1_subset)
    with PingDied wf on show ?thesis by (auto simp: px_wf_def reader_free replying_def)
  next
    case ClientSent
    with wf on show ?thesis by (auto simp: px_wf_def reader_free replying_def relayed_def)
  qed (use wf on px_wf_reader [OF wf on] in \<open>auto simp: px_wf_def reader_free writer_check_def replying_def\<close>)
  then show ?thesis by (simp add: q)
qed

interpretation px: step_invariant px_step "\<lambda>p. p = proxy_init targets" "px_wf targets" for targets
  by unfold_locales (auto intro: px_wf_init px_wf_step)

end
