(* ===== verification/RelayProperties.thy ===== *)
theory RelayProperties
  imports StreamServer
begin

text \<open>
  What the page is relayed of the streams of its adapters: the order and the completeness of the
  messages of one adapter, the closing notes, and the ways in which the relay gets stuck.
\<close>

section \<open>The order of the messages of one adapter\<close>

definition from_target :: "string \<Rightarrow> WebsocketMessage \<Rightarrow> bool" where
  "from_target t m \<longleftrightarrow> (\<exists>ty s. m = host_message t ty s)"

lemma from_target_simps [simp]:
  "from_target t (host_message g ty s) \<longleftrightarrow> t = g" "from_target t (closed_message g) \<longleftrightarrow> t = g"
  "\<not> from_target t pong_message"
  by (auto simp: from_target_def host_message_def closed_message_def pong_message_def marshal_inj
      marshal_not_ping marshal_not_ping [symmetric])

fun read_by :: "nat \<Rightarrow> px_event \<Rightarrow> (nat \<times> string) list" where
  "read_by i (ReaderGot j ty message) = (if j = i then [(ty, message)] else [])"
| "read_by i e = []"

text \<open>The messages a reader has read in a run.\<close>

definition reads :: "nat \<Rightarrow> px_event list \<Rightarrow> (nat \<times> string) list" where
  "reads i es = concat (map (read_by i) es)"

lemma reads_simps [simp]: "reads i [] = []" "reads i (es @ [e]) = reads i es @ read_by i e"
  by (simp_all add: reads_def)

definition relayed_reads :: "string \<Rightarrow> (nat \<times> string) list \<Rightarrow> WebsocketMessage list" where
  "relayed_reads t rs = map (\<lambda>(ty, message). host_message t ty message) rs"

lemma relayed_reads_simps [simp]:
  "relayed_reads t [] = []" "relayed_reads t (rs @ [(ty, m)]) = relayed_reads t rs @ [host_message t ty m]"
  "length (relayed_reads t rs) = length rs"
  by (simp_all add: relayed_reads_def)

text \<open>
  All that concerns an adapter is in one line: what was written, lost or queued, what its reader is
  sending, the closing note on its way and the deaths not yet seen, in this order, are its messages
  as read and at most one note.
\<close>

definition in_line :: "nat \<Rightarrow> string \<Rightarrow> WebsocketMessage list \<Rightarrow> proxy \<Rightarrow> WebsocketMessage list" where
  "in_line i t lost p =
     filter (from_target t) (px_sent p @ lost @ px_msg p) @ sending p i
     @ filter (from_target t) (replying p) @ map closed_message (filter ((=) t) (px_dead p))"

definition order_inv :: "nat \<Rightarrow> string \<Rightarrow> px_event list \<Rightarrow> proxy \<Rightarrow> bool" where
  "order_inv i t es p \<longleftrightarrow>
     (\<exists>lost d. (lost = [] \<or> px_broken p)
        \<and> in_line i t lost p = relayed_reads t (reads i es) @ replicate d (closed_message t) \<and> d \<le> 1
        \<and> (phase_of p i \<noteq> ReaderDone \<longrightarrow>
              d = 0 \<and> filter (from_target t) (replying p) = [] \<and> t \<notin> set (px_dead p))
        \<and> t \<notin> set (px_failed p))"

lemma order_init: "i < length targets \<Longrightarrow> order_inv i (targets ! i) [] (proxy_init targets)"
  by (simp add: order_inv_def in_line_def proxy_init_def sending_def phase_of_def replying_def)

lemma order_reader:
  assumes wf: "px_wf targets p" and i: "i < length targets" and inv: "order_inv i (targets ! i) es p"
    and on: "px_enabled e p"
    and e: "e = ReaderRun i \<or> (\<exists>ty m. e = ReaderGot i ty m) \<or> e = ReaderErr i \<or> e = ReaderSent i \<or> e = ReaderDied i"
  shows "order_inv i (targets ! i) (es @ [e]) (px_handle e p)"
proof -
  let ?t = "targets ! i"
  obtain lost d where o: "lost = [] \<or> px_broken p"
      "in_line i ?t lost p = relayed_reads ?t (reads i es) @ replicate d (closed_message ?t)" "d \<le> 1"
      "phase_of p i \<noteq> ReaderDone \<Longrightarrow> d = 0 \<and> filter (from_target ?t) (replying p) = [] \<and> ?t \<notin> set (px_dead p)"
      "?t \<notin> set (px_failed p)"
    using inv unfolding order_inv_def by blast
  have n: "i < length (px_readers p)" "target_of p i = ?t"
    using wf i by (auto simp: px_wf_def target_of_def)
  have live: "phase_of p i \<noteq> ReaderDone" using on e by auto
  note o4 = o(4) [OF live]
  then have dead: "filter ((=) ?t) (px_dead p) = []" by (auto simp: filter_empty_conv)
  have line: "filter (from_target ?t) (px_sent p @ lost @ px_msg p) @ sending p i = relayed_reads ?t (reads i es)"
    using o(2) o4 dead by (simp add: in_line_def)
  consider "e = ReaderRun i \<or> e = ReaderErr i" | ty m where "e = ReaderGot i ty m" | "e = ReaderSent i" | "e = ReaderDied i"
    using e by blast
  then show ?thesis
  proof cases
    case 1
    then have "sending p i = []" using on by (auto simp: sending_def)
    with 1 show ?thesis using o(1,5) o4 line n dead
      by (auto simp: order_inv_def in_line_def sending_set_phase phase_set_phase
          intro!: exI [of _ lost] exI [of _ "0::nat"])
  next
    case (2 ty m)
    then have "sending p i = []" using on by (auto simp: sending_def)
    with 2 show ?thesis using o(1,5) o4 line n dead
      by (auto simp: order_inv_def in_line_def sending_set_phase phase_set_phase
          intro!: exI [of _ lost] exI [of _ "0::nat"])
  next
    case 3
    then obtain m where m: "phase_of p i = ReaderSending m" using on by auto
    then have "sending p i = [m]" "from_target ?t m"
      using wf_sendingD [OF wf m] n by (auto simp: sending_def)
    with 3 m show ?thesis using o(1,5) o4 line n dead
      by (auto simp: order_inv_def in_line_def sending_set_phase phase_set_phase
          intro!: exI [of _ lost] exI [of _ "0::nat"])
  next
    case 4
    then have "sending p i = []" using on by (auto simp: sending_def)
    with 4 show ?thesis using o(1,5) o4 line n dead
      by (auto simp: order_inv_def in_line_def sending_set_phase phase_set_phase
          intro!: exI [of _ lost] exI [of _ "1::nat"])
  qed
qed

lemma order_other_reader:
  assumes wf: "px_wf targets p" and d: "distinct targets" and i: "i < length targets"
    and inv: "order_inv i (targets ! i) es p" and on: "px_enabled e p" and j: "j \<noteq> i"
    and e: "e = ReaderRun j \<or> (\<exists>ty m. e = ReaderGot j ty m) \<or> e = ReaderErr j \<or> e = ReaderSent j \<or> e = ReaderDied j"
  shows "order_inv i (targets ! i) (es @ [e]) (px_handle e p)"
proof -
  let ?t = "targets ! i"
  have "j < length targets" "target_of p j = targets ! j"
    using on e wf phase_lt [of p j] by (auto simp: px_wf_def target_of_def)
  then have t: "target_of p j \<noteq> ?t" using d i j by (simp add: nth_eq_iff_index_eq)
  have reads: "read_by i e = []" using e j by auto
  have keep: "order_inv i ?t (es @ [e]) (set_phase j ph p)" for ph
    using inv j reads by (simp add: order_inv_def in_line_def sending_set_phase phase_set_phase)
  show ?thesis
  proof (cases "e = ReaderSent j")
    case True
    then obtain m where m: "phase_of p j = ReaderSending m" using on by auto
    then have "\<not> from_target ?t m" using wf_sendingD [OF wf m] t by auto
    with True m keep [of ReaderSelect] show ?thesis by (simp add: order_inv_def in_line_def)
  next
    case False
    with e keep t show ?thesis by (auto simp: order_inv_def in_line_def)
  qed
qed

text \<open>The steps of the others.\<close>

lemma order_step:
  assumes wf: "px_wf targets p" and d: "distinct targets" and i: "i < length targets"
    and inv: "order_inv i (targets ! i) es p" and on: "px_enabled e p"
    and ping: "e \<noteq> PingWritten (targets ! i) False"
  shows "order_inv i (targets ! i) (es @ [e]) (px_handle e p)"
proof (cases "\<exists>j ty m. e = ReaderRun j \<or> e = ReaderGot j ty m \<or> e = ReaderErr j \<or> e = ReaderSent j \<or> e = ReaderDied j")
  case True
  then obtain j where e: "e = ReaderRun j \<or> (\<exists>ty m. e = ReaderGot j ty m) \<or> e = ReaderErr j \<or> e = ReaderSent j \<or> e = ReaderDied j"
    by blast
  show ?thesis
    by (cases "j = i") (use order_reader [OF wf i inv on] order_other_reader [OF wf d i inv on _ e] e in auto)
next
  case False
  let ?t = "targets ! i"
  obtain lost d where o: "lost = [] \<or> px_broken p"
      "in_line i ?t lost p = relayed_reads ?t (reads i es) @ replicate d (closed_message ?t)" "d \<le> 1"
      "phase_of p i \<noteq> ReaderDone \<Longrightarrow> d = 0 \<and> filter (from_target ?t) (replying p) = [] \<and> ?t \<notin> set (px_dead p)"
      "?t \<notin> set (px_failed p)"
    using inv unfolding order_inv_def by blast
  have none: "read_by i e = []" using False by (cases e) auto
  have same: "order_inv i ?t (es @ [e]) q"
    if "px_sent q = px_sent p" "px_msg q = px_msg p" "px_dead q = px_dead p" "px_broken q = px_broken p"
      "replying q = replying p" "px_readers q = px_readers p" "?t \<notin> set (px_failed q)" for q
    using o that none phase_frame [of q p] unfolding order_inv_def
    by (intro exI [of _ lost] exI [of _ d]) (simp add: in_line_def sending_def)
  have idle: "replying p = []" if "px_writer p = WriterSelect" using that by (simp add: replying_def)
  show ?thesis
  proof (cases e)
    case ClientSent
    with o none show ?thesis unfolding order_inv_def
      by (intro exI [of _ lost] exI [of _ d]) (simp add: in_line_def)
  next
    case WriterDead
    then obtain a ds where a: "px_dead p = a # ds" using on by (cases "px_dead p") auto
    have w: "replying p = []" using WriterDead on idle by simp
    have r: "replying (px_handle e p) = [closed_message a]" by (simp add: WriterDead a replying_def)
    have q: "px_dead (px_handle e p) = ds" "px_sent (px_handle e p) = px_sent p" "px_msg (px_handle e p) = px_msg p"
        "px_broken (px_handle e p) = px_broken p" "px_failed (px_handle e p) = px_failed p"
        "phase_of (px_handle e p) i = phase_of p i" "sending (px_handle e p) i = sending p i"
      by (simp_all add: WriterDead a)
    show ?thesis using o none w a unfolding order_inv_def
      by (intro exI [of _ lost] exI [of _ d]) (auto simp: in_line_def r q)
  next
    case WriterReplied
    then obtain m where m: "px_writer p = WriterReplying m" using on by auto
    then have w: "replying p = [m]" by (simp add: replying_def)
    have "sending p i = []" if "from_target ?t m"
      using o(4) that w by (cases "phase_of p i") (auto simp: sending_def)
    then show ?thesis using o none w WriterReplied m unfolding order_inv_def
      by (intro exI [of _ lost] exI [of _ d]) (auto simp: in_line_def)
  next
    case (WriterMsg ok)
    then obtain m ms where m: "px_msg p = m # ms" using on by (cases "px_msg p") auto
    have w: "replying p = []" using WriterMsg on idle by simp
    have wm: "written m = m" using wf m by (intro written_relayed [of targets]) (simp add: px_wf_def)
    show ?thesis
    proof (cases ok)
      case True
      then have "lost = []" using o(1) WriterMsg on by auto
      with True o none w wm WriterMsg m show ?thesis unfolding order_inv_def
        by (intro exI [of _ "[]"] exI [of _ d]) (auto simp: in_line_def)
    next
      case False
      with o none w WriterMsg m show ?thesis unfolding order_inv_def
        by (intro exI [of _ "lost @ [m]"] exI [of _ d]) (auto simp: in_line_def)
    qed
  next
    case (PingWritten a ok)
    with ping o(5) show ?thesis by (intro same) auto
  next
    case (PingDied a)
    then have "a \<noteq> ?t" using on o(5) by auto
    with PingDied o none show ?thesis unfolding order_inv_def
      by (intro exI [of _ lost] exI [of _ d]) (auto simp: in_line_def dest: notin_set_remove1)
  qed (rule same; use False on idle o(5) in \<open>auto simp: replying_def writer_check_def split: if_splits\<close>)+
qed

text \<open>A relation between the events of a run and its last state.\<close>

lemma run_log:
  assumes "run step s es t" "K h s" "\<And>h s e t. K h s \<Longrightarrow> step s e t \<Longrightarrow> e \<in> set es \<Longrightarrow> K (h @ [e]) t"
  shows "K (h @ es) t"
  using assms
proof (induction arbitrary: h rule: run.induct)
  case (run_cons s e t es u)
  from run_cons.prems(2) [OF run_cons.prems(1) run_cons.hyps(1)] have "K (h @ [e]) t" by simp
  with run_cons.IH [of "h @ [e]"] run_cons.prems(2) show ?case by simp
qed simp

lemma order_run:
  assumes "run px_step (proxy_init targets) es p" "distinct targets" "i < length targets"
    "PingWritten (targets ! i) False \<notin> set es"
  shows "order_inv i (targets ! i) es p"
proof -
  have "px_wf targets p \<and> order_inv i (targets ! i) ([] @ es) p"
  proof (rule run_log [OF assms(1), where K = "\<lambda>es p. px_wf targets p \<and> order_inv i (targets ! i) es p"])
    show "px_wf targets (proxy_init targets) \<and> order_inv i (targets ! i) [] (proxy_init targets)"
      using px_wf_init order_init [OF assms(3)] by blast
  next
    fix h s e q
    assume s: "px_wf targets s \<and> order_inv i (targets ! i) h s" and "px_step s e q" and e: "e \<in> set es"
    then have q: "px_enabled e s" "q = px_handle e s" by (auto elim: px_stepE)
    have "e \<noteq> PingWritten (targets ! i) False" using e assms(4) by auto
    with order_step [OF _ assms(2,3), of s h e] s q px_wf_step [of targets s e q] \<open>px_step s e q\<close>
    show "px_wf targets q \<and> order_inv i (targets ! i) (h @ [e]) q" by blast
  qed
  then show ?thesis by simp
qed

lemma host_in_order:
  assumes "run px_step (proxy_init targets) es p" "distinct targets" "i < length targets"
    "PingWritten (targets ! i) False \<notin> set es"
  shows "\<exists>k. filter (from_target (targets ! i)) (px_sent p) =
    take k (relayed_reads (targets ! i) (reads i es @ [(TextMessage, ''websocket closed'')]))"
proof -
  let ?t = "targets ! i"
  obtain lost d where o: "in_line i ?t lost p = relayed_reads ?t (reads i es) @ replicate d (closed_message ?t)" "d \<le> 1"
    using order_run [OF assms] unfolding order_inv_def by blast
  let ?all = "relayed_reads ?t (reads i es @ [(TextMessage, ''websocket closed'')])"
  have "relayed_reads ?t (reads i es) @ replicate d (closed_message ?t) = take (length (reads i es) + d) ?all"
    using o(2) by (cases d) (simp_all add: closed_message_def)
  with o(1) have "in_line i ?t lost p = take (length (reads i es) + d) ?all" by (rule trans)
  moreover have "\<exists>ys. filter (from_target ?t) (px_sent p) @ ys = in_line i ?t lost p" by (simp add: in_line_def)
  ultimately obtain ys where ys: "filter (from_target ?t) (px_sent p) @ ys = take (length (reads i es) + d) ?all" by auto
  let ?f = "filter (from_target ?t) (px_sent p)"
  have "?f = take (length ?f) (?f @ ys)" by simp
  then have "?f = take (length ?f) (take (length (reads i es) + d) ?all)" unfolding ys .
  then have "?f = take (min (length ?f) (length (reads i es) + d)) ?all" unfolding take_take .
  then show ?thesis by (intro exI [of _ "min (length ?f) (length (reads i es) + d)"])
qed

section \<open>From the adapters to the text of a host\<close>

text \<open>A text frame arrives at the page as a string; a frame of another type is no string, and no JSON.\<close>

definition page_frames :: "WebsocketMessage list \<Rightarrow> string list" where
  "page_frames ms = map wm_message (filter (\<lambda>m. wm_type m = TextMessage) ms)"

text \<open>\<open>JSON.parse\<close> reads what \<open>json.Marshal\<close> writes for a target.\<close>

definition parses_messages :: "json_parser \<Rightarrow> string list \<Rightarrow> bool" where
  "parses_messages parse targets \<longleftrightarrow>
     (\<forall>h \<in> set targets. \<forall>m. parse (marshal_host_message h m) =
        Inr (JObj [(''Host'', JStr h), (''Message'', JStr (b64_encode m))]))"

text \<open>What the page is to show for a message of an adapter.\<close>

fun message_text :: "json_parser \<Rightarrow> time_format \<Rightarrow> stream_type \<Rightarrow> nat \<times> string \<Rightarrow> string" where
  "message_text parse fmt sty (ty, m) =
     (if ty \<noteq> TextMessage then []
      else if m = ''websocket closed'' then getDisconnectMessage sty
      else case getMessageFormatter parse fmt sty m of None \<Rightarrow> [] | Some line \<Rightarrow> line)"

lemma read_relayed:
  assumes "parses_messages parse targets" "h \<in> set targets"
  shows "frame_text t (read_frame parse fmt sty (marshal_host_message h m)) =
    (if t = h then message_text parse fmt sty (TextMessage, m) else [])"
  using assms
  by (simp add: read_frame_def marshal_not_ping parses_messages_def obj_get_def atob_encode split: option.splits)

lemma transcript_page:
  assumes "parses_messages parse targets" "\<forall>m \<in> set sent. relayed targets m" "t \<in> set targets"
    "filter (from_target t) sent = relayed_reads t rs"
  shows "concat (map (\<lambda>d. frame_text t (read_frame parse fmt sty d)) (page_frames sent)) =
    concat (map (message_text parse fmt sty) rs)"
  using assms(2,4)
proof (induction sent arbitrary: rs)
  case Nil
  then show ?case by (simp add: page_frames_def relayed_reads_def)
next
  case (Cons m sent)
  consider "m = pong_message" | h ty s where "h \<in> set targets" "m = host_message h ty s"
    using Cons.prems(1) by (auto simp: relayed_def)
  then show ?case
  proof cases
    case 1
    have "frame_text t (read_frame parse fmt sty ''pong'') = []" by (simp add: read_frame_def)
    with 1 Cons show ?thesis by (simp add: page_frames_def pong_message_def) (simp add: pong_message_def [symmetric])
  next
    case (2 h ty s)
    note read = read_relayed [OF assms(1) 2(1), of t fmt sty s]
    show ?thesis
    proof (cases "t = h")
      case False
      with 2 read Cons show ?thesis by (simp add: page_frames_def host_message_def) (simp add: host_message_def [symmetric])
    next
      case True
      with Cons.prems(2) 2 obtain r rs' where rs: "rs = r # rs'" "host_message t ty s = host_message t (fst r) (snd r)"
          "filter (from_target t) sent = relayed_reads t rs'"
        by (cases rs) (auto simp: relayed_reads_def)
      then have "r = (ty, s)" by (cases r) (simp add: host_message_def marshal_inj)
      with rs Cons.IH [of rs'] Cons.prems(1) 2 True read show ?thesis by (simp add: page_frames_def host_message_def)
    qed
  qed
qed

lemma relay_wf: "run px_step (proxy_init targets) es p \<Longrightarrow> px_wf targets p"
  by (rule px.inv_reach [OF refl])


text \<open>Two adapters, of which the first sends an entry twice, and a parser of all this.\<close>

definition sample_targets :: "string list" where
  "sample_targets = [''h'', ''b'']"

definition two_reads :: "px_event list" where
  "two_reads = [ReaderRun 0, ReaderGot 0 TextMessage ''E'', ReaderSent 0,
     ReaderRun 0, ReaderGot 0 TextMessage ''E'', ReaderSent 0]"

definition parse_two :: json_parser where
  "parse_two s =
     (if s = ''E'' then Inr (JObj [(''text'', JStr ''line'')])
      else Inr (JObj [(''Host'', JStr [s ! 9]), (''Message'', JStr (take (length s - 25) (drop 23 s)))]))"

definition two_world :: stream_world where
  "two_world = startStream Logs sample_targets True stream_init"

lemma b64_unquoted: "concat (map go_quote_char (b64_encode m)) = b64_encode m"
proof -
  have "list_all (\<lambda>v. go_quote_char (b64_char v) = [b64_char v]) [0..<64]" by code_simp
  then have "\<forall>v \<in> set (b64_values m). go_quote_char (b64_char v) = [b64_char v]"
    using b64_values_bound [of m] by (auto simp: list_all_iff)
  moreover have "\<forall>v \<in> set vs. go_quote_char (b64_char v) = [b64_char v] \<Longrightarrow>
      concat (map go_quote_char (map b64_char vs)) = map b64_char vs" for vs
    by (induction vs) auto
  ultimately have "concat (map go_quote_char (map b64_char (b64_values m))) = map b64_char (b64_values m)" by blast
  moreover have "concat (map go_quote_char (b64_padding m)) = b64_padding m"
    using b64_padding_cases [of m] by (auto simp: go_quote_char_def go_short_def code_of_def)
  ultimately show ?thesis by (simp only: b64_encode_values map_append concat_append)
qed

lemma parse_two_messages: "parses_messages parse_two sample_targets"
proof -
  have "go_quote ''h'' = [CHR 0x22, CHR ''h'', CHR 0x22]" "go_quote ''b'' = [CHR 0x22, CHR ''b'', CHR 0x22]"
    "go_quote ''Host'' = CHR 0x22 # ''Host'' @ [CHR 0x22]" "go_quote ''Message'' = CHR 0x22 # ''Message'' @ [CHR 0x22]"
    by code_simp+
  moreover have "go_quote (b64_encode m) = CHR 0x22 # b64_encode m @ [CHR 0x22]" for m
    using b64_unquoted [of m] by (simp add: go_quote_def)
  ultimately show ?thesis
    by (auto simp: parses_messages_def sample_targets_def parse_two_def marshal_host_message_def)
qed

definition two_events :: "px_event list" where
  "two_events = two_reads @ [WriterMsg True, WriterMsg True, ReaderRun 0, ReaderErr 0, ReaderDied 0,
     WriterDead, WriterReplied, WriterMsg True]"


section \<open>The last closing note\<close>

definition single_inv :: "string \<Rightarrow> px_event list \<Rightarrow> proxy \<Rightarrow> bool" where
  "single_inv t es p \<longleftrightarrow>
     (let read = insert pong_message (set (relayed_reads t (reads 0 es))) in
      set (px_sent p) \<subseteq> read \<and> set (sending p 0) \<subseteq> read
      \<and> (px_writer p = WriterSelect \<longrightarrow> set (px_msg p) \<subseteq> read \<and> livingAdapters p = [t])
      \<and> (replying p \<noteq> [] \<longrightarrow> livingAdapters p = []))"

lemma single_reader:
  assumes "px_wf [t] p" "single_inv t es p" "px_enabled e p"
    and "e = ReaderRun j \<or> (\<exists>ty m. e = ReaderGot j ty m) \<or> e = ReaderErr j \<or> e = ReaderSent j \<or> e = ReaderDied j"
  shows "single_inv t (es @ [e]) (px_handle e p)"
proof -
  have j: "j = 0" "target_of p 0 = t" "length (px_readers p) = 1"
    using assms(1,3,4) phase_lt [of p j] by (auto simp: px_wf_def target_of_def dest: arg_cong [of _ _ length])
  have s: "single_inv t (es @ [e]) (set_phase 0 ph p)"
    if "\<And>m. ph = ReaderSending m \<Longrightarrow> m \<in> set (relayed_reads t (reads 0 (es @ [e])))" for ph
    using assms(2) that j(3)
    by (cases e; cases ph)
      (auto simp: single_inv_def sending_set_phase Let_def relayed_reads_def split: if_splits)
  show ?thesis
    using assms(4)
  proof (elim disjE exE)
    fix ty m assume "e = ReaderGot j ty m"
    then show ?thesis using s [of "ReaderSending (host_message t ty m)"] j by simp
  next
    assume e: "e = ReaderSent j"
    then obtain m where m: "phase_of p 0 = ReaderSending m" using assms(3) j by auto
    then have "m \<in> set (sending p 0)" by (simp add: sending_def)
    with assms(2) have "m = pong_message \<or> m \<in> set (relayed_reads t (reads 0 es))" by (auto simp: single_inv_def Let_def)
    with s [of ReaderSelect] e m j show ?thesis by (auto simp: single_inv_def Let_def)
  next
    assume e: "e = ReaderDied j"
    then show ?thesis using s [of ReaderDone] j by (auto simp: single_inv_def Let_def)
  qed (use s [of "if px_shutdown p then ReaderDone else ReaderReading"] s [of ReaderDying] j in auto)
qed

lemma single_step:
  assumes wf: "px_wf [t] p" and inv: "single_inv t es p" and on: "px_enabled e p"
  shows "single_inv t (es @ [e]) (px_handle e p)"
proof (cases "\<exists>j ty m. e = ReaderRun j \<or> e = ReaderGot j ty m \<or> e = ReaderErr j \<or> e = ReaderSent j \<or> e = ReaderDied j")
  case True
  then show ?thesis using single_reader [OF assms] by blast
next
  case False
  then have none: "read_by 0 e = []" by (cases e) auto
  have msg: "relayed [t] (hd (px_msg p))" if "px_msg p \<noteq> []" using wf that by (simp add: px_wf_def)
  show ?thesis
  proof (cases e)
    case (WriterMsg ok)
    then obtain m ms where m: "px_msg p = m # ms" using on by (cases "px_msg p") auto
    with msg have "written m = m" by (intro written_relayed [of "[t]"]) simp
    with m inv on WriterMsg none show ?thesis
      by (auto simp: single_inv_def writer_check_def replying_def Let_def)
  next
    case WriterDead
    then obtain a ds where a: "px_dead p = a # ds" using on by (cases "px_dead p") auto
    then have "a = t" using wf by (simp add: px_wf_def)
    with a inv on WriterDead none show ?thesis by (auto simp: single_inv_def replying_def Let_def)
  next
    case WriterReplied
    then obtain m where "px_writer p = WriterReplying m" using on by auto
    then show ?thesis using inv WriterReplied none by (auto simp: single_inv_def writer_check_def replying_def Let_def)
  qed (use False inv none on in \<open>auto simp: single_inv_def writer_check_def replying_def Let_def\<close>)
qed

text \<open>
  C26. The closing note of the last adapter is lost. A page that streams one host is never told by
  the server that the adapter went away: all it is sent are keep-alive answers and messages the
  adapter itself sent. The note is queued for the loop that then ends.
\<close>

theorem last_note_lost:
  assumes "run px_step (proxy_init [t]) es p" and "m \<in> set (px_sent p)"
  shows "m = pong_message \<or> m \<in> set (relayed_reads t (reads 0 es))"
proof -
  have "px_wf [t] p \<and> single_inv t ([] @ es) p"
  proof (rule run_log [OF assms(1), where K = "\<lambda>es p. px_wf [t] p \<and> single_inv t es p"])
    show "px_wf [t] (proxy_init [t]) \<and> single_inv t [] (proxy_init [t])"
      using px_wf_init [of "[t]"]
      by (simp add: single_inv_def proxy_init_def replying_def sending_def phase_of_def)
  next
    fix h s e q
    assume s: "px_wf [t] s \<and> single_inv t h s" and step: "px_step s e q"
    then have "px_enabled e s" "q = px_handle e s" by (auto elim: px_stepE)
    with s step show "px_wf [t] q \<and> single_inv t (h @ [e]) q"
      using single_step [of t s h e] px_wf_step [of "[t]" s e q] by blast
  qed
  with assms(2) show ?thesis by (auto simp: single_inv_def Let_def)
qed

theorem last_note_lost_witness:
  "host_message ''h'' TextMessage ''E'' \<in> set (relayed_reads ''h'' (reads 0 [ReaderRun 0, ReaderGot 0 TextMessage ''E'',
     ReaderSent 0, WriterMsg True]))"
proof -
  let ?es = "[ReaderRun 0, ReaderGot 0 TextMessage ''E'', ReaderSent 0, WriterMsg True]"
  have "run px_step (proxy_init [''h'']) ?es (px_exec ?es (proxy_init [''h'']))"
    by (rule run_px_exec) code_simp
  moreover have "host_message ''h'' TextMessage ''E'' \<in> set (px_sent (px_exec ?es (proxy_init [''h''])))"
    "host_message ''h'' TextMessage ''E'' \<noteq> pong_message" by code_simp+
  ultimately show ?thesis using last_note_lost by blast
qed

section \<open>A stuck relay\<close>

definition writer_blocked :: "proxy \<Rightarrow> bool" where
  "writer_blocked p \<longleftrightarrow> replying p \<noteq> [] \<and> px_cap p \<le> length (px_msg p)"

definition stuck_view :: "proxy \<Rightarrow> writer_phase \<times> WebsocketMessage list \<times> WebsocketMessage list \<times> string list \<times> bool" where
  "stuck_view p = (px_writer p, px_msg p, px_sent p, livingAdapters p, px_goodbye p)"

lemma stuck_step:
  assumes "writer_blocked p" "px_enabled e p"
  shows "writer_blocked (px_handle e p)" "stuck_view (px_handle e p) = stuck_view p"
    "phase_of p i = ReaderSending m \<Longrightarrow> phase_of (px_handle e p) i = ReaderSending m"
proof -
  obtain r where r: "px_writer p = WriterReplying r" "\<not> length (px_msg p) < px_cap p"
    using assms(1) by (cases "px_writer p") (auto simp: writer_blocked_def replying_def)
  have "writer_blocked (px_handle e p) \<and> stuck_view (px_handle e p) = stuck_view p"
    using assms r by (cases e) (auto simp: writer_blocked_def stuck_view_def)
  then show "writer_blocked (px_handle e p)" "stuck_view (px_handle e p) = stuck_view p" by blast+
  show "phase_of (px_handle e p) i = ReaderSending m" if "phase_of p i = ReaderSending m"
    using assms r that by (cases e) (auto simp: phase_set_phase)
qed

text \<open>
  C11. The relay can get stuck for good. When an adapter dies while the messages of the others fill
  the channel, the writer waits to put the closing note into the channel that it alone empties.
  From then on, not even after a shutdown or the death of the page, nothing is written to the page,
  no close frame is sent to it, and a reader that waits to send never ends.
\<close>

theorem relay_stuck:
  assumes "run px_step p es q" and "writer_blocked p"
  shows "stuck_view q = stuck_view p \<and> writer_blocked q
    \<and> (phase_of p i = ReaderSending m \<longrightarrow> phase_of q i = ReaderSending m)"
  using assms
proof (induction rule: run.induct)
  case (run_cons p e t es q)
  then have e: "px_enabled e p" "t = px_handle e p" by (auto elim: px_stepE)
  with stuck_step [OF run_cons.prems e(1)] run_cons.IH show ?case by metis
qed simp

text \<open>The state is reached with two adapters: the first fills the channel, the second goes away.\<close>

definition stuck_proxy :: proxy where
  "stuck_proxy = px_exec (two_reads @ [ReaderRun 1, ReaderErr 1, ReaderDied 1, WriterDead]) (proxy_init sample_targets)"

theorem relay_stuck_witness:
  "(\<exists>es. run px_step (proxy_init sample_targets) es stuck_proxy) \<and> writer_blocked stuck_proxy
     \<and> px_sent (px_exec [Shutdown] stuck_proxy) = []"
proof -
  have "run px_step (proxy_init sample_targets) (two_reads @ [ReaderRun 1, ReaderErr 1, ReaderDied 1, WriterDead]) stuck_proxy"
    unfolding stuck_proxy_def by (rule run_px_exec) code_simp
  moreover have "run px_step stuck_proxy [Shutdown] (px_exec [Shutdown] stuck_proxy)"
    by (rule run_px_exec) code_simp
  moreover have blocked: "writer_blocked stuck_proxy" "px_sent stuck_proxy = []" by code_simp+
  ultimately show ?thesis
    using relay_stuck [of stuck_proxy "[Shutdown]" "px_exec [Shutdown] stuck_proxy"] by (auto simp: stuck_view_def)
qed

section \<open>The set-up of a stream\<close>

definition dialled :: "known \<Rightarrow> (string \<Rightarrow> string \<Rightarrow> bool) \<Rightarrow> string \<Rightarrow> string \<Rightarrow> bool" where
  "dialled k dial path h \<longleftrightarrow>
     (case GetAdapter h k of None \<Rightarrow> False | Some a \<Rightarrow> a \<noteq> [] \<and> dial (a @ '':3621'') path)"

lemma dial_targets_result:
  "dial_targets k dial path hs conns =
     (if list_all (dialled k dial path) hs then Inr (conns @ hs)
      else Inl (conns @ takeWhile (dialled k dial path) hs))"
  by (induction hs arbitrary: conns) (auto simp: dialled_def split: option.splits)

lemma stream_paths: "find_targetPath ''/api/Logs'' = ''/Logs''" "find_targetPath ''/api/BusEvents'' = ''/BusEvents''"
  by code_simp+



end
