(* ===== verification/Adapter.thy ===== *)
theory Adapter
  imports ServerNetwork "HOL-Library.List_Lexorder" "HOL-Library.Char_ord"
begin

text \<open>
  The adapter (\<open>api/adapter\<close>): the peers it knows, its handlers on the answers of the local client of
  Tailscale, which is a parameter, and the adapters of a network as the tailnet of the web UI server.
\<close>

section \<open>Structs as maps\<close>

text \<open>
  A Go value as \<open>StructToMap\<close> (\<open>api/shared/types/types.go\<close>) tells them apart by reflection: a struct
  with its fields and whether they are exported, a pointer, a nil pointer, and a value of any other
  kind, given by the JSON that \<open>encoding/json\<close> makes of it. Pointers to pointers do not occur.
\<close>

datatype go_value =
    GoStruct "(string \<times> bool \<times> go_value) list"
  | GoPtr go_value
  | GoNil
  | GoOther jsv

text \<open>A map is encoded in the order of its keys.\<close>

definition map_json :: "jsv jsobj \<Rightarrow> jsv" where
  "map_json m = JObj (sort_key fst m)"

fun field_json :: "go_value \<Rightarrow> jsv option"
  and struct_map :: "(string \<times> bool \<times> go_value) list \<Rightarrow> jsv jsobj" where
  "field_json (GoStruct fs) = Some (map_json (struct_map fs))"
| "field_json (GoPtr v) = field_json v"
| "field_json GoNil = None"
| "field_json (GoOther j) = Some j"
| "struct_map [] = []"
| "struct_map ((fieldName, exported, v) # fs) =
     (if exported then (case field_json v of None \<Rightarrow> [] | Some j \<Rightarrow> [(fieldName, j)]) else []) @ struct_map fs"

text \<open>\<open>None\<close> is a panic: a nil pointer has no type, and only a struct has a number of fields.\<close>

fun StructToMap :: "go_value \<Rightarrow> jsv option" where
  "StructToMap (GoStruct fs) = Some (map_json (struct_map fs))"
| "StructToMap (GoPtr (GoStruct fs)) = Some (map_json (struct_map fs))"
| "StructToMap _ = None"

section \<open>Known peers\<close>

record known_peers =
  kp_peers :: "(string \<times> string) list"
  kp_ips :: "(string \<times> string) list"

definition StorePeer :: "string \<Rightarrow> string \<Rightarrow> known_peers \<Rightarrow> known_peers" where
  "StorePeer peer ip k =
     k\<lparr>kp_peers := AList.update peer ip (kp_peers k), kp_ips := AList.update ip peer (kp_ips k)\<rparr>"

text \<open>The peers of a status, in the order their map is visited, with their addresses.\<close>

definition StorePeers :: "(string \<times> string list) list \<Rightarrow> known_peers \<Rightarrow> known_peers" where
  "StorePeers peers k =
     foldl (\<lambda>k (hostName, ips). if length ips > 0 then StorePeer hostName (ips ! 0) k else k) k peers"

definition GetIPByPeer :: "string \<Rightarrow> known_peers \<Rightarrow> string option" where
  "GetIPByPeer peer k = map_of (kp_peers k) peer"

definition GetPeerByIP :: "string \<Rightarrow> known_peers \<Rightarrow> string option" where
  "GetPeerByIP ip k = map_of (kp_ips k) ip"

section \<open>DNS records\<close>

text \<open>
  A resource as \<open>dnsmessage\<close> parses it: the type of its header, its body with the texts its addresses
  and names have, and its rendering by \<open>GoString\<close>.
\<close>

datatype dns_body =
    AResource string | AAAAResource string | CNAMEResource string | MXResource string nat
  | NSResource string | OPTResource | PTRResource string | SRVResource | TXTResource | OtherResource

record dns_resource =
  rs_type :: nat
  rs_body :: dns_body
  rs_gostring :: string

definition translateDNSRecordBody :: "dns_resource \<Rightarrow> string" where
  "translateDNSRecordBody r =
     (let ty = rs_type r in
      if ty = 1 then (case rs_body r of AResource a \<Rightarrow> a | _ \<Rightarrow> [])
      else if ty = 28 then (case rs_body r of AAAAResource a \<Rightarrow> a | _ \<Rightarrow> [])
      else if ty = 5 then (case rs_body r of CNAMEResource n \<Rightarrow> n | _ \<Rightarrow> [])
      else if ty = 15
      then (case rs_body r of MXResource mx pref \<Rightarrow> mx @ '', priority: '' @ show_nat pref | _ \<Rightarrow> [])
      else if ty = 2 then (case rs_body r of NSResource n \<Rightarrow> n | _ \<Rightarrow> [])
      else if ty = 41 then (case rs_body r of OPTResource \<Rightarrow> rs_gostring r | _ \<Rightarrow> [])
      else if ty = 12 then (case rs_body r of PTRResource n \<Rightarrow> n | _ \<Rightarrow> [])
      else if ty = 33 then (case rs_body r of SRVResource \<Rightarrow> rs_gostring r | _ \<Rightarrow> [])
      else if ty = 16 then (case rs_body r of TXTResource \<Rightarrow> rs_gostring r | _ \<Rightarrow> [])
      else rs_gostring r)"

text \<open>A reply as the parser reads it: its response code with whether that is success, whether the
  questions can be skipped, and its answers.\<close>

record dns_reply =
  dp_rcode :: "string + string \<times> bool"
  dp_skip :: "string option"
  dp_answers :: "string + dns_resource list"

section \<open>The local client and the handlers\<close>

record local_client =
  lc_status :: "string + go_value \<times> (string \<times> string list) list"
  lc_prefs :: "string + go_value"
  lc_dns :: "string + go_value"
  lc_serve :: "string + go_value"
  lc_shares :: "string + go_value"
  lc_routes :: "string + go_value"
  lc_no_routes :: go_value \<comment> \<open>the zero \<open>RouteInfo\<close>\<close>
  lc_goroutines :: "string + string"
  lc_pprof :: "string \<Rightarrow> int \<Rightarrow> string + string"
  lc_ping :: "nat \<Rightarrow> string \<Rightarrow> string \<Rightarrow> string + go_value" \<comment> \<open>of an address, by number\<close>
  lc_query :: "string \<Rightarrow> string \<Rightarrow> string + dns_reply \<times> string list"

datatype adapter_answer = AJson jsv | ABytes string | AStatus nat | APanic

definition WriteUnstructuredJSON :: "go_value \<Rightarrow> adapter_answer" where
  "WriteUnstructuredJSON data = (case StructToMap data of None \<Rightarrow> APanic | Some j \<Rightarrow> AJson j)"

definition write_or_500 :: "string + go_value \<Rightarrow> adapter_answer" where
  "write_or_500 resp = (case resp of Inl err \<Rightarrow> AStatus 500 | Inr v \<Rightarrow> WriteUnstructuredJSON v)"

definition DNSConfig_adapter :: "local_client \<Rightarrow> adapter_answer" where
  "DNSConfig_adapter lc = write_or_500 (lc_dns lc)"

definition DriveShares_adapter :: "local_client \<Rightarrow> adapter_answer" where
  "DriveShares_adapter lc = write_or_500 (lc_shares lc)"

definition Prefs_adapter :: "local_client \<Rightarrow> adapter_answer" where
  "Prefs_adapter lc = write_or_500 (lc_prefs lc)"

definition ServeConfig_adapter :: "local_client \<Rightarrow> adapter_answer" where
  "ServeConfig_adapter lc = write_or_500 (lc_serve lc)"

definition AppConnRoutes_adapter :: "local_client \<Rightarrow> adapter_answer" where
  "AppConnRoutes_adapter lc =
     (case lc_routes lc of
        Inl err \<Rightarrow>
          if err = ''404 Not Found: 404 page not found'' then AStatus 500
          else WriteUnstructuredJSON (lc_no_routes lc)
      | Inr v \<Rightarrow> WriteUnstructuredJSON v)"

definition Status_adapter :: "local_client \<Rightarrow> known_peers \<Rightarrow> adapter_answer \<times> known_peers" where
  "Status_adapter lc k =
     (case lc_status lc of
        Inl err \<Rightarrow> (AStatus 500, k)
      | Inr (v, peers) \<Rightarrow> (WriteUnstructuredJSON v, StorePeers peers k))"

definition Goroutines_adapter :: "local_client \<Rightarrow> adapter_answer" where
  "Goroutines_adapter lc = (case lc_goroutines lc of Inl err \<Rightarrow> AStatus 500 | Inr out \<Rightarrow> ABytes out)"

definition Pprof_adapter :: "local_client \<Rightarrow> string + jsv \<Rightarrow> adapter_answer" where
  "Pprof_adapter lc body =
     (case body of
        Inl err \<Rightarrow> AStatus 500
      | Inr v \<Rightarrow>
          (case (go_field ''type'' go_string [] v, go_field ''seconds'' go_int 0 v,
                 go_field ''hosts'' (go_array go_string) [] v) of
             (Some ty, Some seconds, Some hosts) \<Rightarrow>
               (case lc_pprof lc ty seconds of Inl err \<Rightarrow> AStatus 500 | Inr pprof \<Rightarrow> ABytes pprof)
           | _ \<Rightarrow> AStatus 500))"

record PingInput_go =
  pn_target :: string
  pn_count :: int
  pn_pingType :: string
  pn_delay :: string

definition decode_PingInput :: "jsv \<Rightarrow> PingInput_go option" where
  "decode_PingInput v =
     (case (go_field ''target'' go_string [] v, go_field ''count'' go_int 0 v,
            go_field ''pingType'' go_string [] v, go_field ''delay'' go_string [] v) of
        (Some t, Some c, Some ty, Some d) \<Rightarrow>
          Some \<lparr>pn_target = t, pn_count = c, pn_pingType = ty, pn_delay = d\<rparr>
      | _ \<Rightarrow> None)"

text \<open>The pings that got an answer; a failed one is logged and left out.\<close>

definition all_pings :: "local_client \<Rightarrow> string \<Rightarrow> string \<Rightarrow> int \<Rightarrow> go_value list" where
  "all_pings lc ip ty count =
     concat (map (\<lambda>i. case lc_ping lc i ip ty of Inl err \<Rightarrow> [] | Inr pingRes \<Rightarrow> [pingRes]) [0..<nat count])"

definition Ping_adapter :: "local_client \<Rightarrow> known_peers \<Rightarrow> string + jsv \<Rightarrow> adapter_answer" where
  "Ping_adapter lc k body =
     (case body of
        Inl err \<Rightarrow> AStatus 500
      | Inr v \<Rightarrow>
          (case decode_PingInput v of
             None \<Rightarrow> AStatus 500
           | Some input \<Rightarrow>
               (case ParseDuration (pn_delay input) of
                  None \<Rightarrow> AStatus 400
                | Some delay \<Rightarrow>
                    (case GetIPByPeer (pn_target input) k of
                       None \<Rightarrow> AStatus 500
                     | Some ip \<Rightarrow>
                         let pingRes = map StructToMap (all_pings lc ip (pn_pingType input) (pn_count input)) in
                         if None \<in> set pingRes then APanic else AJson (JArr (map the pingRes))))))"

definition QueryDNS_adapter :: "local_client \<Rightarrow> string + jsv \<Rightarrow> adapter_answer" where
  "QueryDNS_adapter lc body =
     (case body of
        Inl err \<Rightarrow> AStatus 500
      | Inr v \<Rightarrow>
          (case decode_QueryDNSInput v of
             None \<Rightarrow> AStatus 500
           | Some input \<Rightarrow>
               (case lc_query lc (qi_name input) (qi_queryType input) of
                  Inl err \<Rightarrow> AStatus 500
                | Inr (reply, resolvers) \<Rightarrow>
                    (case dp_rcode reply of
                       Inl err \<Rightarrow> AStatus 500
                     | Inr (rcode, success) \<Rightarrow>
                         let resp = (dns_result [])\<lparr>qr_resolvers := resolvers,
                               qr_header := \<lparr>dh_rcode = rcode, dh_name = [], dh_type = [], dh_class = [], dh_ttl = 0\<rparr>\<rparr>;
                             no_answer = AJson (QueryDNSResult_json (resp\<lparr>qr_responses := [''No answer.'']\<rparr>))
                         in if dp_skip reply \<noteq> None then AStatus 500
                            else if \<not> success then no_answer
                            else case dp_answers reply of
                                   Inl err \<Rightarrow> AStatus 500
                                 | Inr answers \<Rightarrow>
                                     if length answers = 0 then no_answer
                                     else AJson (QueryDNSResult_json
                                       (resp\<lparr>qr_responses := map translateDNSRecordBody answers\<rparr>))))))"

section \<open>Adapters as the tailnet\<close>

record adapter =
  ad_config :: server_config
  ad_allowedTag :: string
  ad_client :: local_client
  ad_peers :: known_peers

fun adapter_handle ::
    "adapter_handler \<Rightarrow> string + jsv \<Rightarrow> adapter \<Rightarrow> adapter_answer \<times> adapter" where
  "adapter_handle A_Ping body ad = (Ping_adapter (ad_client ad) (ad_peers ad) body, ad)"
| "adapter_handle A_Status body ad =
     (case Status_adapter (ad_client ad) (ad_peers ad) of (ans, k) \<Rightarrow> (ans, ad\<lparr>ad_peers := k\<rparr>))"
| "adapter_handle A_QueryDNS body ad = (QueryDNS_adapter (ad_client ad) body, ad)"
| "adapter_handle A_Pprof body ad = (Pprof_adapter (ad_client ad) body, ad)"
| "adapter_handle A_Prefs body ad = (Prefs_adapter (ad_client ad), ad)"
| "adapter_handle A_DriveShares body ad = (DriveShares_adapter (ad_client ad), ad)"
| "adapter_handle A_DNSConfig body ad = (DNSConfig_adapter (ad_client ad), ad)"
| "adapter_handle A_ServeConfig body ad = (ServeConfig_adapter (ad_client ad), ad)"
| "adapter_handle A_AppConnRoutes body ad = (AppConnRoutes_adapter (ad_client ad), ad)"
| "adapter_handle A_Goroutines body ad = (Goroutines_adapter (ad_client ad), ad)"
| "adapter_handle A_Healthz body ad = (ABytes ''ok'', ad)"
| "adapter_handle _ body ad = (AStatus 200, ad)"

text \<open>
  The adapters by their names, the address the server has for them, and what \<open>net/http\<close> and JSON text
  add: the text of a status, the text of a value, and the reading of text as a value.
\<close>

record adapter_world =
  aw_adapters :: "string \<Rightarrow> adapter option"
  aw_address :: string
  aw_status_text :: "nat \<Rightarrow> string"
  aw_text :: "jsv \<Rightarrow> string"
  aw_parse :: "string \<Rightarrow> string + jsv"

text \<open>After a panic \<open>net/http\<close> closes the connection, and the call ends with an error.\<close>

definition adapter_reply :: "adapter_world \<Rightarrow> adapter_answer \<Rightarrow> string + adapter_response" where
  "adapter_reply w ans =
     (case ans of
        AJson v \<Rightarrow> Inr \<lparr>ar_code = 200, ar_status = aw_status_text w 200, ar_json = Inr v, ar_bytes = (aw_text w v, [])\<rparr>
      | ABytes s \<Rightarrow> Inr \<lparr>ar_code = 200, ar_status = aw_status_text w 200, ar_json = aw_parse w s, ar_bytes = (s, [])\<rparr>
      | AStatus st \<Rightarrow> Inr \<lparr>ar_code = st, ar_status = aw_status_text w st, ar_json = Inl ''EOF'', ar_bytes = ([], [])\<rparr>
      | APanic \<Rightarrow> Inl ''EOF'')"

definition call_request :: "adapter_world \<Rightarrow> adapter_call \<Rightarrow> go_request" where
  "call_request w call =
     \<lparr>gr_method = ac_method call, gr_path = dropWhile (\<lambda>c. c \<noteq> CHR ''/'') (drop 7 (ac_url call)),
      gr_upgrade = [], gr_upgradable = False, gr_trace_header = ac_trace call, gr_remote = aw_address w,
      gr_trace = [], gr_user = []\<rparr>"

definition call_body :: "adapter_call \<Rightarrow> string + jsv" where
  "call_body call = (case ac_body call of None \<Rightarrow> Inl ''EOF'' | Some v \<Rightarrow> Inr v)"

definition adapters_net :: "adapter_world \<Rightarrow> tailnet" where
  "adapters_net w call =
     (case aw_adapters w (takeWhile (\<lambda>c. c \<noteq> CHR '':'') (drop 7 (ac_url call))) of
        None \<Rightarrow> Inl ''no such host''
      | Some ad \<Rightarrow>
          (case snd (adapter_serve (ad_config ad) (ad_allowedTag ad) (call_request w call)) of
             Refused st \<Rightarrow> adapter_reply w (AStatus st)
           | Handled h q \<Rightarrow> adapter_reply w (fst (adapter_handle h (call_body call) ad))))"

section \<open>Finding the socket\<close>

text \<open>
  \<open>pkg/utils/socket_discovery.go\<close>: the entries of \<open>/proc\<close> with what \<open>os.Stat\<close> says of the socket
  below them, and the retries. A wrapped error is not recognised as a missing file.
\<close>

datatype stat_result = StatMissing | StatError string | StatSocket | StatOther

record proc_entry =
  pe_name :: string
  pe_dir :: bool
  pe_stat :: stat_result

datatype discover_error = NotExist | DiscoverError string

fun discoverSocket :: "proc_entry list \<Rightarrow> discover_error + string" where
  "discoverSocket [] = Inl NotExist"
| "discoverSocket (file # files) =
     (if pe_dir file \<and> pe_name file \<noteq> [] \<and> list_all js_digit (pe_name file) then
        (case pe_stat file of
           StatMissing \<Rightarrow> discoverSocket files
         | StatError err \<Rightarrow> Inl (DiscoverError (''encountered during socket discovery: '' @ err))
         | StatSocket \<Rightarrow> Inr (''/proc/'' @ pe_name file @ ''/root/tmp/tailscaled.sock'')
         | StatOther \<Rightarrow> Inl (DiscoverError (''found matching tailscaled.sock that wasn'' @ [CHR 0x27] @ ''t a socket'')))
      else discoverSocket files)"

text \<open>\<open>read_proc\<close> is \<open>os.ReadDir\<close> at each attempt.\<close>

function discover_attempts :: "(nat \<Rightarrow> discover_error + proc_entry list) \<Rightarrow> nat \<Rightarrow> string + string" where
  "discover_attempts read_proc attempts =
     (if attempts < 4 then
        (case (case read_proc attempts of Inl err \<Rightarrow> Inl err | Inr files \<Rightarrow> discoverSocket files) of
           Inr socketPath \<Rightarrow> Inr socketPath
         | Inl NotExist \<Rightarrow> discover_attempts read_proc (Suc attempts)
         | Inl (DiscoverError err) \<Rightarrow> Inl err)
      else Inr [])"
  by pat_completeness auto
termination
  by (relation "measure (\<lambda>(read_proc, attempts). 4 - attempts)") auto

definition DiscoverSocket :: "(nat \<Rightarrow> discover_error + proc_entry list) \<Rightarrow> string + string" where
  "DiscoverSocket read_proc = discover_attempts read_proc 0"

declare discover_attempts.simps [simp del]

text \<open>Without a socket the search ends well, with the empty path.\<close>

lemma discover_silent:
  assumes "\<And>i. i < 4 \<Longrightarrow> \<exists>files. read_proc i = Inr files \<and> discoverSocket files = Inl NotExist"
  shows "DiscoverSocket read_proc = Inr []"
proof -
  have "discover_attempts read_proc (4 - n) = Inr []" if "n \<le> 4" for n
    using that
  proof (induction n)
    case 0
    then show ?case by (simp add: discover_attempts.simps [of _ 4])
  next
    case (Suc n)
    have lt: "4 - Suc n < 4" by simp
    obtain files where "read_proc (4 - Suc n) = Inr files" "discoverSocket files = Inl NotExist"
      using assms [OF lt] by blast
    moreover have "Suc (4 - Suc n) = 4 - n" using Suc.prems by simp
    ultimately show ?case using Suc by (subst discover_attempts.simps) simp
  qed
  from this [of 4] show ?thesis by (simp add: DiscoverSocket_def)
qed

lemma discoverSocket_path:
  "discoverSocket files = Inr p \<Longrightarrow>
     \<exists>f \<in> set files. pe_dir f \<and> pe_stat f = StatSocket \<and> p = ''/proc/'' @ pe_name f @ ''/root/tmp/tailscaled.sock''"
  by (induction files rule: discoverSocket.induct) (auto split: if_splits stat_result.splits)

end
