(* ===== verification/ServerPing.thy ===== *)
theory ServerPing
  imports ServerNetwork
begin

text \<open>Pings and profiles from the page to the adapters and back.\<close>

section \<open>The input of a ping\<close>

lemma go_int_of_int: "- (2 ^ 63) \<le> n \<Longrightarrow> n < 2 ^ 63 \<Longrightarrow> go_int (JNum (of_int n)) = Some n"
  by (simp add: go_int_def)

lemma one_duration_ms:
  assumes "int n * 1000000 \<le> 2 ^ 63"
  shows "one_duration (show_nat n @ ''ms'') = Some (int n * 1000000, [])"
proof -
  have all: "\<forall>c \<in> set (show_nat n). js_digit c" using show_nat_digits by blast
  have "takeWhile js_digit (show_nat n @ ''ms'') = show_nat n" "dropWhile js_digit (show_nat n @ ''ms'') = ''ms''"
    using all by (simp_all add: takeWhile_append2 dropWhile_append2 js_digit_def code_of_def)
  moreover have "unit_char CHR ''m''" "unit_char CHR ''s''" "read_nat [] = 0"
    by (simp_all add: unit_char_def js_digit_def code_of_def read_nat_def)
  ultimately show ?thesis
    using assms by (simp add: one_duration_def span_digits_def unit_ns_def read_show_nat)
qed

text \<open>The delay the page sends is read back as that many milliseconds.\<close>

lemma ParseDuration_ms:
  assumes "int n * 1000000 < 2 ^ 63"
  shows "ParseDuration (show_nat n @ ''ms'') = Some (int n * 1000000)"
proof -
  obtain c r where cr: "show_nat n = c # r" by (cases "show_nat n") auto
  then have c: "js_digit c" by (intro show_nat_digits [of c n]) simp
  then have ne: "c \<noteq> CHR ''-''" "c \<noteq> CHR ''+''" by (auto simp: js_digit_def code_of_def)
  have head: "take 1 (show_nat n @ ''ms'') = [c]" by (simp add: cr)
  have long: "show_nat n @ ''ms'' \<noteq> ''0''" "show_nat n @ ''ms'' \<noteq> []" by (simp_all add: cr)
  have "sum_durations 0 (show_nat n @ ''ms'') = Some (int n * 1000000)"
    using one_duration_ms [of n] assms by (subst sum_durations.simps) (simp add: sum_durations.simps [of _ "[]"])
  then show ?thesis
    using assms ne long by (simp only: ParseDuration_def head Let_def) simp
qed

lemma decode_args:
  "go_array decode_pingTargets (JArr (map (\<lambda>(h, ts). JObj [(''host'', JStr h), (''targets'', js_strings ts)]) hts))
     = Some (map (\<lambda>(h, ts). \<lparr>pt_targets = ts, pt_host = h\<rparr>) hts)"
proof -
  have one: "decode_pingTargets (JObj [(''host'', JStr h), (''targets'', js_strings ts)])
      = Some \<lparr>pt_targets = ts, pt_host = h\<rparr>" for h ts
    using decode_js_strings [of ts]
    by (simp add: decode_pingTargets_def go_field_def obj_get_def go_string_def js_strings_def)
  have "go_list decode_pingTargets (map (\<lambda>(h, ts). JObj [(''host'', JStr h), (''targets'', js_strings ts)]) hts)
     = Some (map (\<lambda>(h, ts). \<lparr>pt_targets = ts, pt_host = h\<rparr>) hts)"
    by (induction hts) (auto simp: one)
  then show ?thesis by (simp add: go_array_def)
qed

lemma decode_ping_request:
  assumes "- (2 ^ 63) \<le> pi_count p" "pi_count p < 2 ^ 63"
  shows "decode_pingInput (ping_input_json p) = Some
    \<lparr>pg_count = pi_count p, pg_pingType = pi_pingType p, pg_delay = pi_delay p,
     pg_args = map (\<lambda>(h, ts). \<lparr>pt_targets = ts, pt_host = h\<rparr>) (pi_args p)\<rparr>"
  using decode_args [of "pi_args p"]
  by (simp add: decode_pingInput_def ping_input_json_def go_field_def obj_get_def go_string_def
      go_int_of_int [OF assms])

section \<open>Pings from end to end\<close>

definition ping_body :: "app \<Rightarrow> string \<Rightarrow> jsv" where
  "ping_body a target =
     JObj [(''target'', JStr target), (''count'', JNum (of_int (pingCount a))),
       (''pingType'', JStr (pingType a)), (''delay'', JStr (show_int (pingDelay a) @ ''ms''))]"

text \<open>What the page is to store for a pair: the results of its adapter, if there are any.\<close>

definition ping_shows :: "server \<Rightarrow> app \<Rightarrow> string \<times> string \<Rightarrow> jsv" where
  "ping_shows sv a ht =
     (case CallHost (sv_known sv) (ge_net (page_env_of sv)) (ge_caller (page_env_of sv)) ''POST'' (fst ht)
             ''/Ping'' (Some (ping_body a (snd ht))) of
        Inl err \<Rightarrow> JUndef
      | Inr resp \<Rightarrow>
          (case ar_json resp of
             Inl err \<Rightarrow> JUndef
           | Inr v \<Rightarrow>
               (case go_array go_any_map v of
                  None \<Rightarrow> JUndef
                | Some rs \<Rightarrow> if rs = [] then JUndef else JArr rs)))"

definition ping_go_input :: "app \<Rightarrow> pingInput_go" where
  "ping_go_input a =
     \<lparr>pg_count = pingCount a, pg_pingType = pingType a, pg_delay = show_int (pingDelay a) @ ''ms'',
      pg_args = map (\<lambda>(h, ts). \<lparr>pt_targets = ts, pt_host = h\<rparr>) (group_targets (ping_combinations a))\<rparr>"

definition ping_row :: "server \<Rightarrow> app \<Rightarrow> string \<times> string \<Rightarrow> jsv" where
  "ping_row sv a ht =
     pingResults_json (hd (the (ping_worker (sv_known sv) (page_env_of sv) (ping_go_input a) (fst ht) (snd ht))))"

lemma ping_path: "path_Adapter PingPath = ''/Ping''"
  by (simp add: path_Adapter_def path_names)

lemma ping_single: "\<exists>r. ping_worker k env i h t = Some [r]"
  by (auto simp: ping_worker_def Let_def split: sum.splits option.splits)

lemma ping_row_entry:
  assumes "fst ht \<noteq> []" "snd ht \<noteq> []"
  shows "entry_pair (ping_row sv a ht) = ht" "entry_results (ping_row sv a ht) = ping_shows sv a ht"
    "ping_row sv a ht \<noteq> JUndef" "ping_row sv a ht \<noteq> JNull"
  using assms
  by (auto simp: ping_row_def ping_worker_def ping_path ping_shows_def ping_body_def ping_go_input_def
      entry_pair_def entry_results_def js_opt_prop_def pingResults_json_def omit_str_def omit_list_def
      obj_get_def Let_def prod_eq_iff split: sum.splits option.splits)

lemma ping_pairs_flat:
  "concat (map (\<lambda>pt. map (ping_worker k env i (pt_host pt)) (pt_targets pt))
      (map (\<lambda>(h, ts). \<lparr>pt_targets = ts, pt_host = h\<rparr>) hts))
    = map (\<lambda>ht. ping_worker k env i (fst ht) (snd ht)) (concat (map (\<lambda>(h, ts). map (Pair h) ts) hts))"
  by (induction hts) auto

lemma combinations_flat:
  "concat (map (\<lambda>(h, ts). map (Pair h) ts) (group_targets (ping_combinations a))) = ping_combinations a"
  by (simp add: ping_combinations_def ungroup_combinations distinct_new_set)

lemma ping_fetched:
  assumes "page_ok env" "user_ok sv"
    and "- (2 ^ 63) \<le> pingCount a" "pingCount a < 2 ^ 63" "0 \<le> pingDelay a" "pingDelay a * 1000000 < 2 ^ 63"
  shows "executePing env (webui_network sv) (ping_request a) = Inr (JArr (map (ping_row sv a) (ping_combinations a)))"
proof -
  let ?rq = "\<lparr>rq_method = ''POST'', rq_url = getApiBaseUrl env @ ''/api/Ping'', rq_headers = json_headers,
    rq_body = Some (ping_input_json (ping_request a))\<rparr>"
  have path: "url_path (rq_url ?rq) = ''/api/Ping''"
    using url_path_base [OF assms(1), of "''api/Ping''"] by simp
  have "served_by ui_routes (url_path (rq_url ?rq)) PostRoute UI_Ping"
    unfolding path by code_simp
  from ui_request_served [OF assms(2) this]
  have ans: "webui_answer sv ?rq = ui_handle UI_Ping (page_request sv ?rq) ?rq sv" by simp
  have dec: "decode_pingInput (ping_input_json (ping_request a)) = Some (ping_go_input a)"
    using decode_ping_request [of "ping_request a"] assms(3,4) by (simp add: ping_request_def ping_go_input_def)
  have delay: "ParseDuration (pg_delay (ping_go_input a)) = Some (pingDelay a * 1000000)"
    using ParseDuration_ms [of "nat (pingDelay a)"] assms(5,6) by (simp add: ping_go_input_def show_int_def)
  have "gather (map (\<lambda>ht. ping_worker (sv_known sv) (page_env_of sv) (ping_go_input a) (fst ht) (snd ht))
        (ping_combinations a))
      = Some (map (\<lambda>ht. hd (the (ping_worker (sv_known sv) (page_env_of sv) (ping_go_input a) (fst ht) (snd ht))))
        (ping_combinations a))"
    by (rule gather_map) (rule ping_single)
  moreover have "concat (map (\<lambda>pt. map (ping_worker (sv_known sv) (page_env_of sv) (ping_go_input a) (pt_host pt)) (pt_targets pt))
        (pg_args (ping_go_input a)))
      = map (\<lambda>ht. ping_worker (sv_known sv) (page_env_of sv) (ping_go_input a) (fst ht) (snd ht)) (ping_combinations a)"
    using ping_pairs_flat [of "sv_known sv" "page_env_of sv" "ping_go_input a"] combinations_flat [of a]
    by (simp add: ping_go_input_def)
  ultimately have "webui_network sv ?rq = as_outcome sv (JsonAnswer (JArr (map (ping_row sv a) (ping_combinations a))))"
    using ans by (simp add: webui_network_def Ping_handler_def request_body_def dec delay answer_rows_def
        ping_row_def [abs_def] comp_def)
  then show ?thesis by (simp add: executePing_def read_ok_json_def as_outcome_def rsp_ok_def)
qed

lemma ping_served:
  assumes "page_ok env" and "user_ok sv"
    and "1 \<le> pingCount a" and "pingCount a \<le> 20" and "0 \<le> pingDelay a" and "pingDelay a \<le> 2000"
    and "\<forall>(h, t) \<in> set (ping_combinations a). h \<noteq> [] \<and> t \<noteq> []"
  shows "pair_output (fetchPing env (webui_network sv) a) ht =
    (if ht \<in> set (ping_combinations a) then Some (ping_shows sv a ht) else None)"
proof -
  have fetched: "executePing env (webui_network sv) (ping_request a) = Inr (JArr (map (ping_row sv a) (ping_combinations a)))"
    by (rule ping_fetched) (use assms in simp_all)
  have row: "entry_pair (ping_row sv a ht) = ht" "entry_results (ping_row sv a ht) = ping_shows sv a ht"
      "ping_row sv a ht \<noteq> JUndef" "ping_row sv a ht \<noteq> JNull" if "ht \<in> set (ping_combinations a)" for ht
    using assms(7) that ping_row_entry [of ht sv a] by (auto simp: case_prod_unfold)
  have "pair_output (fetchPing env (webui_network sv) a) ht =
      map_of (rev (map (\<lambda>x. (entry_pair x, entry_results x)) (map (ping_row sv a) (ping_combinations a)))) ht"
    by (rule fetched_ping(1) [OF fetched]) (use row in auto)
  also have "map (\<lambda>x. (entry_pair x, entry_results x)) (map (ping_row sv a) (ping_combinations a))
      = map (\<lambda>ht. (ht, ping_shows sv a ht)) (ping_combinations a)"
    by (simp add: row)
  also have "map_of (rev (map (\<lambda>ht. (ht, ping_shows sv a ht)) (ping_combinations a))) ht =
      (if ht \<in> set (ping_combinations a) then Some (ping_shows sv a ht) else None)"
    by (simp add: rev_map map_of_map_restrict [unfolded comp_def] restrict_map_def)
  finally show ?thesis .
qed

section \<open>Profiles from end to end\<close>

definition pprof_request :: "page_env \<Rightarrow> pprof_input \<Rightarrow> request" where
  "pprof_request env input =
     \<lparr>rq_method = ''POST'', rq_url = getApiBaseUrl env @ ''/api/Pprof'', rq_headers = json_headers,
      rq_body = Some (pprof_input_json input)\<rparr>"

lemma executePprof_request:
  "executePprof env net input =
     (case net (pprof_request env input) of
        Rejected e \<Rightarrow> Inl e
      | Responded r \<Rightarrow> if \<not> rsp_ok r then Inl (http_error (rsp_status r)) else Inr r)"
  by (simp add: executePprof_def pprof_request_def)

definition pprof_seconds :: "pprof_input \<Rightarrow> int" where
  "pprof_seconds input = (case pp_seconds input of None \<Rightarrow> 0 | Some n \<Rightarrow> n)"

definition pprof_go_input :: "pprof_input \<Rightarrow> PprofInput_go" where
  "pprof_go_input input =
     \<lparr>pi_hosts_go = pp_hosts input, pi_type = pp_type input, pi_seconds = pprof_seconds input\<rparr>"

lemma pprof_go_hosts: "pi_hosts_go (pprof_go_input input) = pp_hosts input"
  by (simp add: pprof_go_input_def)

lemma decode_pprof_request:
  assumes "- (2 ^ 63) \<le> pprof_seconds input" "pprof_seconds input < 2 ^ 63"
  shows "decode_PprofInput (pprof_input_json input) = Some (pprof_go_input input)"
proof -
  have hosts: "decode_hosts (pprof_input_json input) = Some (pp_hosts input)"
    by (cases "pp_seconds input")
      (auto simp: pprof_input_json_def obj_get_def intro!: decode_hosts_field)
  show ?thesis
    using assms
    by (cases "pp_seconds input")
      (simp_all add: decode_PprofInput_def hosts pprof_go_input_def pprof_seconds_def,
       simp_all add: pprof_input_json_def go_field_def obj_get_def go_string_def go_int_of_int)
qed

text \<open>The profile a host's adapter answers, if the call works out.\<close>

definition profile_of :: "server \<Rightarrow> pprof_input \<Rightarrow> string \<Rightarrow> string option" where
  "profile_of sv input h =
     (case CallHost (sv_known sv) (ge_net (page_env_of sv)) (ge_caller (page_env_of sv)) ''POST'' h ''/Pprof''
             (Some (JObj [(''type'', JStr (pp_type input)), (''seconds'', JNum (of_int (pprof_seconds input)))])) of
        Inl err \<Rightarrow> if err = [] then Some [] else None
      | Inr resp \<Rightarrow> (case ar_bytes resp of (bytes, err) \<Rightarrow> if err \<noteq> [] then None else Some bytes))"

lemma pprof_path: "path_Adapter PprofPath = ''/Pprof''"
  by (simp add: path_Adapter_def path_names)

lemma pprof_worker_result:
  "\<exists>r. pprof_worker (sv_known sv) (page_env_of sv) (pprof_go_input input) h = Some [r] \<and> pf_host r = h
     \<and> (profile_of sv input h = None \<longleftrightarrow> pf_error r \<noteq> [])
     \<and> (\<forall>bytes. profile_of sv input h = Some bytes \<longrightarrow> pf_pprof r = bytes)"
  by (auto simp: pprof_worker_def profile_of_def pprof_go_input_def pprof_path Let_def
      split: sum.splits prod.splits)

lemma pprof_file_inj: "pprof_file h = pprof_file h' \<longleftrightarrow> h = h'"
  by (simp add: pprof_file_def)

lemma pprof_loop_Cons:
  "snd (pprof_loop env (r # rs) fs) = snd (pprof_loop env rs (snd (pprof_collect env r fs)))"
  by (simp add: Let_def split: prod.splits)

lemma pprof_collect_file:
  "snd (pprof_collect env r fs) (pprof_file h) =
     (if pf_host r = h \<and> pf_error r = [] \<and> \<not> ge_write_fails env (pprof_file h) then Some (pf_pprof r)
      else fs (pprof_file h))"
  by (simp add: pprof_collect_def writePprofToFile_def pprof_file_inj Let_def)

lemma pprof_loop_file:
  assumes "\<forall>r \<in> set rs. (prof (pf_host r) = None \<longleftrightarrow> pf_error r \<noteq> [])
      \<and> (\<forall>bytes. prof (pf_host r) = Some bytes \<longrightarrow> pf_pprof r = bytes)"
  shows "snd (pprof_loop env rs fs) (pprof_file h) =
    (if h \<in> pf_host ` set rs \<and> prof h \<noteq> None \<and> \<not> ge_write_fails env (pprof_file h) then prof h
     else fs (pprof_file h))"
  using assms
proof (induction rs arbitrary: fs)
  case (Cons r rs)
  let ?fs = "snd (pprof_collect env r fs)"
  have r: "pf_error r = [] \<longleftrightarrow> prof (pf_host r) = Some (pf_pprof r)" "pf_error r \<noteq> [] \<longleftrightarrow> prof (pf_host r) = None"
    using Cons.prems by (cases "prof (pf_host r)"; force)+
  have IH: "snd (pprof_loop env rs ?fs) (pprof_file h) =
      (if h \<in> pf_host ` set rs \<and> prof h \<noteq> None \<and> \<not> ge_write_fails env (pprof_file h) then prof h
       else ?fs (pprof_file h))"
    using Cons.prems by (intro Cons.IH) simp
  show ?case
    unfolding pprof_loop_Cons IH pprof_collect_file
    by (cases "pf_host r = h"; cases "h \<in> pf_host ` set rs"; cases "prof h") (use r in simp_all)
qed simp

lemma unreserved_host:
  "list_all unreserved h \<Longrightarrow> CHR ''/'' \<notin> set h \<and> CHR ''?'' \<notin> set h"
  by (auto simp: list_all_iff unreserved_def code_of_def)

lemma static_route_best:
  "best_route (filter (\<lambda>rt. segs_match (tl (js_split (CHR ''/'') (rt_pattern rt))) [''static'', ''pprof'', x]) ui_routes)
     = Some (simple_route GetRoute ''/static/pprof/'' UI_PprofFiles)"
  by (simp add: ui_route_defs)

lemma static_route:
  assumes "CHR ''/'' \<notin> set h"
  shows "served_by ui_routes (''/static/pprof/'' @ h @ ''.pprof'') GetRoute UI_PprofFiles"
proof -
  have "tl (js_split (CHR ''/'') (''/static/pprof/'' @ h @ ''.pprof'')) = [''static'', ''pprof'', h @ ''.pprof'']"
    using assms by (simp add: js_split_no_sep)
  then have "mux_route ui_routes (''/static/pprof/'' @ h @ ''.pprof'')
      = Some (simple_route GetRoute ''/static/pprof/'' UI_PprofFiles)"
    unfolding mux_route_def pattern_matches_def by (simp only: static_route_best)
  then show ?thesis by (simp add: served_by_def simple_route_def)
qed

lemma fetch_profile:
  assumes "page_ok env" "user_ok sv" "list_all unreserved h"
  shows "fetchPprofFile env (webui_network sv) h =
    (case sv_files sv (pprof_file h) of
       None \<Rightarrow> Inl (Error (''Failed to fetch pprof file: HTTP '' @ show_nat 404))
     | Some bytes \<Rightarrow> Inr bytes)"
proof -
  let ?rq = "\<lparr>rq_method = ''GET'', rq_url = getApiBaseUrl env @ ''/static/pprof/'' @ h @ ''.pprof'',
    rq_headers = [], rq_body = None\<rparr>"
  note h = unreserved_host [OF assms(3)]
  then have q: "\<forall>x \<in> set h. x \<noteq> CHR ''?''" by metis
  have path: "url_path (rq_url ?rq) = ''/static/pprof/'' @ h @ ''.pprof''"
    using url_path_base [OF assms(1), of "''static/pprof/'' @ h @ ''.pprof''"] q
    by (simp add: takeWhile_append2)
  have "served_by ui_routes (url_path (rq_url ?rq)) GetRoute UI_PprofFiles"
    unfolding path by (rule static_route) (use h in blast)
  from ui_request_served [OF assms(2) this]
  have "webui_answer sv ?rq = ui_handle UI_PprofFiles (page_request sv ?rq) ?rq sv" by simp
  moreover have "gr_path (page_request sv ?rq) = ''/static/pprof/'' @ h @ ''.pprof''"
    using path by (simp add: page_request_def as_go_request_def)
  ultimately have "webui_network sv ?rq = file_outcome (sv_files sv (pprof_file h))"
    by (simp add: webui_network_def static_pprof_def pprof_file_def)
  then show ?thesis
    by (simp add: fetchPprofFile_def file_outcome_def status_response_def rsp_ok_def split: option.splits)
qed

lemma pprof_answered:
  assumes "page_ok env" "user_ok sv" "- (2 ^ 63) \<le> pprof_seconds input" "pprof_seconds input < 2 ^ 63"
  shows "\<exists>v rs. webui_answer sv (pprof_request env input) =
      (as_outcome sv (JsonAnswer v), sv\<lparr>sv_files := snd (pprof_loop (page_env_of sv) rs (sv_files sv))\<rparr>)
    \<and> pf_host ` set rs = set (pp_hosts input)
    \<and> (\<forall>r \<in> set rs. (profile_of sv input (pf_host r) = None \<longleftrightarrow> pf_error r \<noteq> [])
        \<and> (\<forall>bytes. profile_of sv input (pf_host r) = Some bytes \<longrightarrow> pf_pprof r = bytes))"
proof -
  let ?rq = "pprof_request env input"
  let ?work = "pprof_worker (sv_known sv) (page_env_of sv) (pprof_go_input input)"
  let ?rs = "map (\<lambda>h. hd (the (?work h))) (pp_hosts input)"
  have path: "url_path (rq_url ?rq) = ''/api/Pprof''"
    using url_path_base [OF assms(1), of "''api/Pprof''"] by (simp add: pprof_request_def)
  have "served_by ui_routes (url_path (rq_url ?rq)) PostRoute UI_Pprof"
    unfolding path by code_simp
  from ui_request_served [OF assms(2) this]
  have ans: "webui_answer sv ?rq = ui_handle UI_Pprof (page_request sv ?rq) ?rq sv"
    by (simp add: pprof_request_def)
  have work: "?work h = Some [hd (the (?work h))] \<and> pf_host (hd (the (?work h))) = h
      \<and> (profile_of sv input h = None \<longleftrightarrow> pf_error (hd (the (?work h))) \<noteq> [])
      \<and> (\<forall>bytes. profile_of sv input h = Some bytes \<longrightarrow> pf_pprof (hd (the (?work h))) = bytes)" for h
    using pprof_worker_result [of sv input h] by auto
  have "gather (map ?work (pp_hosts input)) = Some ?rs"
    by (rule gather_map) (use work in blast)
  then have "webui_answer sv ?rq =
      (as_outcome sv (JsonAnswer (JArr (map pprofResult_json (fst (pprof_loop (page_env_of sv) ?rs (sv_files sv)))))),
       sv\<lparr>sv_files := snd (pprof_loop (page_env_of sv) ?rs (sv_files sv))\<rparr>)"
    using decode_pprof_request [OF assms(3,4)] unfolding ans
    by (simp add: Pprof_handler_def request_body_def pprof_request_def pprof_go_hosts split: prod.splits)
  moreover have "pf_host ` set ?rs = set (pp_hosts input)" using work by (simp add: image_image)
  ultimately show ?thesis using work by (intro exI [of _ ?rs] exI conjI) auto
qed



end
