(* ===== verification/AdapterProperties.thy ===== *)
theory AdapterProperties
  imports Adapter ServerPing
begin

text \<open>
  The page, the web UI server and the adapters put together: what becomes of a command on the way to
  the local client of Tailscale and back.
\<close>

section \<open>Known peers\<close>

text \<open>After a status, a peer with an address is known by the first address of its last entry.\<close>

lemma GetIP_StorePeers:
  "GetIPByPeer h (StorePeers peers k) =
     (case filter (\<lambda>(n, ips). n = h \<and> ips \<noteq> []) peers of
        [] \<Rightarrow> GetIPByPeer h k
      | e # es \<Rightarrow> Some (hd (snd (last (e # es)))))"
proof (induction peers arbitrary: k)
  case (Cons p ps)
  obtain n ips where p: "p = (n, ips)" by (cases p)
  have store: "GetIPByPeer h (StorePeer n ip k) = (if n = h then Some ip else GetIPByPeer h k)" for ip
    by (simp add: GetIPByPeer_def StorePeer_def update_conv')
  have "StorePeers (p # ps) k = StorePeers ps (if ips = [] then k else StorePeer n (ips ! 0) k)"
    by (simp add: StorePeers_def p)
  with Cons show ?case
    by (cases ips; cases "filter (\<lambda>(n, ips). n = h \<and> ips \<noteq> []) ps") (auto simp: p store)
qed (simp add: StorePeers_def)

section \<open>Calls that reach an adapter\<close>

lemma takeWhile_until: "c \<notin> set w \<Longrightarrow> takeWhile (\<lambda>x. x \<noteq> c) (w @ c # s) = w"
  by (induction w) auto

definition admits :: "adapter_world \<Rightarrow> adapter \<Rightarrow> bool" where
  "admits w ad \<longleftrightarrow> sc_dev (ad_config ad) \<or> node_allowed (ad_allowedTag ad) (sc_whois (ad_config ad) (aw_address w))"

lemma adapter_served:
  assumes "served_by adapter_routes path PostRoute h" "gr_path r = path" "gr_method r = ''POST''"
    and "gr_remote r = aw_address w"
  shows "if admits w ad then \<exists>q. snd (adapter_serve (ad_config ad) (ad_allowedTag ad) r) = Handled h q
    else snd (adapter_serve (ad_config ad) (ad_allowedTag ad) r) \<in> {Refused 500, Refused 403}"
proof -
  obtain rt where rt: "mux_route adapter_routes path = Some rt" "rt_auth rt" "rt_kind rt = PostRoute" "rt_handler rt = h"
    using assms(1) by (auto simp: served_by_def split: option.splits)
  show ?thesis
  proof (cases "admits w ad")
    case True
    with rt assms show ?thesis
      unfolding adapter_serve_def adapter_auth.serve_reaches by (auto simp: admits_def)
  next
    case False
    with rt assms show ?thesis
      by (auto simp: adapter_serve_def serve_def route_chain_def register_foldr RequestLogger_def adapterAuth_def
          admits_def node_allowed_def split: sum.splits)
  qed
qed

text \<open>The server and its adapters: the adapters it knows have plain names, and its port is one.\<close>

definition server_adapters :: "server \<Rightarrow> adapter_world \<Rightarrow> bool" where
  "server_adapters sv w \<longleftrightarrow> ge_net (sv_env sv) = adapters_net w
     \<and> CHR ''/'' \<notin> set (cl_port (ge_caller (sv_env sv)))
     \<and> (\<forall>n \<in> snd ` set (kn_hosts (sv_known sv)). CHR ''/'' \<notin> set n \<and> CHR '':'' \<notin> set n)
     \<and> (\<forall>st. aw_status_text w st \<noteq> [])"

definition adapter_of :: "server \<Rightarrow> adapter_world \<Rightarrow> string \<Rightarrow> adapter option" where
  "adapter_of sv w host =
     (case GetAdapter host (sv_known sv) of
        None \<Rightarrow> None
      | Some n \<Rightarrow>
          if n = [] then None
          else (case aw_adapters w n of None \<Rightarrow> None | Some ad \<Rightarrow> if admits w ad then Some ad else None))"

text \<open>What a call gets of an answer of an adapter.\<close>

definition call_result :: "adapter_world \<Rightarrow> adapter_answer \<Rightarrow> string + adapter_response" where
  "call_result w ans =
     (case adapter_reply w ans of
        Inl err \<Rightarrow> Inl err
      | Inr resp \<Rightarrow> if ar_code resp \<noteq> 200 then Inl (ar_status resp) else Inr resp)"

lemma page_env_simps [simp]:
  "ge_net (page_env_of sv) = ge_net (sv_env sv)" "cl_port (ge_caller (page_env_of sv)) = cl_port (ge_caller (sv_env sv))"
  by (simp_all add: page_env_of_def)

lemma call_reaches:
  assumes sv: "server_adapters sv w" and path: "served_by adapter_routes (CHR ''/'' # p) PostRoute ah"
  shows "case adapter_of sv w host of
      None \<Rightarrow> \<exists>err. CallHost (sv_known sv) (ge_net (page_env_of sv)) (ge_caller (page_env_of sv)) ''POST'' host
          (CHR ''/'' # p) body = Inl err \<and> err \<noteq> []
    | Some ad \<Rightarrow> CallHost (sv_known sv) (ge_net (page_env_of sv)) (ge_caller (page_env_of sv)) ''POST'' host
          (CHR ''/'' # p) body
        = call_result w (fst (adapter_handle ah (case body of None \<Rightarrow> Inl ''EOF'' | Some v \<Rightarrow> Inr v) ad))"
proof (cases "GetAdapter host (sv_known sv)")
  case None
  then show ?thesis by (simp add: adapter_of_def CallHost_def)
next
  case (Some n)
  let ?port = "cl_port (ge_caller (sv_env sv))"
  let ?call = "\<lparr>ac_method = ''POST'', ac_url = ''http://'' @ n @ '':'' @ ?port @ CHR ''/'' # p,
      ac_trace = cl_trace (ge_caller (page_env_of sv)), ac_user = cl_user (ge_caller (page_env_of sv)), ac_body = body\<rparr>"
  have "(host, n) \<in> set (kn_hosts (sv_known sv))" using Some by (auto simp: GetAdapter_def dest: map_of_SomeD)
  then have "n \<in> snd ` set (kn_hosts (sv_known sv))" by force
  then have n: "CHR ''/'' \<notin> set n" "CHR '':'' \<notin> set n" and net: "ge_net (sv_env sv) = adapters_net w"
      and port: "CHR ''/'' \<notin> set ?port" and texts: "\<And>st. aw_status_text w st \<noteq> []"
    using sv unfolding server_adapters_def by blast+
  have name: "takeWhile (\<lambda>c. c \<noteq> CHR '':'') (drop 7 (ac_url ?call)) = n"
    using takeWhile_until [OF n(2)] by simp
  have path': "gr_path (call_request w ?call) = CHR ''/'' # p"
    using dropWhile_until [of "CHR ''/''" "n @ '':'' @ ?port" p] n(1) port by (simp add: call_request_def)
  show ?thesis
  proof (cases "n = [] \<or> aw_adapters w n = None")
    case True
    with Some net name show ?thesis
      by (auto simp: adapter_of_def CallHost_def CallAdapter_def adapters_net_def)
  next
    case False
    then obtain ad where ad: "n \<noteq> []" "aw_adapters w n = Some ad" by auto
    have served: "if admits w ad then \<exists>q. snd (adapter_serve (ad_config ad) (ad_allowedTag ad) (call_request w ?call)) = Handled ah q
        else snd (adapter_serve (ad_config ad) (ad_allowedTag ad) (call_request w ?call)) \<in> {Refused 500, Refused 403}"
      by (rule adapter_served [OF path path']) (simp_all add: call_request_def)
    have call: "CallHost (sv_known sv) (ge_net (page_env_of sv)) (ge_caller (page_env_of sv)) ''POST'' host (CHR ''/'' # p) body
        = (case adapters_net w ?call of Inl err \<Rightarrow> Inl err | Inr resp \<Rightarrow> if ar_code resp \<noteq> 200 then Inl (ar_status resp) else Inr resp)"
      using Some ad(1) net by (simp add: CallHost_def CallAdapter_def)
    show ?thesis
    proof (cases "admits w ad")
      case True
      with served name ad show ?thesis unfolding call
        by (auto simp: adapter_of_def Some adapters_net_def call_result_def call_body_def)
    next
      case False
      with served name ad texts show ?thesis unfolding call
        by (auto simp: adapter_of_def Some adapters_net_def adapter_reply_def)
    qed
  qed
qed

section \<open>Host commands\<close>

fun cmd_adapter :: "host_cmd \<Rightarrow> adapter_handler" where
  "cmd_adapter Status = A_Status"
| "cmd_adapter Prefs = A_Prefs"
| "cmd_adapter DriveShares = A_DriveShares"
| "cmd_adapter DNSConfig = A_DNSConfig"
| "cmd_adapter ServeConfig = A_ServeConfig"
| "cmd_adapter AppConnRoutes = A_AppConnRoutes"
| "cmd_adapter Goroutines = A_Goroutines"

definition cmd_answer :: "host_cmd \<Rightarrow> adapter \<Rightarrow> adapter_answer" where
  "cmd_answer c ad = fst (adapter_handle (cmd_adapter c) (Inl ''EOF'') ad)"

text \<open>What the page is to show of an answer.\<close>

fun adapter_shows :: "adapter_world \<Rightarrow> adapter_answer \<Rightarrow> jsv" where
  "adapter_shows w (AJson v) = (if v = JObj [] then JUndef else v)"
| "adapter_shows w (ABytes s) = (if s = [] then error_object ''No data returned'' else JStr s)"
| "adapter_shows w (AStatus st) = error_object (aw_status_text w st)"
| "adapter_shows w APanic = error_object ''EOF''"

lemma StructToMap_obj: "StructToMap v = Some j \<Longrightarrow> \<exists>m. j = JObj m"
  by (cases v rule: StructToMap.cases) (auto simp: map_json_def)

lemma WriteUnstructuredJSON_cases:
  "WriteUnstructuredJSON v = APanic \<or> (\<exists>m. WriteUnstructuredJSON v = AJson (JObj m))"
  using StructToMap_obj [of v] by (auto simp: WriteUnstructuredJSON_def split: option.splits)

lemma write_or_500_cases:
  "write_or_500 resp = AStatus 500 \<or> write_or_500 resp = APanic \<or> (\<exists>m. write_or_500 resp = AJson (JObj m))"
  using WriteUnstructuredJSON_cases by (auto simp: write_or_500_def split: sum.splits)

lemma cmd_answer_cases:
  "c = Goroutines \<and> (\<exists>s. cmd_answer c ad = ABytes s) \<or> cmd_answer c ad = AStatus 500
   \<or> c \<noteq> Goroutines \<and> (cmd_answer c ad = APanic \<or> (\<exists>m. cmd_answer c ad = AJson (JObj m)))"
proof (cases c)
  case Status
  with WriteUnstructuredJSON_cases show ?thesis
    by (auto simp: cmd_answer_def Status_adapter_def split: sum.splits prod.splits)
next
  case AppConnRoutes
  with WriteUnstructuredJSON_cases show ?thesis
    by (auto simp: cmd_answer_def AppConnRoutes_adapter_def split: sum.splits)
next
  case Goroutines
  then show ?thesis by (auto simp: cmd_answer_def Goroutines_adapter_def split: sum.splits)
qed (use write_or_500_cases in \<open>auto simp: cmd_answer_def Prefs_adapter_def DriveShares_adapter_def
    DNSConfig_adapter_def ServeConfig_adapter_def\<close>)

lemma cmd_adapter_served: "served_by adapter_routes (CHR ''/'' # cmd_endpoint c) PostRoute (cmd_adapter c)"
  by (cases c; simp only: cmd_endpoint.simps cmd_adapter.simps; code_simp)

lemma host_shows_adapter:
  assumes "server_adapters sv w"
  shows "call_settles sv c h \<and> (case adapter_of sv w h of
      None \<Rightarrow> (\<exists>err. host_shows sv c h = error_object err)
    | Some ad \<Rightarrow> host_shows sv c h = adapter_shows w (cmd_answer c ad))"
proof -
  note reach = call_reaches [OF assms cmd_adapter_served, of h c None]
  have texts: "aw_status_text w 500 \<noteq> []" using assms by (simp add: server_adapters_def)
  show ?thesis
  proof (cases "adapter_of sv w h")
    case None
    with reach show ?thesis by (auto simp: call_settles_def host_shows_def host_call_def)
  next
    case (Some ad)
    with reach have call: "host_call sv c h = call_result w (cmd_answer c ad)"
      by (simp add: host_call_def cmd_answer_def)
    have "call_settles sv c h \<and> host_shows sv c h = adapter_shows w (cmd_answer c ad)"
      using cmd_answer_cases [of c ad] texts unfolding call_settles_def host_shows_def call
      by (elim disjE conjE exE) (auto simp: call_result_def adapter_reply_def go_map_def)
    with Some show ?thesis by simp
  qed
qed

lemma adapter_command_served:
  assumes "page_ok env" "user_ok sv" "server_adapters sv w"
    and "\<forall>h \<in> set (onlineSelectedHosts a). h \<noteq> []" and "h \<in> set (onlineSelectedHosts a)"
  shows "case adapter_of sv w h of
      None \<Rightarrow> \<exists>err. obj_get (outputData (run_host_cmd c env (webui_network sv) a)) h = Some (error_object err)
    | Some ad \<Rightarrow> obj_get (outputData (run_host_cmd c env (webui_network sv) a)) h
        = Some (adapter_shows w (cmd_answer c ad))"
proof -
  have "onlineSelectedHosts a \<noteq> []" "\<forall>h \<in> set (onlineSelectedHosts a). h \<noteq> [] \<and> call_settles sv c h"
    using assms host_shows_adapter [OF assms(3)] by auto
  from host_command_served [OF assms(1,2) this, of h] show ?thesis
    using host_shows_adapter [OF assms(3), of c h] assms(5) by (simp split: option.splits)
qed


text \<open>
  C23. Drive shares are never shown. The local client lists them in a slice, and the adapter turns
  its answer into a map as if it were a struct, which panics: whatever the shares are, the page
  shows an error for every host.
\<close>

theorem drive_shares_never_shown:
  assumes "page_ok env" and "user_ok sv" and "server_adapters sv w"
    and "\<forall>h \<in> set (onlineSelectedHosts a). h \<noteq> []" and "h \<in> set (onlineSelectedHosts a)"
    and "\<forall>ad \<in> ran (aw_adapters w). \<forall>v. lc_shares (ad_client ad) = Inr v \<longrightarrow> (\<exists>shares. v = GoOther (JArr shares))"
  shows "\<exists>err. obj_get (outputData (run_host_cmd DriveShares env (webui_network sv) a)) h = Some (error_object err)"
proof (cases "adapter_of sv w h")
  case None
  with adapter_command_served [OF assms(1-5), of DriveShares] show ?thesis by simp
next
  case (Some ad)
  then have "ad \<in> ran (aw_adapters w)" by (auto simp: adapter_of_def ran_def split: option.splits if_splits)
  then have "\<And>v. lc_shares (ad_client ad) = Inr v \<Longrightarrow> StructToMap v = None" using assms(6) by force
  then have "cmd_answer DriveShares ad \<in> {AStatus 500, APanic}"
    by (simp add: cmd_answer_def DriveShares_adapter_def write_or_500_def WriteUnstructuredJSON_def split: sum.splits)
  with Some adapter_command_served [OF assms(1-5), of DriveShares] show ?thesis by auto
qed

section \<open>Pings\<close>

lemma decode_ping_body:
  assumes "- (2 ^ 63) \<le> pingCount a" "pingCount a < 2 ^ 63"
  shows "decode_PingInput (ping_body a t) = Some
    \<lparr>pn_target = t, pn_count = pingCount a, pn_pingType = pingType a, pn_delay = show_int (pingDelay a) @ ''ms''\<rparr>"
  by (simp add: decode_PingInput_def ping_body_def go_field_def obj_get_def go_string_def go_int_of_int [OF assms])

text \<open>What the page is to store for a target: the pings that got an answer, if the target is known.\<close>

definition pings_shown :: "app \<Rightarrow> adapter \<Rightarrow> string \<Rightarrow> jsv" where
  "pings_shown a ad t =
     (case GetIPByPeer t (ad_peers ad) of
        None \<Rightarrow> JUndef
      | Some ip \<Rightarrow>
          let pings = map (the \<circ> StructToMap) (all_pings (ad_client ad) ip (pingType a) (pingCount a)) in
          if pings = [] then JUndef else JArr pings)"

lemma ping_reaches:
  assumes "server_adapters sv w" "1 \<le> pingCount a" "pingCount a \<le> 20" "0 \<le> pingDelay a" "pingDelay a \<le> 2000"
    and "adapter_of sv w h = Some ad"
    and "\<forall>i ip ty v. lc_ping (ad_client ad) i ip ty = Inr v \<longrightarrow> StructToMap v \<noteq> None"
  shows "ping_shows sv a (h, t) = pings_shown a ad t"
proof -
  have served: "served_by adapter_routes (CHR ''/'' # ''Ping'') PostRoute A_Ping" by code_simp
  have call: "CallHost (sv_known sv) (ge_net (page_env_of sv)) (ge_caller (page_env_of sv)) ''POST'' h ''/Ping''
      (Some (ping_body a t)) = call_result w (Ping_adapter (ad_client ad) (ad_peers ad) (Inr (ping_body a t)))"
    using call_reaches [OF assms(1) served, of h "Some (ping_body a t)"] assms(6) by simp
  have delay: "ParseDuration (show_int (pingDelay a) @ ''ms'') = Some (pingDelay a * 1000000)"
    using ParseDuration_ms [of "nat (pingDelay a)"] assms(4,5) by (simp add: show_int_def)
  have decoded: "decode_PingInput (ping_body a t) = Some
      \<lparr>pn_target = t, pn_count = pingCount a, pn_pingType = pingType a, pn_delay = show_int (pingDelay a) @ ''ms''\<rparr>"
    by (rule decode_ping_body) (use assms(2,3) in simp_all)
  have structs: "\<exists>m. StructToMap v = Some (JObj m)" if "v \<in> set (all_pings (ad_client ad) ip ty n)" for v ip ty n
  proof -
    note v = that
    obtain i where "v \<in> set (case lc_ping (ad_client ad) i ip ty of Inl err \<Rightarrow> [] | Inr pingRes \<Rightarrow> [pingRes])"
      using v unfolding all_pings_def by auto
    then have "lc_ping (ad_client ad) i ip ty = Inr v" by (simp split: sum.splits)
    then have "StructToMap v \<noteq> None" using assms(7) by blast
    then show ?thesis using StructToMap_obj [of v] by auto
  qed
  have maps: "go_array go_any_map (JArr (map (the \<circ> StructToMap) vs)) = Some (map (the \<circ> StructToMap) vs)"
    if "\<And>v. v \<in> set vs \<Longrightarrow> \<exists>m. StructToMap v = Some (JObj m)" for vs
  proof -
    have "go_list go_any_map (map (the \<circ> StructToMap) vs) = Some (map (the \<circ> StructToMap) vs)"
      using that by (induction vs) (force simp: go_any_map_def)+
    then show ?thesis by (simp add: go_array_def)
  qed
  show ?thesis
  proof (cases "GetIPByPeer t (ad_peers ad)")
    case None
    then show ?thesis
      by (simp add: ping_shows_def call Ping_adapter_def decoded delay pings_shown_def call_result_def
          adapter_reply_def del: page_env_simps)
  next
    case (Some ip)
    let ?vs = "all_pings (ad_client ad) ip (pingType a) (pingCount a)"
    have "None \<notin> StructToMap ` set ?vs" using structs by force
    with Some maps [of ?vs] structs show ?thesis
      by (simp add: ping_shows_def call Ping_adapter_def decoded delay pings_shown_def call_result_def
          adapter_reply_def Let_def comp_def del: page_env_simps)
  qed
qed


section \<open>An example\<close>

text \<open>One adapter, which knows one peer and gets an answer to its first ping only.\<close>

definition sample_client :: local_client where
  "sample_client =
     \<lparr>lc_status = Inl ''down'', lc_prefs = Inr (GoPtr (GoStruct [(''WantRunning'', True, GoOther (JBool True)),
        (''AppConnector'', True, GoStruct [(''Advertise'', True, GoOther (JBool False)), (''x'', False, GoNil)]),
        (''Persist'', True, GoNil)])),
      lc_dns = Inl ''down'', lc_serve = Inr GoNil, lc_shares = Inr (GoOther (JArr [])), lc_routes = Inl ''down'',
      lc_no_routes = GoStruct [], lc_goroutines = Inl ''down'', lc_pprof = (\<lambda>_ _. Inl ''down''),
      lc_ping = (\<lambda>i ip ty. if i = 0 then Inr (GoPtr (GoStruct [(''LatencySeconds'', True, GoOther (JNum 1))])) else Inl ''timeout''),
      lc_query = (\<lambda>_ _. Inl ''down'')\<rparr>"

definition sample_adapter :: adapter where
  "sample_adapter =
     \<lparr>ad_config = \<lparr>sc_dev = False, sc_whois = (\<lambda>_. Inr (''u'', [''tag:tsymbiote-webui''])), sc_uuid = ''id''\<rparr>,
      ad_allowedTag = ''tag:tsymbiote-webui'', ad_client = sample_client,
      ad_peers = StorePeers [(''p'', [''100.64.0.1'']), (''q'', [])] \<lparr>kp_peers = [], kp_ips = []\<rparr>\<rparr>"

definition sample_world :: adapter_world where
  "sample_world =
     \<lparr>aw_adapters = [''a'' \<mapsto> sample_adapter], aw_address = ''1'', aw_status_text = (\<lambda>st. show_nat st),
      aw_text = (\<lambda>_. []), aw_parse = (\<lambda>_. Inl ''invalid'')\<rparr>"

definition wired_server :: server where
  "wired_server = sample_server\<lparr>sv_env := (sv_env sample_server)\<lparr>ge_net := adapters_net sample_world\<rparr>\<rparr>"

lemma wired_facts:
  "user_ok wired_server" "server_adapters wired_server sample_world"
  "adapter_of wired_server sample_world ''h'' = Some sample_adapter"
proof -
  show "user_ok wired_server" by (simp add: user_ok_def wired_server_def sample_server_def)
  show "server_adapters wired_server sample_world"
    by (simp add: server_adapters_def wired_server_def sample_server_def sample_world_def SetKnownHost_def NewClient_def)
  show "adapter_of wired_server sample_world ''h'' = Some sample_adapter"
    by (simp add: adapter_of_def wired_server_def sample_server_def sample_world_def admits_def node_allowed_def
        sample_adapter_def)
qed

lemma wired_hosts: "onlineSelectedHosts loaded_app = [''h'', ''g'']"
  by code_simp


theorem drive_shares_never_shown_witness:
  "\<exists>err. obj_get (outputData (run_host_cmd DriveShares sample_env (webui_network wired_server) loaded_app)) ''h''
     = Some (error_object err)"
proof -
  have "ran (aw_adapters sample_world) = {sample_adapter}" by (simp add: sample_world_def)
  then show ?thesis
    using drive_shares_never_shown [OF sample_ok(1) wired_facts(1,2), of loaded_app "''h''"]
    by (simp add: wired_hosts sample_adapter_def sample_client_def)
qed


end
