(* ===== verification/Spec2Isabelle.thy ===== *)
theory Spec2Isabelle
  imports SessionProperties StreamTermination StreamSession PageSafety ServerProperties RelayProperties
    AdapterProperties
begin

text \<open>
  Verification library of TSymbiote, a debugging tool for Tailscale networks: of its web page
  (\<open>web-ui/src\<close>), its web UI server (\<open>api/webui\<close>) and its adapters (\<open>api/adapter\<close>). The page shows the
  map of peers, lets the user select hosts (where an adapter runs) and target peers, runs commands
  on the hosts and shows their output, and streams logs and bus events over a WebSocket. A command
  is a request of the page to the server, which calls the adapters of the hosts, which ask the local
  client of Tailscale.

  \<^bold>\<open>Parts of the program and where they are modelled.\<close>

  \<^item> The language. \<open>JsPrelude\<close> (strings, numbers, \<open>parseInt\<close>, \<open>trim\<close>, exceptions as values, runs of
    a step relation), \<open>JsValue\<close> (values of unknown type, truthiness, property access that may
    throw, objects in the order of their keys), \<open>JsSet\<close> (\<open>Set\<close> in insertion order), \<open>Base64\<close>
    (\<open>atob\<close>).
  \<^item> \<open>api.ts\<close>. \<open>Api\<close> (requests, statuses, bodies; the network is a function from requests to
    outcomes), \<open>StreamUrl\<close> (the URL of a stream, and how \<open>websocket.go\<close> reads its hosts),
    \<open>ApiTypes\<close> (the interfaces, as types that a value of unknown type may have).
  \<^item> \<open>hooks/\<close>. \<open>WebSocketStream\<close> with \<open>StreamFormat\<close> is \<open>useWebSocketLogs.ts\<close>: refs, React state,
    sockets and timers as the record \<open>stream_world\<close>, one operation per callback, and the relation
    \<open>ws_step\<close>. \<open>OnlineFilter\<close> is \<open>useOnlineFilter.ts\<close>, \<open>PanelResize\<close> is \<open>usePanelResize.ts\<close>,
    \<open>Keyboard\<close> is \<open>useKeyboardShortcuts.ts\<close>.
  \<^item> \<open>App.tsx\<close>. \<open>AppState\<close> (the state and the loading of the peer map), \<open>Selection\<close> (the actions
    on the selection and the effects React runs after them), \<open>Ping\<close> and \<open>Commands\<close> (the handlers
    of the commands), \<open>Session\<close> (the whole page as the relation \<open>page_step\<close>, where a command is
    split at its \<open>await\<close> and everything else may happen before its answer arrives), \<open>PageView\<close>
    (what \<open>App\<close> renders, with \<open>SidebarPanel.tsx\<close>, \<open>GraphControls.tsx\<close> and the two modals).
  \<^item> \<open>utils/commandUtils.ts\<close> is \<open>CommandUtils\<close>.
  \<^item> \<open>components/\<close>. A component is a function from its properties to a tree (\<open>Jsx\<close>), or to the
    exception its evaluation throws. \<open>Format\<close>, \<open>Highlight\<close> and \<open>UIComponents\<close> are
    \<open>UIComponents.tsx\<close> (formatters, the two highlighters, the shared components),
    \<open>FormComponents.tsx\<close> and \<open>Modal.tsx\<close>; \<open>Stringify\<close> is \<open>JSON.stringify\<close> with an indentation of
    two; \<open>ResultViews\<close>, \<open>ServeViews\<close>, \<open>StatusView\<close>, \<open>Goroutines\<close> and \<open>OutputPanel\<close> are
    \<open>CommandOutputsPanel.tsx\<close>; \<open>PprofViewer\<close> and \<open>ContextMenu\<close> are the files of that name.
  \<^item> \<open>api/shared\<close>, routes. \<open>ServerRoutes\<close>: the known paths, the middleware as functions between
    handlers, authentication, and the route tables of both servers.
  \<^item> \<open>api/webui\<close>. \<open>AdapterClient\<close> is \<open>client.go\<close>; \<open>Fanout\<close> is what its handlers share, a goroutine per
    target and a loop that receives from each; \<open>ServerHandlers\<close> holds the handlers
    (\<open>passthrough.go\<close>, \<open>goroutines.go\<close>, \<open>querydns.go\<close>, \<open>ping.go\<close>, \<open>pprof.go\<close>, \<open>peermap.go\<close>,
    \<open>debug.go\<close>); \<open>ServerNetwork\<close> makes the server the network of the page; \<open>StreamServer\<close> is
    \<open>websocket.go\<close>, the goroutines of a stream as the relation \<open>px_step\<close> on the record \<open>proxy\<close>.
  \<^item> \<open>api/adapter\<close> and \<open>StructToMap\<close>. \<open>Adapter\<close>: the handlers of the adapter on the answers of the
    local client, the known peers, the search for the socket, and the adapters as the tailnet of
    the server.

  \<^bold>\<open>What the lemmas show.\<close>

  \<^item> Streams (\<open>StreamInvariant\<close>, \<open>StreamProperties\<close>, \<open>StreamTermination\<close>, \<open>StreamSession\<close>): the
    hook implements an abstract session and allows all of it; refs, timers and sockets agree with what the page shows, in every interleaving of the browser's events;
    dead connections are given up; the transcript of a host is what was sent; the events of
    the sockets end. The conditions under which an old socket escapes are exact.
  \<^item> Selection (\<open>Selection\<close>, \<open>SelectionProperties\<close>): the selected targets stay within reach of
    the selected hosts, through the effects.
  \<^item> Commands (\<open>PingProperties\<close>, \<open>CommandProperties\<close>): the requests, what each branch of an answer
    stores, errors included, and the colours of the edges.
  \<^item> The page (\<open>SessionInvariant\<close>, \<open>SessionProperties\<close>, \<open>KeyboardProperties\<close>): an invariant of all
    runs, at most one command in flight, and start and answer compose to the handler.
  \<^item> Rendering (\<open>ViewTypes\<close>, \<open>PanelProperties\<close>, \<open>AnswerViews\<close>, \<open>ContextMenu\<close>, \<open>PageProperties\<close>,
    \<open>PageSafety\<close>): data of the declared types renders without an exception, so on typed answers
    the page stays up in every run; it throws only in the view of the selected host; the
    controls are enabled exactly where the steps of the page are.
  \<^item> Text (\<open>Stringify\<close>, \<open>Goroutines\<close>, \<open>Format\<close>): the highlighters show their input and inject
    nothing, the regular expression colours exactly the JSON tokens, goroutine dumps are read
    back, sizes and times are printed within bounds.
  \<^item> Servers (\<open>ServerRoutes\<close>, \<open>AdapterClient\<close>, \<open>Fanout\<close>): who reaches a handler, that the routes of the
    three programs fit, when the maps of known hosts are inverse, and that all schedules of the
    goroutines of a request have one outcome.
  \<^item> From end to end (\<open>ServerProperties\<close>, \<open>ServerPing\<close>, \<open>AdapterProperties\<close>, \<open>RelayProperties\<close>): what
    the page shows of a host command, a ping, a profile, the peer map and a stream, in terms of what
    the local clients answer; and where this fails: the pass-through that ends the server, drive
    shares, the closing note of the last adapter, a stream that is stuck or never starts.

  \<^bold>\<open>Interfaces.\<close> \<open>step_invariant\<close> (invariants of a step relation, interpreted for the stream, its
  serial runs, the panel, the selection, the page, its runs on typed answers, the profile
  viewer, the known hosts, the goroutines of a request and those of a stream), \<open>authentication\<close> (what
  the routes need of it, interpreted for both servers), \<open>simulation\<close> (its extension to a specification, interpreted for the session of the
  stream), \<open>keyed_collection\<close> and \<open>js_set\<close>
  (objects and sets of the language), \<open>marked_text\<close> (a highlighter as a marking of its input,
  interpreted for both).

  \<^bold>\<open>Bounds.\<close> Loops are recursion that terminates, without fuel: the regular expressions consume
  their input, \<open>log1024\<close> has the number of its steps as measure, durations get shorter, and the search
  for the socket counts its attempts. The recursive type of a serve
  configuration is unfolded to a depth that is a parameter of the theorems.

  \<^bold>\<open>Limits of the model.\<close> Characters are below 256; a string with others is outside it (the
  bullet of the health warnings stands as character 149). Numbers are exact rationals, so
  rounding of doubles is not seen. Fixed styling (class names that do not depend on data, icons'
  paths) is left out of the trees. HTML is read by removing its tags and then decoding the three
  entities. \<open>JSON.parse\<close>, the clock and the formatting of dates are parameters. Between the programs
  JSON passes as values; deadlines are failures that the environment chooses; the order of a Go map
  is a parameter. \<open>http.ServeMux\<close> is modelled by the segments of its patterns, and gorilla's sockets by
  reads and writes that succeed or fail, a failed write making all later ones fail.

  \<^bold>\<open>Not modelled.\<close> \<open>GraphCanvas\<close> (third-party): it appears as an element with its nodes and edges,
  and the calls on it as a log; the handlers of dragged nodes only feed positions to it. \<open>main.tsx\<close>:
  it mounts the page. The local client of Tailscale, the DNS parser and the control plane are
  parameters. The start and the shutdown of the servers (\<open>cmd/\<close>, \<open>server.go\<close>) call libraries only. The
  goroutines by which an adapter reads its log stream (\<open>logs.go\<close>, \<open>busevents.go\<close>): what they send is
  the input of \<open>StreamServer\<close>. The Kubernetes operator (\<open>operator/\<close>) and the deployment files act
  through a client library outside the repository.
\<close>

end
